(* ===== verification/Prelude.thy ===== *)
theory Prelude
  imports Main
    "HOL-Library.AList"
    "HOL-Library.List_Lexorder"
    "HOL-Library.Char_ord"
    "HOL-Library.Product_Lexorder"
begin

text \<open>
  What every theory of the development shares: the Python values the code uses and the
  lemmas about them.

  \<^item> \<open>str\<close> is a Python string (an ASCII text; Python's other code points are not
    modelled), with the methods the code calls: \<open>lower\<close>, \<open>strip\<close>, \<open>startswith\<close>.
  \<^item> \<open>('k, 'v) dict\<close> is a Python dictionary: an association list in insertion order.
    \<open>d[k] = v\<close> is \<open>AList.update\<close>, which replaces in place or appends at the end as
    CPython does, \<open>d.get(k)\<close> is \<open>map_of\<close>, \<open>del d[k]\<close> is \<open>AList.delete\<close>.
  \<^item> \<open>'e + 'a\<close> is the result of code that may raise: \<open>Inl\<close> the exception.

  The collection \<open>py_simps\<close> holds the evaluation rules of these operations and
  \<open>frame\<close> the facts "this operation leaves that part of the state alone".
\<close>

named_theorems py_simps "evaluation of the Python operations"
named_theorems frame "what an operation leaves unchanged"

section \<open>Strings\<close>

type_synonym str = string

definition lower_char :: "char \<Rightarrow> char" where
  "lower_char c =
     (if CHR ''A'' \<le> c \<and> c \<le> CHR ''Z'' then char_of (of_char c + (32 :: nat)) else c)"

definition lower :: "str \<Rightarrow> str" where
  "lower s = map lower_char s"

text \<open>The ASCII characters \<open>str.strip()\<close> removes: 9 to 13, 28 to 31 and the space.\<close>

definition is_space :: "char \<Rightarrow> bool" where
  "is_space c \<longleftrightarrow>
     (let n = (of_char c :: nat) in 9 \<le> n \<and> n \<le> 13 \<or> 28 \<le> n \<and> n \<le> 32)"

definition strip :: "str \<Rightarrow> str" where
  "strip s = rev (dropWhile is_space (rev (dropWhile is_space s)))"

definition startswith :: "str \<Rightarrow> str \<Rightarrow> bool" where
  "startswith s p \<longleftrightarrow> take (length p) s = p"

text \<open>Truth value of an optional string: \<open>None\<close> and the empty string are false.\<close>

fun truthy :: "str option \<Rightarrow> bool" where
  "truthy None = False"
| "truthy (Some s) = (s \<noteq> [])"

lemma truthyE: "truthy x \<Longrightarrow> (\<And>s. x = Some s \<Longrightarrow> s \<noteq> [] \<Longrightarrow> P) \<Longrightarrow> P"
  by (cases x) auto

lemma of_char_le_iff: "(of_char c :: nat) \<le> of_char d \<longleftrightarrow> c \<le> d"
  by (simp add: less_eq_char_def)

lemma lower_char_idem [simp]: "lower_char (lower_char c) = lower_char c"
proof (cases "CHR ''A'' \<le> c \<and> c \<le> CHR ''Z''")
  case True
  then have b: "(65 :: nat) \<le> of_char c" "(of_char c :: nat) \<le> 90"
    by (simp_all add: less_eq_char_def)
  let ?d = "char_of (of_char c + (32 :: nat)) :: char"
  have d: "lower_char c = ?d" using True by (simp add: lower_char_def)
  have "(of_char ?d :: nat) = of_char c + 32"
    using b by (simp add: of_char_of)
  then have "\<not> ?d \<le> CHR ''Z''" using b by (simp add: less_eq_char_def)
  then show ?thesis unfolding d by (simp add: lower_char_def)
next
  case False
  then have "lower_char c = c" by (auto simp: lower_char_def)
  then show ?thesis by simp
qed

lemma lower_idem [simp]: "lower (lower s) = lower s"
  by (simp add: lower_def)

lemma lower_eq_Nil [simp]: "lower s = [] \<longleftrightarrow> s = []"
  by (simp add: lower_def)

lemma length_lower [simp]: "length (lower s) = length s"
  by (simp add: lower_def)

lemma startswith_append [simp, intro]: "startswith (p @ s) p"
  by (simp add: startswith_def)

lemma startswith_iff: "startswith s p \<longleftrightarrow> (\<exists>t. s = p @ t)"
  by (metis append_eq_conv_conj append_take_drop_id startswith_append startswith_def)

section \<open>Dictionaries\<close>

type_synonym ('k, 'v) dict = "('k \<times> 'v) list"

abbreviation dget :: "('k, 'v) dict \<Rightarrow> 'k \<Rightarrow> 'v option" where
  "dget \<equiv> map_of"

abbreviation dset :: "'k \<Rightarrow> 'v \<Rightarrow> ('k, 'v) dict \<Rightarrow> ('k, 'v) dict" where
  "dset \<equiv> AList.update"

abbreviation ddel :: "'k \<Rightarrow> ('k, 'v) dict \<Rightarrow> ('k, 'v) dict" where
  "ddel \<equiv> AList.delete"

definition dkeys :: "('k, 'v) dict \<Rightarrow> 'k list" where
  "dkeys d = map fst d"

definition dvalues :: "('k, 'v) dict \<Rightarrow> 'v list" where
  "dvalues d = map snd d"

abbreviation is_dict :: "('k, 'v) dict \<Rightarrow> bool" where
  "is_dict d \<equiv> distinct (map fst d)"

text \<open>\<open>d.get(k, default)\<close>\<close>

definition dget_or :: "('k, 'v) dict \<Rightarrow> 'k \<Rightarrow> 'v \<Rightarrow> 'v" where
  "dget_or d k v = (case map_of d k of None \<Rightarrow> v | Some w \<Rightarrow> w)"

text \<open>A comprehension \<open>{key(x): val(x) for x in xs}\<close>.\<close>

definition dict_of :: "('a \<Rightarrow> 'k) \<Rightarrow> ('a \<Rightarrow> 'v) \<Rightarrow> 'a list \<Rightarrow> ('k, 'v) dict" where
  "dict_of f g xs = fold (\<lambda>x d. AList.update (f x) (g x) d) xs []"

text \<open>\<open>d.update(e)\<close>\<close>

definition dupdate :: "('k, 'v) dict \<Rightarrow> ('k, 'v) dict \<Rightarrow> ('k, 'v) dict" where
  "dupdate e d = fold (\<lambda>(k, v). AList.update k v) e d"

lemma dget_dset [simp, py_simps]: "map_of (AList.update k v d) k' = (if k' = k then Some v else map_of d k')"
  by (simp add: update_conv')

lemma is_dict_dset [simp, intro]: "is_dict d \<Longrightarrow> is_dict (AList.update k v d)"
  by (rule distinct_update)

lemma set_keys_dset [simp]: "fst ` set (AList.update k v d) = insert k (fst ` set d)"
  by (auto simp: dom_update)

lemma dget_ddel [simp, py_simps]: "map_of (AList.delete k d) k' = (if k' = k then None else map_of d k')"
  by (simp add: delete_conv')

lemma is_dict_ddel [simp, intro]: "is_dict d \<Longrightarrow> is_dict (AList.delete k d)"
  by (rule distinct_delete)

lemma dset_new: "k \<notin> fst ` set d \<Longrightarrow> AList.update k v d = d @ [(k, v)]"
  by (induction d) auto

lemma fold_dset_is_dict: "is_dict d \<Longrightarrow> is_dict (fold (\<lambda>x d. AList.update (f x) (g x) d) xs d)"
  by (induction xs arbitrary: d) auto

lemma fold_dset_keys:
  "fst ` set (fold (\<lambda>x d. AList.update (f x) (g x) d) xs d) = f ` set xs \<union> fst ` set d"
  by (induction xs arbitrary: d) auto

lemma fold_dset_append:
  "distinct (map f xs) \<Longrightarrow> f ` set xs \<inter> fst ` set d = {} \<Longrightarrow>
    fold (\<lambda>x d. AList.update (f x) (g x) d) xs d = d @ map (\<lambda>x. (f x, g x)) xs"
proof (induction xs arbitrary: d)
  case Nil
  then show ?case by simp
next
  case (Cons x xs)
  have "AList.update (f x) (g x) d = d @ [(f x, g x)]"
    using Cons.prems(2) by (intro dset_new) auto
  moreover have "fold (\<lambda>x d. AList.update (f x) (g x) d) xs (d @ [(f x, g x)]) =
      (d @ [(f x, g x)]) @ map (\<lambda>x. (f x, g x)) xs"
    using Cons.prems by (intro Cons.IH) auto
  ultimately show ?case by simp
qed

lemma is_dict_dict_of [simp, intro]: "is_dict (dict_of f g xs)"
  by (simp add: dict_of_def fold_dset_is_dict)

lemma keys_dict_of [simp]: "fst ` set (dict_of f g xs) = f ` set xs"
  by (simp add: dict_of_def fold_dset_keys)

lemma dict_of_distinct:
  "distinct (map f xs) \<Longrightarrow> dict_of f g xs = map (\<lambda>x. (f x, g x)) xs"
  using fold_dset_append [of f xs "[]" g] by (simp add: dict_of_def)

lemma fold_dset_vals:
  "(k, v) \<in> set (fold (\<lambda>x d. AList.update (f x) (g x) d) xs d) \<Longrightarrow> is_dict d \<Longrightarrow>
    (k, v) \<in> set d \<or> (\<exists>x\<in>set xs. k = f x \<and> v = g x)"
proof (induction xs arbitrary: d)
  case Nil
  then show ?case by simp
next
  case (Cons x xs)
  have "(k, v) \<in> set (AList.update (f x) (g x) d) \<or> (\<exists>x\<in>set xs. k = f x \<and> v = g x)"
    using Cons.IH [of "AList.update (f x) (g x) d"] Cons.prems by auto
  moreover have "(k, v) \<in> set (AList.update (f x) (g x) d) \<Longrightarrow> (k, v) \<in> set d \<or> (k = f x \<and> v = g x)"
    using Cons.prems(2) by (metis dget_dset is_dict_dset map_of_eq_Some_iff option.inject)
  ultimately show ?case by auto
qed

lemma dict_of_valsD:
  "(k, v) \<in> set (dict_of f g xs) \<Longrightarrow> \<exists>x\<in>set xs. k = f x \<and> v = g x"
  unfolding dict_of_def by (drule fold_dset_vals) auto

text \<open>The value stored last for a key wins, in every dictionary built from the same keys.\<close>

lemma dget_dict_of: "map_of (dict_of f g xs) k = map_option g (find (\<lambda>x. f x = k) (rev xs))"
proof -
  have "map_of (fold (\<lambda>x d. AList.update (f x) (g x) d) xs d) k =
      (case find (\<lambda>x. f x = k) (rev xs) of None \<Rightarrow> map_of d k | Some x \<Rightarrow> Some (g x))" for d
    by (induction xs arbitrary: d rule: rev_induct) auto
  then show ?thesis by (auto simp: dict_of_def split: option.splits)
qed

lemma dget_dupdate: "map_of (dupdate e d) k = (case map_of (rev e) k of None \<Rightarrow> map_of d k | Some v \<Rightarrow> Some v)"
  unfolding dupdate_def by (induction e arbitrary: d rule: rev_induct) auto

lemma is_dict_dupdate: "is_dict d \<Longrightarrow> is_dict (dupdate e d)"
  unfolding dupdate_def by (induction e arbitrary: d) auto

section \<open>Results of code that may raise\<close>

fun rbind :: "'e + 'a \<Rightarrow> ('a \<Rightarrow> 'e + 'b) \<Rightarrow> 'e + 'b" where
  "rbind (Inl e) f = Inl e"
| "rbind (Inr a) f = f a"

text \<open>\<open>assert_ok b e\<close>: raise \<open>e\<close> unless \<open>b\<close> holds.\<close>

definition ensure :: "bool \<Rightarrow> 'e \<Rightarrow> 'e + unit" where
  "ensure b e = (if b then Inr () else Inl e)"

lemma rbind_Inr_iff: "rbind r f = Inr b \<longleftrightarrow> (\<exists>a. r = Inr a \<and> f a = Inr b)"
  by (cases r) auto

lemma rbind_Inl_iff: "rbind r f = Inl e \<longleftrightarrow> r = Inl e \<or> (\<exists>a. r = Inr a \<and> f a = Inl e)"
  by (cases r) auto

lemma ensure_Inr_iff [simp]: "ensure b e = Inr u \<longleftrightarrow> b"
  by (simp add: ensure_def)

lemma ensure_Inl_iff [simp]: "ensure b e = Inl e' \<longleftrightarrow> \<not> b \<and> e' = e"
  by (auto simp: ensure_def)

text \<open>\<open>d[k]\<close> raises on a missing key (the exception is the argument).\<close>

definition getitem :: "'e \<Rightarrow> ('k, 'v) dict \<Rightarrow> 'k \<Rightarrow> 'e + 'v" where
  "getitem e d k = (case map_of d k of None \<Rightarrow> Inl e | Some v \<Rightarrow> Inr v)"

lemma getitem_Some [simp]: "map_of d k = Some v \<Longrightarrow> getitem e d k = Inr v"
  by (simp add: getitem_def)

text \<open>A loop that collects the results of its body and stops at the first exception.\<close>

fun rmap :: "('a \<Rightarrow> 'e + 'b) \<Rightarrow> 'a list \<Rightarrow> 'e + 'b list" where
  "rmap f [] = Inr []"
| "rmap f (x # xs) = rbind (f x) (\<lambda>y. rbind (rmap f xs) (\<lambda>ys. Inr (y # ys)))"

lemma rmap_Inr: "(\<And>x. x \<in> set xs \<Longrightarrow> f x = Inr (g x)) \<Longrightarrow> rmap f xs = Inr (map g xs)"
  by (induction xs) auto

text \<open>A list of conditions, each with what its failure means: the first that fails.\<close>

definition first_failed :: "('a \<times> bool) list \<Rightarrow> 'a option" where
  "first_failed gs = map_option fst (find (\<lambda>(a, holds). \<not> holds) gs)"

lemma first_failed_simps [simp]:
  "first_failed [] = None"
  "first_failed ((a, holds) # gs) = (if holds then first_failed gs else Some a)"
  by (simp_all add: first_failed_def)

lemma first_failed_None: "first_failed gs = None \<longleftrightarrow> (\<forall>g\<in>set gs. snd g)"
proof (induction gs)
  case (Cons g gs)
  then show ?case by (cases g) auto
qed simp

lemmas result_simps = rbind_Inr_iff rbind_Inl_iff ensure_Inr_iff ensure_Inl_iff

end
