(* ===== verification/Bytes.thy ===== *)
theory Bytes
  imports Prelude "HOL-Library.Word"
begin

unbundle bit_operations_syntax

text \<open>
  Python's \<open>bytes\<close> and the conversions the code uses: \<open>b.hex()\<close>, \<open>bytes.fromhex(s)\<close>,
  \<open>format(n, "0wx")\<close> and \<open>str(n)\<close>. A byte is an 8-bit word. \<open>fromhex\<close> is \<open>None\<close> where
  Python raises \<open>ValueError\<close>; like Python's it skips white space between the pairs.
  The round trip \<open>fromhex (hex b) = Some b\<close> is what the audit ledger and the artifact
  signatures rest on.
\<close>

type_synonym bytes = "8 word list"

definition hex_digits :: str where
  "hex_digits = ''0123456789abcdef''"

definition hex_digit :: "nat \<Rightarrow> char" where
  "hex_digit n = hex_digits ! (n mod 16)"

definition hex_byte :: "8 word \<Rightarrow> str" where
  "hex_byte b = [hex_digit (unat b div 16), hex_digit (unat b)]"

definition hex :: "bytes \<Rightarrow> str" where
  "hex bs = concat (map hex_byte bs)"

text \<open>The value of a hexadecimal digit of either case.\<close>

definition hex_value :: "char \<Rightarrow> nat option" where
  "hex_value c = (let n = of_char c :: nat in
     if 48 \<le> n \<and> n \<le> 57 then Some (n - 48)
     else if 97 \<le> n \<and> n \<le> 102 then Some (n - 87)
     else if 65 \<le> n \<and> n \<le> 70 then Some (n - 55)
     else None)"

text \<open>The ASCII white space \<open>bytes.fromhex\<close> skips.\<close>

definition is_hex_space :: "char \<Rightarrow> bool" where
  "is_hex_space c \<longleftrightarrow> (let n = of_char c :: nat in 9 \<le> n \<and> n \<le> 13 \<or> n = 32)"

fun fromhex :: "str \<Rightarrow> bytes option" where
  "fromhex [] = Some []"
| "fromhex [c] = (if is_hex_space c then Some [] else None)"
| "fromhex (c # d # cs) =
     (if is_hex_space c then fromhex (d # cs)
      else (case (hex_value c, hex_value d) of
        (Some h, Some l) \<Rightarrow> map_option (Cons (of_nat (16 * h + l))) (fromhex cs)
      | _ \<Rightarrow> None))"

lemma hex_digit_cases: "hex_digit n \<in> set hex_digits"
  unfolding hex_digit_def by (rule nth_mem) (simp add: hex_digits_def)

lemma hex_value_digit: "hex_value (hex_digit n) = Some (n mod 16)"
proof -
  have "\<forall>k\<in>set [0..<16]. hex_value (hex_digits ! k) = Some k" by code_simp
  then show ?thesis by (simp add: hex_digit_def)
qed

lemma hex_digit_no_space: "\<not> is_hex_space (hex_digit n)"
proof -
  have "\<forall>k\<in>set [0..<16]. \<not> is_hex_space (hex_digits ! k)" by code_simp
  then show ?thesis by (simp add: hex_digit_def)
qed

lemma fromhex_hex_byte: "fromhex (hex_byte b @ s) = map_option (Cons b) (fromhex s)"
proof -
  have "unat b < 256" using unsigned_less [of b] by simp
  then have "16 * (unat b div 16 mod 16) + unat b mod 16 = unat b" by simp
  then have "(of_nat (16 * (unat b div 16 mod 16) + unat b mod 16) :: 8 word) = b"
    by simp
  then show ?thesis
    by (simp add: hex_byte_def hex_value_digit hex_digit_no_space del: of_nat_add of_nat_mult)
qed

theorem fromhex_hex [simp]: "fromhex (hex bs) = Some bs"
  by (induction bs) (simp_all add: hex_def fromhex_hex_byte)

lemma hex_inj: "hex a = hex b \<longleftrightarrow> a = b"
  using fromhex_hex by (metis option.inject)

lemma length_hex [simp]: "length (hex bs) = 2 * length bs"
  by (induction bs) (simp_all add: hex_def hex_byte_def)

lemma hex_eq_Nil [simp]: "hex bs = [] \<longleftrightarrow> bs = []"
  using length_hex [of bs] by (metis length_0_conv mult_is_0 zero_neq_numeral)

section \<open>Numbers in positional notation\<close>

text \<open>\<open>digits b n\<close>: the digits of \<open>n\<close>, most significant first, none for 0.\<close>

lemma div_less_dividend: "\<not> (n \<le> 0 \<or> b \<le> 1) \<Longrightarrow> n div b < n" for n b :: int
  by (simp add: int_div_less_self)

function digits :: "int \<Rightarrow> int \<Rightarrow> nat list" where
  "digits b n = (if n \<le> 0 \<or> b \<le> 1 then [] else digits b (n div b) @ [nat (n mod b)])"
  by pat_completeness auto
termination
  by (relation "measure (\<lambda>(b, n). nat n)") (auto simp: div_less_dividend)

declare digits.simps [simp del]

lemma digits_0 [simp]: "digits b 0 = []"
  by (simp add: digits.simps)

text \<open>\<open>f"{n:0wx}"\<close> for \<open>n\<close> not negative\<close>

definition fmt_hex :: "nat \<Rightarrow> int \<Rightarrow> str" where
  "fmt_hex w n = (let s = map hex_digit (if n = 0 then [0] else digits 16 n)
     in replicate (w - length s) (CHR ''0'') @ s)"

text \<open>\<open>str(i)\<close>\<close>

definition show_int :: "int \<Rightarrow> str" where
  "show_int i = (if i < 0 then ''-'' else []) @
     map hex_digit (if i = 0 then [0] else digits 10 \<bar>i\<bar>)"

lemma length_digits: "1 < b \<Longrightarrow> n < b ^ w \<Longrightarrow> length (digits b n) \<le> w"
proof (induction b n arbitrary: w rule: digits.induct)
  case (1 b n)
  show ?case
  proof (cases "n \<le> 0")
    case True
    then show ?thesis by (simp add: digits.simps)
  next
    case False
    with "1.prems" obtain v where w: "w = Suc v" by (cases w) auto
    have "n div b < b ^ v"
    proof (rule ccontr)
      assume "\<not> n div b < b ^ v"
      then have "b ^ v * b \<le> n div b * b" using "1.prems"(1) by (intro mult_right_mono) simp_all
      also have "\<dots> \<le> n" using "1.prems"(1) div_mult_mod_eq [of n b] pos_mod_sign [of b n] by linarith
      finally show False using "1.prems"(2) w by (simp add: mult.commute)
    qed
    then have "length (digits b (n div b)) \<le> v" using "1.IH" False "1.prems" by simp
    then show ?thesis using False "1.prems" w by (simp add: digits.simps [of b n])
  qed
qed

lemma length_fmt_hex: "n < 16 ^ w \<Longrightarrow> 0 < w \<Longrightarrow> length (fmt_hex w n) = w"
  using length_digits [of 16 n w] by (auto simp: fmt_hex_def Let_def)

lemma digits_less: "d \<in> set (digits b n) \<Longrightarrow> int d < b"
  by (induction b n rule: digits.induct) (subst (asm) (2) digits.simps, auto split: if_splits)

text \<open>Reading positional notation back.\<close>

fun undigits :: "int \<Rightarrow> nat list \<Rightarrow> int \<Rightarrow> int" where
  "undigits b [] acc = acc"
| "undigits b (d # ds) acc = undigits b ds (acc * b + int d)"

lemma undigits_append: "undigits b (xs @ ys) acc = undigits b ys (undigits b xs acc)"
  by (induction xs arbitrary: acc) auto

lemma undigits_digits: "1 < b \<Longrightarrow> 0 \<le> n \<Longrightarrow> undigits b (digits b n) 0 = n"
proof (induction b n rule: digits.induct)
  case (1 b n)
  show ?case
  proof (cases "n = 0")
    case True
    then show ?thesis by (simp add: digits.simps)
  next
    case False
    then have "undigits b (digits b (n div b)) 0 = n div b"
      using 1 by (simp add: pos_imp_zdiv_nonneg_iff)
    then show ?thesis using False "1.prems" by (simp add: digits.simps [of b n] undigits_append)
  qed
qed

lemma hex_digit_inj: "map hex_digit xs = map hex_digit ys \<Longrightarrow> \<forall>x\<in>set xs. x < 16 \<Longrightarrow> \<forall>y\<in>set ys. y < 16 \<Longrightarrow> xs = ys"
proof (induction xs arbitrary: ys)
  case (Cons x xs)
  then obtain y ys' where ys: "ys = y # ys'" by (cases ys) auto
  have "hex_value (hex_digit x) = hex_value (hex_digit y)" using Cons.prems ys by simp
  then have "x = y" using Cons.prems ys by (simp add: hex_value_digit)
  then show ?case using Cons ys by auto
qed simp

end
