(* ===== verification/PyFloat.thy ===== *)
theory PyFloat
  imports Prelude "HOL-Library.Log_Nat" Complex_Main
begin

text \<open>
  Python's \<open>float\<close>: the finite binary64 numbers, as the rationals they denote. The
  arithmetic of the code rounds after every operation, and so does the model: \<open>fl x\<close> is
  the binary64 number nearest to \<open>x\<close>, ties to even (with the gradual underflow of
  subnormal numbers; exponents are not bounded above, so overflow to infinity, the
  infinities themselves and NaN are not modelled). \<open>round\<close> with a number of digits is
  CPython's: the exact value of the float is rounded half-even to the decimal digit and the
  decimal is then rounded to a float.

  The locale \<open>rounding\<close> is what the scoring code relies on (monotone, exact on 0 and 1);
  its lemmas bound a min-max normalised value, a weighted metric and a convex combination,
  and \<open>fl\<close> is its instance.
\<close>

type_synonym pyfloat = rat

section \<open>Rounding to an integer, ties to even\<close>

definition rne :: "rat \<Rightarrow> int" where
  "rne x = (let f = \<lfloor>x\<rfloor>; d = x - of_int f in
     if d < 1 / 2 then f else if 1 / 2 < d then f + 1 else if even f then f else f + 1)"

lemma rne_of_int [simp]: "rne (of_int n) = n"
  by (simp add: rne_def)

lemma rne_0 [simp]: "rne 0 = 0" and rne_1 [simp]: "rne 1 = 1"
  using rne_of_int [of 0] rne_of_int [of 1] by simp_all

lemma rne_bounds: "\<lfloor>x\<rfloor> \<le> rne x" "rne x \<le> \<lfloor>x\<rfloor> + 1"
  by (simp_all add: rne_def Let_def)

lemma rne_mono: "x \<le> y \<Longrightarrow> rne x \<le> rne y"
proof -
  assume xy: "x \<le> y"
  then have "\<lfloor>x\<rfloor> \<le> \<lfloor>y\<rfloor>" by (rule floor_mono)
  then consider "\<lfloor>x\<rfloor> < \<lfloor>y\<rfloor>" | "\<lfloor>x\<rfloor> = \<lfloor>y\<rfloor>" by linarith
  then show ?thesis
  proof cases
    case 1
    then show ?thesis using rne_bounds(2) [of x] rne_bounds(1) [of y] by linarith
  next
    case 2
    then show ?thesis using xy by (simp add: rne_def Let_def)
  qed
qed

lemma rne_minus: "rne (- x) = - rne x"
proof (cases "x = of_int \<lfloor>x\<rfloor>")
  case True
  then have "rne (- x) = rne (of_int (- \<lfloor>x\<rfloor>))" by simp
  then show ?thesis using True by (metis rne_of_int)
next
  case False
  then have f: "\<lfloor>- x\<rfloor> = - \<lfloor>x\<rfloor> - 1"
    by (smt (verit) ceiling_altdef floor_minus)
  define d where "d = x - of_int \<lfloor>x\<rfloor>"
  have "- x - of_int \<lfloor>- x\<rfloor> = 1 - d" by (simp add: f d_def)
  then show ?thesis by (simp add: rne_def Let_def f d_def [symmetric])
qed

lemma rne_error: "\<bar>of_int (rne x) - x\<bar> \<le> 1 / 2"
proof -
  define d where "d = x - of_int \<lfloor>x\<rfloor>"
  have "0 \<le> d" "d < 1" by (simp_all add: d_def) linarith
  moreover have "x = of_int \<lfloor>x\<rfloor> + d" by (simp add: d_def)
  ultimately show ?thesis by (auto simp: rne_def Let_def d_def [symmetric] abs_if)
qed

section \<open>The binary exponent of a rational\<close>

definition ilog2 :: "rat \<Rightarrow> int" where
  "ilog2 x = (let (p, q) = quotient_of x; e = bitlen p - bitlen q in
     if 2 powi e \<le> x then e else e - 1)"

lemma bitlen_powi: "0 < p \<Longrightarrow> 2 powi (bitlen p - 1) \<le> (of_int p :: rat) \<and> (of_int p :: rat) < 2 powi (bitlen p)"
proof -
  assume p: "0 < p"
  then have l: "0 < bitlen p" using bitlen_eq_zero_iff [of p] bitlen_nonneg [of p] by linarith
  have b: "2 ^ nat (bitlen p - 1) \<le> p \<and> p < 2 ^ nat (bitlen p)"
    using bitlen_bounds [OF p] .
  have "(2 :: rat) powi (bitlen p - 1) = of_int (2 ^ nat (bitlen p - 1))"
    using l by (simp add: power_int_def)
  moreover have "(2 :: rat) powi (bitlen p) = of_int (2 ^ nat (bitlen p))"
    using l by (simp add: power_int_def)
  ultimately show ?thesis using b by (metis of_int_le_iff of_int_less_iff)
qed

lemma ilog2_bounds: "0 < x \<Longrightarrow> 2 powi (ilog2 x) \<le> x \<and> x < 2 powi (ilog2 x + 1)"
proof -
  assume x: "0 < x"
  obtain p q where pq: "quotient_of x = (p, q)" by fastforce
  have q: "0 < q" using quotient_of_denom_pos [OF pq] .
  have xpq: "x = of_int p / of_int q" using quotient_of_div [OF pq] .
  then have p: "0 < p" using x q by (simp add: zero_less_divide_iff)
  let ?e = "bitlen p - bitlen q"
  note P = bitlen_powi [OF p] and Q = bitlen_powi [OF q]
  have pos: "(0 :: rat) < of_int q" using q by simp
  have lo: "2 powi (?e - 1) \<le> x"
  proof -
    have "(2 :: rat) powi (?e - 1) * of_int q \<le> 2 powi (?e - 1) * 2 powi (bitlen q)"
      using Q by (intro mult_left_mono) simp_all
    also have "\<dots> = 2 powi (bitlen p - 1)"
      by (subst power_int_add [symmetric]) (simp_all add: algebra_simps)
    also have "\<dots> \<le> of_int p" using P by simp
    finally show ?thesis using pos by (simp add: xpq le_divide_eq)
  qed
  have hi: "x < 2 powi (?e + 1)"
  proof -
    have "of_int p < (2 :: rat) powi (bitlen p)" using P by simp
    also have "\<dots> = 2 powi (?e + 1) * 2 powi (bitlen q - 1)"
      by (subst power_int_add [symmetric]) (simp_all add: algebra_simps)
    also have "\<dots> \<le> 2 powi (?e + 1) * of_int q"
      using Q by (intro mult_left_mono) simp_all
    finally show ?thesis using pos by (simp add: xpq divide_less_eq)
  qed
  show ?thesis using lo hi by (auto simp: ilog2_def pq Let_def)
qed

lemma powi_less_iff: "(2 :: rat) powi a < 2 powi b \<longleftrightarrow> a < b"
proof
  assume "a < b"
  then show "(2 :: rat) powi a < 2 powi b" by (rule power_int_strict_increasing) simp
next
  assume l: "(2 :: rat) powi a < 2 powi b"
  show "a < b"
  proof (rule ccontr)
    assume "\<not> a < b"
    then have "(2 :: rat) powi b \<le> 2 powi a" by (intro power_int_increasing) simp_all
    then show False using l by simp
  qed
qed

lemma ilog2_unique: "2 powi e \<le> x \<Longrightarrow> x < 2 powi (e + 1) \<Longrightarrow> ilog2 x = e"
proof -
  assume a: "2 powi e \<le> x" "x < 2 powi (e + 1)"
  then have "0 < x" using zero_less_power_int [of "2 :: rat" e] by linarith
  note b = ilog2_bounds [OF this]
  have "(2 :: rat) powi (ilog2 x) < 2 powi (e + 1)" using a b by linarith
  moreover have "(2 :: rat) powi e < 2 powi (ilog2 x + 1)" using a b by linarith
  ultimately show ?thesis by (simp add: powi_less_iff)
qed

lemma ilog2_mono: "0 < x \<Longrightarrow> x \<le> y \<Longrightarrow> ilog2 x \<le> ilog2 y"
proof -
  assume "0 < x" "x \<le> y"
  then have "(2 :: rat) powi (ilog2 x) < 2 powi (ilog2 y + 1)"
    using ilog2_bounds [of x] ilog2_bounds [of y] by linarith
  then show ?thesis by (simp add: powi_less_iff)
qed

section \<open>Rounding to binary64\<close>

text \<open>The exponent of the last place of \<open>x\<close>: 53 bits of significand, at least \<open>-1074\<close>.\<close>

definition ulp_exp :: "rat \<Rightarrow> int" where
  "ulp_exp x = max (- 1074) (ilog2 \<bar>x\<bar> - 52)"

definition fl :: "rat \<Rightarrow> pyfloat" where
  "fl x = (if x = 0 then 0
     else (let u = 2 powi (ulp_exp x) in of_int (rne (x / u)) * u))"

definition is_float :: "rat \<Rightarrow> bool" where
  "is_float x \<longleftrightarrow> fl x = x"

lemma fl_0 [simp]: "fl 0 = 0"
  by (simp add: fl_def)

lemma ulp_exp_minus [simp]: "ulp_exp (- x) = ulp_exp x"
  by (simp add: ulp_exp_def)

lemma fl_minus [simp]: "fl (- x) = - fl x"
  by (simp add: fl_def Let_def rne_minus)

lemma powi_pos [simp]: "(0 :: rat) < 2 powi k"
  by (rule zero_less_power_int) simp

lemma powi_53: "(2 :: rat) powi (k + 53) = of_int (2 ^ 53) * 2 powi k"
  by (simp add: power_int_add)

lemma powi_52: "(2 :: rat) powi (k + 52) = of_int (2 ^ 52) * 2 powi k"
  by (simp add: power_int_add)

text \<open>The scaled significand lies below \<open>2^53\<close>, and from \<open>2^52\<close> on for normal numbers.\<close>

lemma scaled_less: "0 < x \<Longrightarrow> x / 2 powi (ulp_exp x) < of_int (2 ^ 53)"
proof -
  assume x: "0 < x"
  have "ilog2 x + 1 \<le> ulp_exp x + 53" using x by (simp add: ulp_exp_def)
  then have "(2 :: rat) powi (ilog2 x + 1) \<le> 2 powi (ulp_exp x + 53)"
    by (intro power_int_increasing) simp_all
  then have "x < of_int (2 ^ 53) * 2 powi (ulp_exp x)"
    using ilog2_bounds [OF x] unfolding powi_53 by linarith
  then show ?thesis by (simp add: divide_less_eq)
qed

lemma scaled_ge: "0 < x \<Longrightarrow> - 1074 < ulp_exp x \<Longrightarrow> of_int (2 ^ 52) \<le> x / 2 powi (ulp_exp x)"
proof -
  assume x: "0 < x" and n: "- 1074 < ulp_exp x"
  then have "ilog2 x = ulp_exp x + 52" by (simp add: ulp_exp_def max_def split: if_splits)
  then have "of_int (2 ^ 52) * 2 powi (ulp_exp x) \<le> x"
    using ilog2_bounds [OF x] unfolding powi_52 [symmetric] by simp
  then show ?thesis by (simp add: le_divide_eq)
qed

lemma fl_pos_le: "0 < x \<Longrightarrow> fl x \<le> of_int (2 ^ 53) * 2 powi (ulp_exp x)"
proof -
  assume x: "0 < x"
  have "rne (x / 2 powi (ulp_exp x)) \<le> rne (of_int (2 ^ 53))"
    using scaled_less [OF x] by (intro rne_mono) simp
  then have "rne (x / 2 powi (ulp_exp x)) \<le> 2 ^ 53" unfolding rne_of_int .
  then have "(of_int (rne (x / 2 powi (ulp_exp x))) :: rat) \<le> of_int (2 ^ 53)"
    by (simp only: of_int_le_iff)
  then show ?thesis using x by (simp add: fl_def Let_def mult_right_mono del: of_int_power)
qed

lemma fl_pos_ge: "0 < x \<Longrightarrow> - 1074 < ulp_exp x \<Longrightarrow> of_int (2 ^ 52) * 2 powi (ulp_exp x) \<le> fl x"
proof -
  assume x: "0 < x" and n: "- 1074 < ulp_exp x"
  have "rne (of_int (2 ^ 52)) \<le> rne (x / 2 powi (ulp_exp x))"
    using scaled_ge [OF x n] by (intro rne_mono) simp
  then have "2 ^ 52 \<le> rne (x / 2 powi (ulp_exp x))" unfolding rne_of_int .
  then have "(of_int (2 ^ 52) :: rat) \<le> of_int (rne (x / 2 powi (ulp_exp x)))"
    by (simp only: of_int_le_iff)
  then show ?thesis using x by (simp add: fl_def Let_def mult_right_mono del: of_int_power)
qed

lemma fl_nonneg: "0 \<le> x \<Longrightarrow> 0 \<le> fl x"
proof -
  assume x: "0 \<le> x"
  have "rne 0 \<le> rne (x / 2 powi (ulp_exp x))" using x by (intro rne_mono) simp
  then show ?thesis by (simp add: fl_def Let_def)
qed

lemma fl_mono_pos: "0 < x \<Longrightarrow> x \<le> y \<Longrightarrow> fl x \<le> fl y"
proof -
  assume x: "0 < x" and xy: "x \<le> y"
  then have y: "0 < y" by simp
  have "ulp_exp x \<le> ulp_exp y" using ilog2_mono [OF x xy] x y by (simp add: ulp_exp_def)
  then consider "ulp_exp x = ulp_exp y" | "ulp_exp x < ulp_exp y" by linarith
  then show ?thesis
  proof cases
    case 1
    have "rne (x / 2 powi (ulp_exp y)) \<le> rne (y / 2 powi (ulp_exp y))"
      using xy by (intro rne_mono divide_right_mono) simp_all
    then show ?thesis using x y by (simp add: fl_def Let_def 1)
  next
    case 2
    then have n: "- 1074 < ulp_exp y" by (simp add: ulp_exp_def)
    have "fl x \<le> 2 powi (ulp_exp x + 53)" using fl_pos_le [OF x] by (simp only: powi_53)
    also have "\<dots> \<le> 2 powi (ulp_exp y + 52)"
      using 2 by (intro power_int_increasing) simp_all
    also have "\<dots> \<le> fl y" using fl_pos_ge [OF y n] by (simp only: powi_52)
    finally show ?thesis .
  qed
qed

lemma fl_mono: "x \<le> y \<Longrightarrow> fl x \<le> fl y"
proof -
  assume xy: "x \<le> y"
  consider "0 < x" | "x \<le> 0" "0 \<le> y" | "y < 0" by linarith
  then show ?thesis
  proof cases
    case 1
    then show ?thesis using xy by (rule fl_mono_pos)
  next
    case 2
    then have "fl x \<le> 0" using fl_nonneg [of "- x"] by simp
    then show ?thesis using fl_nonneg [OF 2(2)] by linarith
  next
    case 3
    then have "fl (- y) \<le> fl (- x)" using xy by (intro fl_mono_pos) simp_all
    then show ?thesis by simp
  qed
qed

text \<open>Every number with a 53-bit significand and an exponent in range is a float.\<close>

lemma fl_scaled: "\<bar>n\<bar> < 2 ^ 53 \<Longrightarrow> - 1074 \<le> k \<Longrightarrow> fl (of_int n * 2 powi k) = of_int n * 2 powi k"
proof (cases "n = 0")
  case False
  assume n: "\<bar>n\<bar> < 2 ^ 53" and k: "- 1074 \<le> k"
  let ?x = "of_int n * (2 :: rat) powi k"
  have nz: "?x \<noteq> 0" using False by simp
  have abs: "\<bar>?x\<bar> = of_int \<bar>n\<bar> * 2 powi k" by (simp add: abs_mult)
  have "(of_int \<bar>n\<bar> :: rat) < of_int (2 ^ 53)" using n by (simp only: of_int_less_iff)
  then have "\<bar>?x\<bar> < of_int (2 ^ 53) * 2 powi k" unfolding abs by (intro mult_strict_right_mono) simp_all
  then have "2 powi (ilog2 \<bar>?x\<bar>) < (2 :: rat) powi (k + 53)"
    using ilog2_bounds [of "\<bar>?x\<bar>"] nz unfolding powi_53 by fastforce
  then have u: "ulp_exp ?x \<le> k" using k by (simp add: ulp_exp_def powi_less_iff)
  define c where "c = ulp_exp ?x"
  define j where "j = (2 :: int) ^ nat (k - c)"
  have "(2 :: rat) powi k = 2 powi c * 2 powi (k - c)"
    by (subst power_int_add [symmetric]) simp_all
  also have "(2 :: rat) powi (k - c) = of_int j"
    using u by (simp add: power_int_def j_def c_def)
  finally have e: "?x = of_int (n * j) * 2 powi c" by simp
  then have "?x / 2 powi c = of_int (n * j)" by (simp only: nonzero_mult_div_cancel_right power_int_eq_0_iff) simp
  then have "fl ?x = of_int (n * j) * 2 powi c"
    using nz by (simp only: fl_def Let_def rne_of_int if_False flip: c_def)
  then show ?thesis by (rule trans [OF _ e [symmetric]])
qed simp

lemma fl_scaled_le: "\<bar>n\<bar> \<le> 2 ^ 53 \<Longrightarrow> - 1074 \<le> k \<Longrightarrow> fl (of_int n * 2 powi k) = of_int n * 2 powi k"
proof (cases "\<bar>n\<bar> = 2 ^ 53")
  case True
  assume k: "- 1074 \<le> k"
  have "fl (of_int (sgn n) * 2 powi (k + 53)) = of_int (sgn n) * 2 powi (k + 53)"
    using k by (intro fl_scaled) (simp_all add: abs_sgn_eq)
  moreover have "of_int (sgn n) * (2 :: rat) powi (k + 53) = of_int n * 2 powi k"
  proof -
    have "n = sgn n * 2 ^ 53" using True by (metis abs_mult_sgn mult.commute)
    then have "(of_int n :: rat) = of_int (sgn n) * of_int (2 ^ 53)" by (metis of_int_mult)
    then show ?thesis by (simp only: powi_53 mult.assoc)
  qed
  ultimately show ?thesis by simp
qed (use fl_scaled in auto)

lemma fl_of_int: "\<bar>n\<bar> \<le> 2 ^ 53 \<Longrightarrow> fl (of_int n) = of_int n"
  using fl_scaled_le [of n 0] by simp

lemma fl_1 [simp]: "fl 1 = 1"
  using fl_of_int [of 1] by simp

lemma fl_as_scaled: "\<exists>n k. fl x = of_int n * 2 powi k \<and> \<bar>n\<bar> \<le> 2 ^ 53 \<and> - 1074 \<le> k"
proof -
  have pos: "\<exists>n k. fl y = of_int n * 2 powi k \<and> \<bar>n\<bar> \<le> 2 ^ 53 \<and> - 1074 \<le> k" if y: "0 < y" for y
  proof (intro exI conjI)
    let ?n = "rne (y / 2 powi (ulp_exp y))"
    show "fl y = of_int ?n * 2 powi (ulp_exp y)" using y by (simp add: fl_def Let_def)
    have "rne 0 \<le> ?n" using y by (intro rne_mono) simp
    moreover have "?n \<le> rne (of_int (2 ^ 53))" using scaled_less [OF y] by (intro rne_mono) simp
    ultimately show "\<bar>?n\<bar> \<le> 2 ^ 53" unfolding rne_of_int rne_0 by linarith
    show "- 1074 \<le> ulp_exp y" by (simp add: ulp_exp_def)
  qed
  consider "0 < x" | "x = 0" | "x < 0" by linarith
  then show ?thesis
  proof cases
    case 1
    then show ?thesis by (rule pos)
  next
    case 2
    then show ?thesis by (intro exI [of _ 0]) simp
  next
    case 3
    then obtain n k where nk: "fl (- x) = of_int n * 2 powi k" "\<bar>n\<bar> \<le> 2 ^ 53" "- 1074 \<le> k"
      using pos [of "- x"] by auto
    then have "fl x = of_int (- n) * 2 powi k" by simp
    then show ?thesis using nk by (intro exI [of _ "- n"] exI [of _ k]) simp
  qed
qed

lemma fl_idem [simp]: "fl (fl x) = fl x"
  using fl_as_scaled [of x] fl_scaled_le by metis

lemma is_float_fl [simp, intro]: "is_float (fl x)"
  by (simp add: is_float_def)

lemma is_floatD: "is_float x \<Longrightarrow> fl x = x"
  by (simp add: is_float_def)

lemma is_float_0 [simp, intro]: "is_float 0" and is_float_1 [simp, intro]: "is_float 1"
  by (simp_all add: is_float_def)

section \<open>Python's operations\<close>

definition fadd :: "pyfloat \<Rightarrow> pyfloat \<Rightarrow> pyfloat" where
  "fadd x y = fl (x + y)"

definition fsub :: "pyfloat \<Rightarrow> pyfloat \<Rightarrow> pyfloat" where
  "fsub x y = fl (x - y)"

definition fmul :: "pyfloat \<Rightarrow> pyfloat \<Rightarrow> pyfloat" where
  "fmul x y = fl (x * y)"

text \<open>The code only divides by values it has made positive, so division by zero never occurs.\<close>

definition fdiv :: "pyfloat \<Rightarrow> pyfloat \<Rightarrow> pyfloat" where
  "fdiv x y = fl (x / y)"

definition round_digits :: "nat \<Rightarrow> pyfloat \<Rightarrow> pyfloat" where
  "round_digits n x = fl (of_int (rne (x * 10 ^ n)) / 10 ^ n)"

lemmas float_ops = fadd_def fsub_def fmul_def fdiv_def

lemma is_float_ops [simp, intro]:
  "is_float (fadd x y)" "is_float (fsub x y)" "is_float (fmul x y)" "is_float (fdiv x y)"
  "is_float (round_digits n x)"
  by (simp_all add: float_ops round_digits_def)

lemma round_digits_mono: "x \<le> y \<Longrightarrow> round_digits n x \<le> round_digits n y"
  by (auto simp: round_digits_def intro!: fl_mono divide_right_mono rne_mono mult_right_mono)

lemma round_digits_0 [simp]: "round_digits n 0 = 0"
  by (simp add: round_digits_def)

lemma round_digits_1 [simp]: "round_digits n 1 = 1"
proof -
  have "rne (10 ^ n) = 10 ^ n" using rne_of_int [of "10 ^ n"] by simp
  then show ?thesis by (simp add: round_digits_def)
qed

section \<open>The interface of rounding\<close>

locale rounding =
  fixes rnd :: "rat \<Rightarrow> rat"
  assumes mono: "x \<le> y \<Longrightarrow> rnd x \<le> rnd y"
    and zero: "rnd 0 = 0"
    and one: "rnd 1 = 1"
    and idem: "rnd (rnd x) = rnd x"
begin

lemma nonneg: "0 \<le> x \<Longrightarrow> 0 \<le> rnd x"
  using mono [of 0 x] by (simp add: zero)

lemma le_one: "x \<le> 1 \<Longrightarrow> rnd x \<le> 1"
  using mono [of x 1] by (simp add: one)

lemma fixed_le: "rnd y = y \<Longrightarrow> x \<le> y \<Longrightarrow> rnd x \<le> y"
  using mono [of x y] by simp

lemma fixed_ge: "rnd x = x \<Longrightarrow> x \<le> y \<Longrightarrow> x \<le> rnd y"
  using mono [of x y] by simp

text \<open>A min-max normalised value stays in \<open>[0, 1]\<close> although every operation rounds.\<close>

lemma min_max_unit:
  assumes "lo \<le> x" "x \<le> hi" "0 < rnd (hi - lo)"
  shows "0 \<le> rnd (rnd (x - lo) / rnd (hi - lo))" "rnd (rnd (x - lo) / rnd (hi - lo)) \<le> 1"
proof -
  have "rnd (x - lo) \<le> rnd (hi - lo)" using assms(2) by (intro mono) simp
  then show "rnd (rnd (x - lo) / rnd (hi - lo)) \<le> 1"
    using assms(3) by (intro le_one) (simp add: divide_le_eq)
  show "0 \<le> rnd (rnd (x - lo) / rnd (hi - lo))"
    using assms nonneg [of "x - lo"] by (intro nonneg) simp
qed

lemma min_max_mono:
  assumes "x \<le> y" "0 < rnd (hi - lo)"
  shows "rnd (rnd (x - lo) / rnd (hi - lo)) \<le> rnd (rnd (y - lo) / rnd (hi - lo))"
  using assms by (intro mono divide_right_mono) simp_all

text \<open>A weight times a metric in the unit interval is at most the weight.\<close>

lemma weighted_le: "rnd w = w \<Longrightarrow> 0 \<le> w \<Longrightarrow> m \<le> 1 \<Longrightarrow> rnd (w * m) \<le> w"
  by (intro fixed_le) (auto simp: mult_left_le)

lemma weighted_nonneg: "0 \<le> w \<Longrightarrow> 0 \<le> m \<Longrightarrow> 0 \<le> rnd (w * m)"
  by (intro nonneg) simp

lemma add_mono': "a \<le> b \<Longrightarrow> c \<le> d \<Longrightarrow> rnd (a + c) \<le> rnd (b + d)"
  by (intro mono add_mono)

lemmas rounding_specs = mono zero one idem nonneg le_one weighted_le weighted_nonneg

end

interpretation fl: rounding fl
  by unfold_locales (simp_all add: fl_mono)


end
