(* ===== verification/Errors.thy ===== *)
theory Errors
  imports Bytes PyFloat
begin

text \<open>
  The exceptions of the platform (\<open>common/errors.py\<close>) and the JSON values that travel in
  their details, in the encrypted envelopes and in the audit records.

  An exception is a record of its class, message, error code and details; each class's
  constructor is a definition of the same name. Exceptions of Python and of the libraries
  the code calls (\<open>KeyError\<close>, \<open>ValidationError\<close>, \<open>InvalidSignature\<close>, \<open>RpcError\<close>, ...)
  are classes without code or details. \<open>is_orchestration\<close> is the subclass test behind
  \<open>except OrchestrationError\<close>.
\<close>

section \<open>JSON values\<close>

datatype json =
    JNull
  | JBool bool
  | JInt int
  | JFloat pyfloat
  | JStr str
  | JArr "json list"
  | JObj "(str \<times> json) list"

type_synonym jobj = "(str, json) dict"

text \<open>\<open>json.dumps(..., sort_keys=True)\<close> writes the members of an object in this order.\<close>

definition sort_keys :: "jobj \<Rightarrow> jobj" where
  "sort_keys d = sort_key fst d"

lemma map_of_sort_key: "is_dict d \<Longrightarrow> map_of (sort_key fst d) = map_of d"
  by (rule map_of_inject_set [THEN iffD2]) (simp_all add: distinct_map)

lemma map_of_sort_keys [simp]: "is_dict d \<Longrightarrow> map_of (sort_keys d) = map_of d"
  by (simp add: sort_keys_def map_of_sort_key)

definition json_of_opt :: "str option \<Rightarrow> json" where
  "json_of_opt x = (case x of None \<Rightarrow> JNull | Some s \<Rightarrow> JStr s)"

fun opt_of_json :: "json \<Rightarrow> str option" where
  "opt_of_json (JStr s) = Some s"
| "opt_of_json _ = None"

lemma opt_of_json_of_opt [simp]: "opt_of_json (json_of_opt x) = x"
  by (cases x) (simp_all add: json_of_opt_def)

text \<open>Truth value of a JSON value, as Python's \<open>if x\<close>.\<close>

fun json_truthy :: "json \<Rightarrow> bool" where
  "json_truthy JNull = False"
| "json_truthy (JBool b) = b"
| "json_truthy (JInt i) = (i \<noteq> 0)"
| "json_truthy (JFloat x) = (x \<noteq> 0)"
| "json_truthy (JStr s) = (s \<noteq> [])"
| "json_truthy (JArr js) = (js \<noteq> [])"
| "json_truthy (JObj d) = (d \<noteq> [])"

definition get_or :: "jobj \<Rightarrow> str \<Rightarrow> json \<Rightarrow> json" where
  "get_or d k j = (case dget d k of None \<Rightarrow> j | Some v \<Rightarrow> v)"

section \<open>Exceptions\<close>

datatype exc_class =
    OrchestrationErrorClass | SecurityErrorClass | ConstraintViolationErrorClass
  | DecisionEngineUnavailableErrorClass | NodeUnavailableErrorClass
  | FallbackExhaustionErrorClass | StaleTelemetryErrorClass
  | IdempotencyConflictErrorClass | ArtifactVerificationErrorClass
  | KeyErrorClass | ValueErrorClass | NameErrorClass | NotImplementedErrorClass
  | JSONDecodeErrorClass | ValidationErrorClass | InvalidSignatureClass | InvalidTagClass
  | RpcErrorClass | TypeErrorClass | AttributeErrorClass | OSErrorClass | ZeroDivisionErrorClass

record exc =
  exc_class :: exc_class
  message :: str
  error_code :: str
  details :: jobj

definition OrchestrationError :: "str \<Rightarrow> str \<Rightarrow> jobj \<Rightarrow> exc" where
  "OrchestrationError m code d =
     \<lparr>exc_class = OrchestrationErrorClass, message = m, error_code = code, details = d\<rparr>"

definition SecurityError :: "str \<Rightarrow> jobj \<Rightarrow> exc" where
  "SecurityError m d =
     (OrchestrationError m ''SECURITY_ERROR'' d)\<lparr>exc_class := SecurityErrorClass\<rparr>"

definition ConstraintViolationError :: "str \<Rightarrow> jobj \<Rightarrow> exc" where
  "ConstraintViolationError m d =
     (OrchestrationError m ''CONSTRAINT_VIOLATION'' d)\<lparr>exc_class := ConstraintViolationErrorClass\<rparr>"

definition DecisionEngineUnavailableError :: "str \<Rightarrow> jobj \<Rightarrow> exc" where
  "DecisionEngineUnavailableError m d =
     (OrchestrationError m ''DECISION_ENGINE_UNAVAILABLE'' d)
       \<lparr>exc_class := DecisionEngineUnavailableErrorClass\<rparr>"

definition NodeUnavailableError :: "str \<Rightarrow> str \<Rightarrow> jobj \<Rightarrow> exc" where
  "NodeUnavailableError m node_id d =
     (OrchestrationError m ''NODE_UNAVAILABLE'' (dset ''node_id'' (JStr node_id) d))
       \<lparr>exc_class := NodeUnavailableErrorClass\<rparr>"

definition FallbackExhaustionError :: "str \<Rightarrow> str list \<Rightarrow> jobj \<Rightarrow> exc" where
  "FallbackExhaustionError m chain d =
     (OrchestrationError m ''FALLBACK_EXHAUSTED'' (dset ''fallback_chain'' (JArr (map JStr chain)) d))
       \<lparr>exc_class := FallbackExhaustionErrorClass\<rparr>"

definition StaleTelemetryError :: "str \<Rightarrow> str \<Rightarrow> pyfloat \<Rightarrow> exc" where
  "StaleTelemetryError m node_id age_ms =
     (OrchestrationError m ''STALE_TELEMETRY'' [(''node_id'', JStr node_id), (''age_ms'', JFloat age_ms)])
       \<lparr>exc_class := StaleTelemetryErrorClass\<rparr>"

definition IdempotencyConflictError :: "str \<Rightarrow> str \<Rightarrow> exc" where
  "IdempotencyConflictError m key =
     (OrchestrationError m ''IDEMPOTENCY_CONFLICT'' [(''idempotency_key'', JStr key)])
       \<lparr>exc_class := IdempotencyConflictErrorClass\<rparr>"

definition ArtifactVerificationError :: "str \<Rightarrow> str \<Rightarrow> str option \<Rightarrow> jobj \<Rightarrow> exc" where
  "ArtifactVerificationError m artifact_id digest d =
     (let d1 = dset ''artifact_id'' (JStr artifact_id) d;
          d2 = (if truthy digest then dset ''digest'' (json_of_opt digest) d1 else d1)
      in (OrchestrationError m ''ARTIFACT_VERIFICATION_FAILED'' d2)
           \<lparr>exc_class := ArtifactVerificationErrorClass\<rparr>)"

text \<open>An exception of Python or of a library.\<close>

definition py_exc :: "exc_class \<Rightarrow> str \<Rightarrow> exc" where
  "py_exc c m = \<lparr>exc_class = c, message = m, error_code = [], details = []\<rparr>"

text \<open>An attribute of the dictionary type (\<open>get\<close>, \<open>items\<close>), which no other JSON value has.\<close>

definition mapping_of :: "str \<Rightarrow> json \<Rightarrow> exc + jobj" where
  "mapping_of attribute j = (case j of JObj d \<Rightarrow> Inr d | _ \<Rightarrow> Inl (py_exc AttributeErrorClass attribute))"

definition is_orchestration :: "exc_class \<Rightarrow> bool" where
  "is_orchestration c \<longleftrightarrow> c \<in> {OrchestrationErrorClass, SecurityErrorClass,
     ConstraintViolationErrorClass, DecisionEngineUnavailableErrorClass,
     NodeUnavailableErrorClass, FallbackExhaustionErrorClass, StaleTelemetryErrorClass,
     IdempotencyConflictErrorClass, ArtifactVerificationErrorClass}"

lemmas exc_defs = OrchestrationError_def SecurityError_def ConstraintViolationError_def
  DecisionEngineUnavailableError_def NodeUnavailableError_def FallbackExhaustionError_def
  StaleTelemetryError_def IdempotencyConflictError_def ArtifactVerificationError_def py_exc_def

lemma exc_class_simps [simp, py_simps]:
  "exc_class (OrchestrationError m c d) = OrchestrationErrorClass"
  "exc_class (SecurityError m d) = SecurityErrorClass"
  "exc_class (ConstraintViolationError m d) = ConstraintViolationErrorClass"
  "exc_class (DecisionEngineUnavailableError m d) = DecisionEngineUnavailableErrorClass"
  "exc_class (NodeUnavailableError m n d) = NodeUnavailableErrorClass"
  "exc_class (FallbackExhaustionError m ch d) = FallbackExhaustionErrorClass"
  "exc_class (StaleTelemetryError m n age) = StaleTelemetryErrorClass"
  "exc_class (IdempotencyConflictError m k) = IdempotencyConflictErrorClass"
  "exc_class (ArtifactVerificationError m a g d) = ArtifactVerificationErrorClass"
  "exc_class (py_exc cl m) = cl"
  by (simp_all add: exc_defs Let_def)

lemma message_simps [simp, py_simps]:
  "message (NodeUnavailableError m n d) = m"
  "message (FallbackExhaustionError m ch d) = m"
  "message (ArtifactVerificationError m a g d) = m"
  "message (SecurityError m d) = m"
  "message (py_exc cl m) = m"
  by (simp_all add: exc_defs Let_def)

text \<open>Every platform exception carries its class's error code; no two classes share one.\<close>

fun code_of_class :: "exc_class \<Rightarrow> str" where
  "code_of_class OrchestrationErrorClass = ''INTERNAL_ERROR''"
| "code_of_class SecurityErrorClass = ''SECURITY_ERROR''"
| "code_of_class ConstraintViolationErrorClass = ''CONSTRAINT_VIOLATION''"
| "code_of_class DecisionEngineUnavailableErrorClass = ''DECISION_ENGINE_UNAVAILABLE''"
| "code_of_class NodeUnavailableErrorClass = ''NODE_UNAVAILABLE''"
| "code_of_class FallbackExhaustionErrorClass = ''FALLBACK_EXHAUSTED''"
| "code_of_class StaleTelemetryErrorClass = ''STALE_TELEMETRY''"
| "code_of_class IdempotencyConflictErrorClass = ''IDEMPOTENCY_CONFLICT''"
| "code_of_class ArtifactVerificationErrorClass = ''ARTIFACT_VERIFICATION_FAILED''"
| "code_of_class _ = []"

end
