(* ===== verification/Json.thy ===== *)
theory Json
  imports Errors
begin

text \<open>
  Python's \<open>json\<close> module as the code uses it: \<open>json.dumps\<close> with its default separators and
  with \<open>sort_keys=True, separators=(",", ":")\<close> (the canonical form that is signed, hashed and
  encrypted), \<open>json.loads\<close>, and the encoding of the ASCII text to bytes.

  The decimal text of a float (\<open>float.__repr__\<close> and \<open>float(text)\<close>) is not written out: it
  is the argument \<open>ft\<close>, and \<open>float_text_ok\<close> is the documented law \<open>float(repr(x)) == x\<close>.
  \<open>loads_dumps\<close> is the round trip; canonical texts are therefore equal exactly for equal
  values (\<open>canonical_inj\<close>), which signatures and hashes over them rest on.
\<close>

record float_text =
  frepr :: "pyfloat \<Rightarrow> str"
  fparse :: "str \<Rightarrow> pyfloat option"

section \<open>Writing\<close>

definition esc_char :: "char \<Rightarrow> str" where
  "esc_char c =
     (let n = of_char c :: nat in
      if n = 34 then [CHR 0x5C, CHR 0x22]
      else if n = 92 then [CHR 0x5C, CHR 0x5C]
      else if n = 10 then [CHR 0x5C, CHR ''n'']
      else if n = 13 then [CHR 0x5C, CHR ''r'']
      else if n = 9 then [CHR 0x5C, CHR ''t'']
      else if n = 12 then [CHR 0x5C, CHR ''f'']
      else if n = 8 then [CHR 0x5C, CHR ''b'']
      else if 32 \<le> n \<and> n \<le> 126 then [c]
      else [CHR 0x5C, CHR ''u'', CHR ''0'', CHR ''0'', hex_digit (n div 16), hex_digit n])"

definition quote :: char where
  "quote = CHR 0x22"

definition json_str :: "str \<Rightarrow> str" where
  "json_str s = quote # concat (map esc_char s) @ [quote]"

definition join :: "str \<Rightarrow> str list \<Rightarrow> str" where
  "join sep xs = (case xs of [] \<Rightarrow> [] | x # rest \<Rightarrow> x @ concat (map (\<lambda>y. sep @ y) rest))"

text \<open>\<open>dumps ft sep colon j\<close>: the two separators are the elements of \<open>separators\<close>.\<close>

fun dumps :: "float_text \<Rightarrow> str \<Rightarrow> str \<Rightarrow> json \<Rightarrow> str" where
  "dumps ft sep colon JNull = ''null''"
| "dumps ft sep colon (JBool b) = (if b then ''true'' else ''false'')"
| "dumps ft sep colon (JInt i) = show_int i"
| "dumps ft sep colon (JFloat x) = frepr ft x"
| "dumps ft sep colon (JStr s) = json_str s"
| "dumps ft sep colon (JArr js) = ''['' @ join sep (map (dumps ft sep colon) js) @ '']''"
| "dumps ft sep colon (JObj kvs) =
     ''{'' @ join sep (map (\<lambda>kv. json_str (fst kv) @ colon @ dumps ft sep colon (snd kv)) kvs) @ ''}''"

text \<open>\<open>sort_keys=True\<close> sorts the members of every object.\<close>

fun sorted_json :: "json \<Rightarrow> json" where
  "sorted_json (JArr js) = JArr (map sorted_json js)"
| "sorted_json (JObj kvs) = JObj (sort_keys (map (\<lambda>kv. (fst kv, sorted_json (snd kv))) kvs))"
| "sorted_json j = j"

definition canonical :: "float_text \<Rightarrow> json \<Rightarrow> str" where
  "canonical ft j = dumps ft '','' '':'' (sorted_json j)"

definition default_dumps :: "float_text \<Rightarrow> json \<Rightarrow> str" where
  "default_dumps ft j = dumps ft '', '' '': '' j"

section \<open>Reading\<close>

definition is_ws :: "char \<Rightarrow> bool" where
  "is_ws c \<longleftrightarrow> (of_char c :: nat) \<in> {32, 9, 10, 13}"

definition skip_ws :: "str \<Rightarrow> str" where
  "skip_ws s = dropWhile is_ws s"

definition is_digit :: "char \<Rightarrow> bool" where
  "is_digit c \<longleftrightarrow> 48 \<le> (of_char c :: nat) \<and> (of_char c :: nat) \<le> 57"

definition is_num_char :: "char \<Rightarrow> bool" where
  "is_num_char c \<longleftrightarrow> is_digit c \<or> c \<in> {CHR ''-'', CHR ''+'', CHR ''.'', CHR ''e'', CHR ''E''}"

definition unescape :: "char \<Rightarrow> char option" where
  "unescape c =
     (let n = of_char c :: nat in
      if n = 34 \<or> n = 92 \<or> n = 47 then Some c
      else if c = CHR ''n'' then Some (CHR 0x0A)
      else if c = CHR ''r'' then Some (CHR 0x0D)
      else if c = CHR ''t'' then Some (CHR 0x09)
      else if c = CHR ''f'' then Some (CHR 0x0C)
      else if c = CHR ''b'' then Some (CHR 0x08)
      else None)"

text \<open>Four hexadecimal digits; a code point above 255 is outside the model's strings.\<close>

definition code_point :: "char \<Rightarrow> char \<Rightarrow> char \<Rightarrow> char \<Rightarrow> char option" where
  "code_point a b c d =
     (case (hex_value a, hex_value b, hex_value c, hex_value d) of
        (Some 0, Some 0, Some h, Some l) \<Rightarrow> Some (char_of (16 * h + l))
      | _ \<Rightarrow> None)"

definition cons_fst :: "char \<Rightarrow> (str \<times> str) option \<Rightarrow> (str \<times> str) option" where
  "cons_fst c r = map_option (\<lambda>(s, rest). (c # s, rest)) r"

fun parse_chars :: "str \<Rightarrow> (str \<times> str) option" where
  "parse_chars [] = None"
| "parse_chars (c # cs) =
     (if c = quote then Some ([], cs)
      else if c = CHR 0x5C then
        (case cs of
           [] \<Rightarrow> None
         | e # cs1 \<Rightarrow>
             if e = CHR ''u'' then
               (case cs1 of
                  x1 # x2 # x3 # x4 # cs2 \<Rightarrow>
                    (case code_point x1 x2 x3 x4 of
                       None \<Rightarrow> None | Some d \<Rightarrow> cons_fst d (parse_chars cs2))
                | _ \<Rightarrow> None)
             else (case unescape e of None \<Rightarrow> None | Some d \<Rightarrow> cons_fst d (parse_chars cs1)))
      else if (of_char c :: nat) < 32 then None
      else cons_fst c (parse_chars cs))"

definition read_int :: "str \<Rightarrow> int option" where
  "read_int s =
     (let ds = (case s of c # cs \<Rightarrow> if c = CHR ''-'' then cs else s | [] \<Rightarrow> [])
      in if ds \<noteq> [] \<and> list_all is_digit ds
         then (let n = undigits 10 (map (\<lambda>c. of_char c - 48) ds) 0
               in Some (if s \<noteq> ds then - n else n))
         else None)"

definition read_number :: "float_text \<Rightarrow> str \<Rightarrow> json option" where
  "read_number ft s =
     (case read_int s of Some i \<Rightarrow> Some (JInt i) | None \<Rightarrow> map_option JFloat (fparse ft s))"

text \<open>
  The recursive descent, with fuel for the nesting and the number of tokens. A repeated key of
  an object keeps its last value, as in a Python dictionary.
\<close>

fun parse_value :: "float_text \<Rightarrow> nat \<Rightarrow> str \<Rightarrow> (json \<times> str) option"
  and parse_elements :: "float_text \<Rightarrow> nat \<Rightarrow> str \<Rightarrow> (json list \<times> str) option"
  and parse_members :: "float_text \<Rightarrow> nat \<Rightarrow> str \<Rightarrow> ((str \<times> json) list \<times> str) option" where
  "parse_value ft 0 s = None"
| "parse_value ft (Suc k) s =
     (if startswith s ''null'' then Some (JNull, drop 4 s)
      else if startswith s ''true'' then Some (JBool True, drop 4 s)
      else if startswith s ''false'' then Some (JBool False, drop 5 s)
      else (case s of
          [] \<Rightarrow> None
        | c # cs \<Rightarrow>
            if c = quote then map_option (\<lambda>(x, rest). (JStr x, rest)) (parse_chars cs)
            else if c = CHR ''['' then
              (if startswith (skip_ws cs) '']'' then Some (JArr [], drop 1 (skip_ws cs))
               else map_option (\<lambda>(xs, rest). (JArr xs, rest)) (parse_elements ft k (skip_ws cs)))
            else if c = CHR ''{'' then
              (if startswith (skip_ws cs) ''}'' then Some (JObj [], drop 1 (skip_ws cs))
               else map_option (\<lambda>(xs, rest). (JObj (dict_of fst snd xs), rest))
                      (parse_members ft k (skip_ws cs)))
            else map_option (\<lambda>j. (j, dropWhile is_num_char s)) (read_number ft (takeWhile is_num_char s))))"
| "parse_elements ft 0 s = None"
| "parse_elements ft (Suc k) s =
     (case parse_value ft k s of
        None \<Rightarrow> None
      | Some (j, rest) \<Rightarrow>
          (let r = skip_ws rest in
           if startswith r '','' then
             map_option (\<lambda>(js, r'). (j # js, r')) (parse_elements ft k (skip_ws (drop 1 r)))
           else if startswith r '']'' then Some ([j], drop 1 r)
           else None))"
| "parse_members ft 0 s = None"
| "parse_members ft (Suc k) s =
     (case s of
        [] \<Rightarrow> None
      | c # cs \<Rightarrow>
          if c \<noteq> quote then None
          else (case parse_chars cs of
              None \<Rightarrow> None
            | Some (key, rest) \<Rightarrow>
                (let r = skip_ws rest in
                 if \<not> startswith r '':'' then None
                 else (case parse_value ft k (skip_ws (drop 1 r)) of
                     None \<Rightarrow> None
                   | Some (j, rest1) \<Rightarrow>
                       (let r1 = skip_ws rest1 in
                        if startswith r1 '','' then
                          map_option (\<lambda>(kvs, r'). ((key, j) # kvs, r')) (parse_members ft k (skip_ws (drop 1 r1)))
                        else if startswith r1 ''}'' then Some ([(key, j)], drop 1 r1)
                        else None)))))"

definition loads :: "float_text \<Rightarrow> str \<Rightarrow> json option" where
  "loads ft s =
     (case parse_value ft (length s + 1) (skip_ws s) of
        Some (j, rest) \<Rightarrow> if skip_ws rest = [] then Some j else None
      | None \<Rightarrow> None)"

section \<open>Text and bytes\<close>

definition encode :: "str \<Rightarrow> bytes" where
  "encode s = map (\<lambda>c. of_nat (of_char c)) s"

definition decode :: "bytes \<Rightarrow> str" where
  "decode bs = map (\<lambda>b. char_of (unat b)) bs"

lemma decode_encode [simp]: "decode (encode s) = s"
proof -
  have "char_of (unat (of_nat (of_char c) :: 8 word)) = c" for c
    by (simp add: unat_of_nat take_bit_eq_mod)
  then show ?thesis by (simp add: decode_def encode_def comp_def)
qed

lemma encode_inj [simp]: "encode s = encode t \<longleftrightarrow> s = t"
  by (metis decode_encode)

section \<open>The round trip\<close>

text \<open>
  The law of \<open>float.__repr__\<close>: the text is a number token with a point or an exponent, and
  \<open>float\<close> reads the same value back.
\<close>

definition float_text_ok :: "float_text \<Rightarrow> bool" where
  "float_text_ok ft \<longleftrightarrow> (\<forall>x. is_float x \<longrightarrow>
     frepr ft x \<noteq> [] \<and> list_all is_num_char (frepr ft x) \<and> read_int (frepr ft x) = None \<and>
     fparse ft (frepr ft x) = Some x)"

text \<open>What \<open>float\<close> reads is a float: the law for texts of other programs.\<close>

definition floats_read :: "float_text \<Rightarrow> bool" where
  "floats_read ft \<longleftrightarrow> (\<forall>s x. fparse ft s = Some x \<longrightarrow> is_float x)"

text \<open>A value \<open>json.loads\<close> can return: floats are floats, no object repeats a key.\<close>

fun json_ok :: "json \<Rightarrow> bool" where
  "json_ok (JFloat x) = is_float x"
| "json_ok (JArr js) = list_all json_ok js"
| "json_ok (JObj kvs) = (is_dict kvs \<and> list_all (\<lambda>kv. json_ok (snd kv)) kvs)"
| "json_ok j = True"

lemma code_point_byte: "code_point (CHR ''0'') (CHR ''0'') (hex_digit (of_char c div 16)) (hex_digit (of_char c)) = Some c"
proof -
  have "of_char c div 16 < (16 :: nat)" by (simp add: div_less_iff_less_mult)
  then have "16 * (of_char c div 16 mod 16) + of_char c mod 16 = (of_char c :: nat)" by simp
  moreover have "hex_value (CHR ''0'') = Some 0" by code_simp
  ultimately show ?thesis by (simp add: code_point_def hex_value_digit)
qed

lemma of_char_inj: "(of_char c :: nat) = of_char d \<Longrightarrow> c = d"
  by (metis char_of_char)

lemma parse_esc: "parse_chars (esc_char c @ r) = cons_fst c (parse_chars r)"
proof -
  let ?n = "of_char c :: nat"
  consider "?n \<in> {34, 92, 10, 13, 9, 12, 8}" | "?n \<notin> {34, 92, 10, 13, 9, 12, 8}" "32 \<le> ?n" "?n \<le> 126"
    | "?n \<notin> {34, 92, 10, 13, 9, 12, 8}" "\<not> (32 \<le> ?n \<and> ?n \<le> 126)"
    by blast
  then show ?thesis
  proof cases
    case 1
    then have "c \<in> {CHR 0x22, CHR 0x5C, CHR 0x0A, CHR 0x0D, CHR 0x09, CHR 0x0C, CHR 0x08}"
      using of_char_inj [of c "CHR 0x22"] of_char_inj [of c "CHR 0x5C"] of_char_inj [of c "CHR 0x0A"]
        of_char_inj [of c "CHR 0x0D"] of_char_inj [of c "CHR 0x09"] of_char_inj [of c "CHR 0x0C"]
        of_char_inj [of c "CHR 0x08"] by auto
    then show ?thesis by (auto simp: esc_char_def unescape_def quote_def)
  next
    case 2
    then have "c \<noteq> CHR 0x22" "c \<noteq> CHR 0x5C" by auto
    then show ?thesis using 2 by (simp add: esc_char_def quote_def)
  next
    case 3
    then have "esc_char c = [CHR 0x5C, CHR ''u'', CHR ''0'', CHR ''0'', hex_digit (?n div 16), hex_digit ?n]"
      by (auto simp: esc_char_def Let_def)
    then show ?thesis by (simp add: quote_def code_point_byte)
  qed
qed

lemma parse_json_str: "parse_chars (concat (map esc_char s) @ quote # rest) = Some (s, rest)"
  by (induction s) (simp_all add: parse_esc cons_fst_def)

lemma digit_char: "d < 10 \<Longrightarrow> is_digit (hex_digit d) \<and> of_char (hex_digit d) - 48 = d"
proof -
  assume "d < 10"
  then have "d \<in> set [0..<10]" by (simp only: set_upt atLeastLessThan_iff le0 simp_thms)
  moreover have "\<forall>k\<in>set [0..<10]. is_digit (hex_digit k) \<and> of_char (hex_digit k) - 48 = k" by code_simp
  ultimately show ?thesis by blast
qed

lemma digits_lt_10: "d \<in> set (digits 10 n) \<Longrightarrow> d < 10"
  using digits_less [of d 10 n] by simp

lemma digits_ne: "0 < n \<Longrightarrow> digits 10 n \<noteq> []"
  by (simp add: digits.simps [of 10 n])

text \<open>The decimal digits of a number that is not negative.\<close>

definition dec :: "int \<Rightarrow> nat list" where
  "dec n = (if n = 0 then [0] else digits 10 n)"

lemma dec_props: "0 \<le> n \<Longrightarrow> dec n \<noteq> [] \<and> (\<forall>d\<in>set (dec n). d < 10) \<and> undigits 10 (dec n) 0 = n"
  using digits_ne [of n] digits_lt_10 [of _ n] undigits_digits [of 10 n] by (auto simp: dec_def)

lemma show_int_dec: "show_int i = (if i < 0 then ''-'' else []) @ map hex_digit (dec \<bar>i\<bar>)"
  by (simp add: show_int_def dec_def)

lemma map_digit_back: "\<forall>d\<in>set ds. d < 10 \<Longrightarrow>
    map (\<lambda>c. of_char c - 48) (map hex_digit ds) = ds \<and> list_all is_digit (map hex_digit ds)"
  using digit_char by (induction ds) auto

lemma digit_not_minus: "is_digit c \<Longrightarrow> c \<noteq> CHR ''-''"
  by (auto simp: is_digit_def)

lemma read_show_int: "read_int (show_int i) = Some i"
proof -
  let ?ds = "dec \<bar>i\<bar>"
  note d = dec_props [of "\<bar>i\<bar>"]
  have m: "map (\<lambda>c. of_char c - 48) (map hex_digit ?ds) = ?ds" "list_all is_digit (map hex_digit ?ds)"
    using map_digit_back d by simp_all
  obtain x xs where x: "?ds = x # xs" using d by (cases ?ds) auto
  then have "hex_digit x \<noteq> CHR ''-''" using m(2) by (auto dest: digit_not_minus)
  then show ?thesis
    using m d x by (auto simp: read_int_def show_int_dec Let_def)
qed

lemma show_int_chars: "list_all is_num_char (show_int i)" "show_int i \<noteq> []"
  using map_digit_back [of "dec \<bar>i\<bar>"] dec_props [of "\<bar>i\<bar>"]
  by (auto simp: show_int_dec is_num_char_def list_all_iff)

definition stops :: "str \<Rightarrow> bool" where
  "stops rest \<longleftrightarrow> (case rest of [] \<Rightarrow> True | c # _ \<Rightarrow> \<not> is_num_char c)"

lemma takeWhile_num:
  "list_all is_num_char s \<Longrightarrow> stops rest \<Longrightarrow>
    takeWhile is_num_char (s @ rest) = s \<and> dropWhile is_num_char (s @ rest) = rest"
  by (induction s) (auto simp: stops_def split: list.splits)

text \<open>How a number token starts, and what the parser does with it.\<close>

lemma num_char_cases: "is_num_char c \<Longrightarrow>
    c \<notin> {quote, CHR ''['', CHR ''{'', CHR ''n'', CHR ''t'', CHR ''f'', CHR '']'', CHR ''}'', CHR '',''} \<and> \<not> is_ws c"
  by (auto simp: is_num_char_def is_digit_def quote_def is_ws_def)

lemma parse_number:
  assumes "list_all is_num_char s" "s \<noteq> []" "stops rest" "read_number ft s = Some j"
  shows "parse_value ft (Suc k) (s @ rest) = Some (j, rest)"
proof -
  obtain c cs where s: "s = c # cs" using assms(2) by (cases s) auto
  then have "is_num_char c" using assms(1) by simp
  from num_char_cases [OF this] show ?thesis
    using takeWhile_num [OF assms(1,3)] assms(4) by (simp add: s startswith_def)
qed

definition sep_ok :: "char \<Rightarrow> str \<Rightarrow> bool" where
  "sep_ok c sep \<longleftrightarrow> (case sep of [] \<Rightarrow> False | d # ws \<Rightarrow> d = c \<and> list_all is_ws ws)"

lemma sep_okE: "sep_ok c sep \<Longrightarrow> (\<And>ws. sep = c # ws \<Longrightarrow> list_all is_ws ws \<Longrightarrow> P) \<Longrightarrow> P"
  by (auto simp: sep_ok_def split: list.splits)

lemma skip_ws_append: "list_all is_ws ws \<Longrightarrow> skip_ws (ws @ s) = skip_ws s"
  by (induction ws) (simp_all add: skip_ws_def)

lemma skip_ws_head: "s = c # cs \<Longrightarrow> \<not> is_ws c \<Longrightarrow> skip_ws s = s"
  by (simp add: skip_ws_def)

text \<open>The first character of a value.\<close>

lemma dumps_head:
  assumes "json_ok j" "float_text_ok ft"
  shows "\<exists>c cs. dumps ft sep colon j = c # cs \<and> \<not> is_ws c \<and> c \<noteq> CHR '']'' \<and> c \<noteq> CHR ''}'' \<and> c \<noteq> CHR '',''"
proof -
  have num: ?thesis if "dumps ft sep colon j \<noteq> []" "list_all is_num_char (dumps ft sep colon j)"
    using that num_char_cases by (cases "dumps ft sep colon j") auto
  show ?thesis
  proof (cases j)
    case (JInt i)
    then show ?thesis using num show_int_chars [of i] by simp
  next
    case (JFloat x)
    then show ?thesis using num assms by (simp add: float_text_ok_def)
  qed (auto simp: json_str_def quote_def is_ws_def)
qed

lemma join_Cons: "join sep (x # y # zs) = x @ sep @ join sep (y # zs)"
  by (simp add: join_def)

lemma join_single: "join sep [x] = x"
  by (simp add: join_def)

lemma stops_sep: "sep_ok (CHR '','') sep \<Longrightarrow> stops (sep @ r)" "stops ('']'' @ r)" "stops (''}'' @ r)"
  by (auto simp: stops_def is_num_char_def is_digit_def elim!: sep_okE)

definition parses :: "float_text \<Rightarrow> str \<Rightarrow> str \<Rightarrow> json \<Rightarrow> bool" where
  "parses ft sep colon j \<longleftrightarrow> (\<forall>k rest. length (dumps ft sep colon j) \<le> k \<and> stops rest \<longrightarrow>
     parse_value ft k (dumps ft sep colon j @ rest) = Some (j, rest))"

lemma parsesD:
  "parses ft sep colon j \<Longrightarrow> length (dumps ft sep colon j) \<le> k \<Longrightarrow> stops rest \<Longrightarrow>
    parse_value ft k (dumps ft sep colon j @ rest) = Some (j, rest)"
  by (simp add: parses_def)

lemma parse_elements_join:
  assumes ok: "float_text_ok ft" "sep_ok (CHR '','') sep"
  shows "js \<noteq> [] \<Longrightarrow> list_all json_ok js \<Longrightarrow> list_all (parses ft sep colon) js \<Longrightarrow>
    length (join sep (map (dumps ft sep colon) js)) < k \<Longrightarrow>
    parse_elements ft k (join sep (map (dumps ft sep colon) js) @ '']'' @ rest) = Some (js, rest)"
proof (induction js arbitrary: k rule: induct_list012)
  case (2 j)
  then obtain k' where k: "k = Suc k'" by (cases k) auto
  have "parse_value ft k' (dumps ft sep colon j @ '']'' @ rest) = Some (j, '']'' @ rest)"
    using 2 k by (intro parsesD stops_sep) (simp_all add: join_single)
  then show ?case by (simp add: k join_single skip_ws_def is_ws_def startswith_def)
next
  case (3 j j2 js)
  then obtain k' where k: "k = Suc k'" by (cases k) auto
  let ?t = "join sep (map (dumps ft sep colon) (j2 # js))"
  obtain ws where ws: "sep = CHR '','' # ws" "list_all is_ws ws" using ok(2) by (rule sep_okE)
  have l: "length (dumps ft sep colon j) + Suc (length ?t) \<le> k'"
    using 3 k ws(1) by (simp add: join_Cons)
  have v: "parse_value ft k' (dumps ft sep colon j @ sep @ ?t @ '']'' @ rest) = Some (j, sep @ ?t @ '']'' @ rest)"
    using 3 l ok(2) by (intro parsesD stops_sep(1)) simp_all
  obtain c cs where c: "dumps ft sep colon j2 = c # cs" "\<not> is_ws c"
    using dumps_head [of j2 ft sep colon] 3 ok(1) by auto
  then obtain cs' where c': "?t @ '']'' @ rest = c # cs'" by (simp add: join_def)
  have "skip_ws (ws @ ?t @ '']'' @ rest) = ?t @ '']'' @ rest"
    unfolding skip_ws_append [OF ws(2)] by (rule skip_ws_head [OF c' c(2)])
  moreover have "parse_elements ft k' (?t @ '']'' @ rest) = Some (j2 # js, rest)"
    using 3 l by (intro 3) simp_all
  ultimately show ?case
    using v by (simp add: k join_Cons ws(1) skip_ws_def [of "CHR '','' # _"] is_ws_def startswith_def)
qed simp

lemma parse_key:
  "parse_chars (concat (map esc_char key) @ quote # r) = Some (key, r)"
  by (rule parse_json_str)

definition member :: "float_text \<Rightarrow> str \<Rightarrow> str \<Rightarrow> str \<times> json \<Rightarrow> str" where
  "member ft sep colon kv = json_str (fst kv) @ colon @ dumps ft sep colon (snd kv)"

lemma member_head: "member ft sep colon kv = quote # concat (map esc_char (fst kv)) @ quote # colon @ dumps ft sep colon (snd kv)"
  by (simp add: member_def json_str_def)

lemma parse_member:
  assumes ok: "float_text_ok ft" "sep_ok (CHR '':'') colon" "json_ok (snd kv)" "parses ft sep colon (snd kv)"
    and "stops r" "length (member ft sep colon kv) \<le> k"
  shows "parse_members ft (Suc k) (member ft sep colon kv @ r) =
    (let r1 = skip_ws r in
       if startswith r1 '','' then
         map_option (\<lambda>(kvs, r'). ((fst kv, snd kv) # kvs, r')) (parse_members ft k (skip_ws (drop 1 r1)))
       else if startswith r1 ''}'' then Some ([(fst kv, snd kv)], drop 1 r1) else None)"
proof -
  let ?v = "dumps ft sep colon (snd kv)"
  obtain ws where ws: "colon = CHR '':'' # ws" "list_all is_ws ws" using ok(2) by (rule sep_okE)
  obtain c cs where c: "?v = c # cs" "\<not> is_ws c"
    using dumps_head [OF ok(3,1), of sep colon] by auto
  then have "?v @ r = c # (cs @ r)" by simp
  then have w: "skip_ws (ws @ ?v @ r) = ?v @ r"
    unfolding skip_ws_append [OF ws(2)] by (rule skip_ws_head [OF _ c(2)])
  have "parse_value ft k (?v @ r) = Some (snd kv, r)"
    using assms(4-6) by (intro parsesD) (simp_all add: member_head)
  then have "parse_value ft k (skip_ws (ws @ ?v @ r)) = Some (snd kv, r)" by (simp only: w)
  moreover have "member ft sep colon kv @ r =
      quote # concat (map esc_char (fst kv)) @ quote # CHR '':'' # ws @ ?v @ r"
    unfolding member_head by (simp add: ws(1))
  ultimately show ?thesis
    by (simp add: parse_key skip_ws_def [of "CHR '':'' # _"] is_ws_def startswith_def Let_def)
qed

lemma parse_members_join:
  assumes ok: "float_text_ok ft" "sep_ok (CHR '','') sep" "sep_ok (CHR '':'') colon"
  shows "kvs \<noteq> [] \<Longrightarrow> list_all (\<lambda>kv. json_ok (snd kv)) kvs \<Longrightarrow> list_all (\<lambda>kv. parses ft sep colon (snd kv)) kvs \<Longrightarrow>
    length (join sep (map (member ft sep colon) kvs)) < k \<Longrightarrow>
    parse_members ft k (join sep (map (member ft sep colon) kvs) @ ''}'' @ rest) = Some (kvs, rest)"
proof (induction kvs arbitrary: k rule: induct_list012)
  case (2 kv)
  then obtain k' where k: "k = Suc k'" by (cases k) auto
  have "length (member ft sep colon kv) \<le> k'" using 2 k by (simp add: join_single)
  then show ?case
    using 2 parse_member [OF ok(1,3), of kv sep "''}'' @ rest" k'] stops_sep(3) [of rest]
    by (simp add: k join_single skip_ws_def is_ws_def startswith_def)
next
  case (3 kv kv2 kvs)
  then obtain k' where k: "k = Suc k'" by (cases k) auto
  let ?t = "join sep (map (member ft sep colon) (kv2 # kvs))"
  obtain ws where ws: "sep = CHR '','' # ws" "list_all is_ws ws" using ok(2) by (rule sep_okE)
  have l: "length (member ft sep colon kv) \<le> k'" "length ?t < k'"
    using 3 k ws(1) by (simp_all add: join_Cons)
  obtain cs' where c': "?t @ ''}'' @ rest = quote # cs'" by (simp add: join_def member_head)
  have "\<not> is_ws quote" by (simp add: is_ws_def quote_def)
  then have w: "skip_ws (ws @ ?t @ ''}'' @ rest) = ?t @ ''}'' @ rest"
    unfolding skip_ws_append [OF ws(2)] by (rule skip_ws_head [OF c'])
  have m: "parse_members ft k' (?t @ ''}'' @ rest) = Some (kv2 # kvs, rest)"
    using 3 l by (intro 3) simp_all
  have e: "join sep (map (member ft sep colon) (kv # kv2 # kvs)) @ ''}'' @ rest =
      member ft sep colon kv @ sep @ ?t @ ''}'' @ rest"
    by (simp add: join_Cons)
  have "parse_members ft (Suc k') (member ft sep colon kv @ sep @ ?t @ ''}'' @ rest) =
    map_option (\<lambda>(kvs, r'). ((fst kv, snd kv) # kvs, r')) (parse_members ft k' (skip_ws (ws @ ?t @ ''}'' @ rest)))"
    using 3 parse_member [OF ok(1,3), of kv sep "sep @ ?t @ ''}'' @ rest" k'] l(1) stops_sep(1) [OF ok(2)]
    by (simp add: ws(1) skip_ws_def [of "CHR '','' # _"] is_ws_def startswith_def)
  then show ?case unfolding e k w m by simp
qed simp

lemma json_size: "j \<in> set js \<Longrightarrow> size j < Suc (size_list size js)"
  by (induction js) auto

lemma dict_pairs: "is_dict kvs \<Longrightarrow> dict_of fst snd kvs = kvs"
  by (simp add: dict_of_distinct)

lemma dumps_obj: "dumps ft sep colon (JObj kvs) = ''{'' @ join sep (map (member ft sep colon) kvs) @ ''}''"
  by (simp add: member_def [abs_def])

lemma join_head: "xs \<noteq> [] \<Longrightarrow> hd xs = c # cs \<Longrightarrow> \<exists>ds. join sep xs @ r = c # ds"
  by (cases xs) (auto simp: join_def)

lemma parses_number:
  assumes "list_all is_num_char (dumps ft sep colon j)" "dumps ft sep colon j \<noteq> []"
    "read_number ft (dumps ft sep colon j) = Some j"
  shows "parses ft sep colon j"
  unfolding parses_def
proof (intro allI impI, elim conjE)
  fix k rest assume l: "length (dumps ft sep colon j) \<le> k" "stops rest"
  then obtain k' where "k = Suc k'" using assms(2) by (cases k) auto
  then show "parse_value ft k (dumps ft sep colon j @ rest) = Some (j, rest)"
    using parse_number [OF assms(1,2) l(2) assms(3)] by simp
qed

lemma Suc_le_obtain: "Suc n \<le> k \<Longrightarrow> \<exists>m. k = Suc m"
  by (cases k) auto

lemma parse_dumps:
  assumes ok: "float_text_ok ft" "sep_ok (CHR '','') sep" "sep_ok (CHR '':'') colon"
  shows "json_ok j \<Longrightarrow> parses ft sep colon j"
proof (induction j)
  case (JFloat x)
  then show ?case using ok(1) by (intro parses_number) (simp_all add: float_text_ok_def read_number_def)
next
  case (JInt i)
  show ?case by (intro parses_number) (simp_all add: show_int_chars read_number_def read_show_int)
next
  case (JArr js)
  show ?case unfolding parses_def
  proof (intro allI impI, elim conjE)
    fix k rest assume l: "length (dumps ft sep colon (JArr js)) \<le> k"
    then obtain k' where k: "k = Suc k'" by (cases k) auto
    show "parse_value ft k (dumps ft sep colon (JArr js) @ rest) = Some (JArr js, rest)"
    proof (cases "js = []")
      case True
      then show ?thesis
        by (simp add: k startswith_def quote_def join_def skip_ws_def is_ws_def)
    next
      case False
      have p: "list_all (parses ft sep colon) js" using JArr by (auto simp: list_all_iff)
      let ?t = "join sep (map (dumps ft sep colon) js)"
      have e: "parse_elements ft k' (?t @ '']'' @ rest) = Some (js, rest)"
        using False JArr.prems p l k by (intro parse_elements_join ok) simp_all
      obtain c cs where c: "dumps ft sep colon (hd js) = c # cs" "\<not> is_ws c" "c \<noteq> CHR '']''"
        using dumps_head [of "hd js" ft sep colon] JArr.prems ok(1) False by (auto simp: list_all_iff)
      then obtain ds where ds: "?t @ '']'' @ rest = c # ds"
        using join_head [of "map (dumps ft sep colon) js" c cs sep "'']'' @ rest"] False by (auto simp: hd_map)
      have w: "skip_ws (?t @ '']'' @ rest) = ?t @ '']'' @ rest" by (rule skip_ws_head [OF ds c(2)])
      have n: "\<not> startswith (?t @ '']'' @ rest) '']''" unfolding ds using c(3) by (simp add: startswith_def)
      show ?thesis using e w n by (simp add: k startswith_def [of "CHR ''['' # _"] quote_def)
    qed
  qed
next
  case (JObj kvs)
  show ?case unfolding parses_def
  proof (intro allI impI, elim conjE)
    fix k rest assume l: "length (dumps ft sep colon (JObj kvs)) \<le> k"
    then obtain k' where k: "k = Suc k'" by (cases k) auto
    show "parse_value ft k (dumps ft sep colon (JObj kvs) @ rest) = Some (JObj kvs, rest)"
    proof (cases "kvs = []")
      case True
      then show ?thesis
        by (simp add: k startswith_def quote_def join_def skip_ws_def is_ws_def)
    next
      case False
      have p: "list_all (\<lambda>kv. parses ft sep colon (snd kv)) kvs"
        using JObj by (force simp: list_all_iff)
      let ?t = "join sep (map (member ft sep colon) kvs)"
      have e: "parse_members ft k' (?t @ ''}'' @ rest) = Some (kvs, rest)"
        using False JObj.prems p l k unfolding dumps_obj by (intro parse_members_join ok) simp_all
      obtain cs where "hd (map (member ft sep colon) kvs) = quote # cs"
        using False by (simp add: hd_map member_head)
      then obtain ds where ds: "?t @ ''}'' @ rest = quote # ds"
        using join_head [of "map (member ft sep colon) kvs" quote cs sep "''}'' @ rest"] False by auto
      have w: "skip_ws (?t @ ''}'' @ rest) = ?t @ ''}'' @ rest"
        by (rule skip_ws_head [OF ds]) (simp add: is_ws_def quote_def)
      have n: "\<not> startswith (?t @ ''}'' @ rest) ''}''" unfolding ds by (simp add: startswith_def quote_def)
      have d: "dict_of fst snd kvs = kvs" using JObj.prems by (intro dict_pairs) simp
      show ?thesis unfolding dumps_obj using e w n d
        by (simp add: k startswith_def [of "CHR ''{'' # _"] quote_def)
    qed
  qed
next
  case (JStr s)
  show ?case
    by (auto simp: parses_def startswith_def json_str_def parse_json_str quote_def [symmetric] dest!: Suc_le_obtain)
      (simp_all add: quote_def)
qed (auto simp: parses_def startswith_def dest!: Suc_le_obtain)

lemma loads_dumps:
  assumes "float_text_ok ft" "sep_ok (CHR '','') sep" "sep_ok (CHR '':'') colon" "json_ok j"
  shows "loads ft (dumps ft sep colon j) = Some j"
proof -
  obtain c cs where c: "dumps ft sep colon j = c # cs" "\<not> is_ws c"
    using dumps_head [OF assms(4,1), of sep colon] by auto
  have "skip_ws (dumps ft sep colon j) = dumps ft sep colon j" by (rule skip_ws_head [OF c])
  moreover have "parse_value ft (length (dumps ft sep colon j) + 1) (dumps ft sep colon j @ []) = Some (j, [])"
    using parse_dumps [OF assms] by (rule parsesD) (simp_all add: stops_def)
  ultimately show ?thesis by (simp add: loads_def skip_ws_def [of "[]"])
qed

lemma sep_ok_canonical: "sep_ok (CHR '','') '',''" "sep_ok (CHR '':'') '':''"
    "sep_ok (CHR '','') '', ''" "sep_ok (CHR '':'') '': ''"
  by (simp_all add: sep_ok_def is_ws_def)

lemma is_dict_sort_keys: "is_dict (sort_keys kvs) \<longleftrightarrow> is_dict kvs"
  by (simp add: sort_keys_def distinct_map)

lemma json_ok_sorted: "json_ok j \<Longrightarrow> json_ok (sorted_json j)"
proof (induction j)
  case (JArr js)
  then show ?case by (simp add: list_all_iff)
next
  case (JObj kvs)
  have "is_dict (map (\<lambda>kv. (fst kv, sorted_json (snd kv))) kvs)"
    using JObj.prems by (simp add: comp_def)
  moreover have "json_ok (sorted_json (snd kv))" if "kv \<in> set kvs" for kv
    using JObj that by (cases kv) (force simp: list_all_iff)
  ultimately show ?case by (simp only: sorted_json.simps json_ok.simps is_dict_sort_keys)
      (auto simp: list_all_iff sort_keys_def)
qed simp_all

lemma loads_canonical:
  "float_text_ok ft \<Longrightarrow> json_ok j \<Longrightarrow> loads ft (canonical ft j) = Some (sorted_json j)"
  unfolding canonical_def by (intro loads_dumps sep_ok_canonical json_ok_sorted)

lemma loads_default: "float_text_ok ft \<Longrightarrow> json_ok j \<Longrightarrow> loads ft (default_dumps ft j) = Some j"
  unfolding default_dumps_def by (intro loads_dumps sep_ok_canonical)

lemma canonical_inj:
  "float_text_ok ft \<Longrightarrow> json_ok j \<Longrightarrow> json_ok j' \<Longrightarrow>
    canonical ft j = canonical ft j' \<longleftrightarrow> sorted_json j = sorted_json j'"
  by (metis canonical_def loads_canonical option.inject)

section \<open>An instance of the float text\<close>

text \<open>The exact fraction as text, an instance of \<open>float_text_ok\<close>.\<close>

definition fraction_repr :: "pyfloat \<Rightarrow> str" where
  "fraction_repr x = (case quotient_of x of (p, q) \<Rightarrow> show_int p @ ''.e'' @ show_int q)"

definition fraction_parse :: "str \<Rightarrow> pyfloat option" where
  "fraction_parse s =
     (case (read_int (takeWhile (\<lambda>c. c \<noteq> CHR ''.'') s), read_int (drop 2 (dropWhile (\<lambda>c. c \<noteq> CHR ''.'') s))) of
        (Some p, Some q) \<Rightarrow> Some (fl (of_int p / of_int q))
      | _ \<Rightarrow> None)"

definition fraction_text :: float_text where
  "fraction_text = \<lparr>frepr = fraction_repr, fparse = fraction_parse\<rparr>"

lemma show_int_no_point: "c \<in> set (show_int i) \<Longrightarrow> c \<noteq> CHR ''.''"
proof -
  assume "c \<in> set (show_int i)"
  then have "c = CHR ''-'' \<or> is_digit c"
    using map_digit_back [of "dec \<bar>i\<bar>"] dec_props [of "\<bar>i\<bar>"]
    by (auto simp: show_int_dec list_all_iff split: if_splits)
  then show ?thesis by (auto simp: is_digit_def)
qed

lemma float_text_ok_fraction: "float_text_ok fraction_text"
  unfolding float_text_ok_def
proof (intro allI impI)
  fix x :: pyfloat
  assume x: "is_float x"
  obtain p q where q: "quotient_of x = (p, q)" by fastforce
  have r: "fraction_repr x = show_int p @ CHR ''.'' # CHR ''e'' # show_int q" by (simp add: fraction_repr_def q)
  have t: "takeWhile (\<lambda>c. c \<noteq> CHR ''.'') (fraction_repr x) = show_int p"
    "dropWhile (\<lambda>c. c \<noteq> CHR ''.'') (fraction_repr x) = CHR ''.'' # CHR ''e'' # show_int q"
    unfolding r using show_int_no_point [of _ p]
    by (simp_all add: takeWhile_append2 dropWhile_append2)
  have "fraction_parse (fraction_repr x) = Some x"
    unfolding fraction_parse_def t using quotient_of_div [OF q] is_floatD [OF x] by (simp add: read_show_int)
  moreover have "list_all is_num_char (fraction_repr x)"
    unfolding r using show_int_chars by (simp add: is_num_char_def)
  moreover have "\<not> list_all is_digit (fraction_repr x)" "\<not> list_all is_digit (tl (fraction_repr x))"
    unfolding r using show_int_chars(2) [of p] by (auto simp: is_digit_def tl_append split: list.split)
  then have "read_int (fraction_repr x) = None"
    by (cases "fraction_repr x") (auto simp: read_int_def Let_def)
  ultimately show "frepr fraction_text x \<noteq> [] \<and> list_all is_num_char (frepr fraction_text x) \<and>
      read_int (frepr fraction_text x) = None \<and> fparse fraction_text (frepr fraction_text x) = Some x"
    by (simp add: fraction_text_def r)
qed

lemma floats_read_fraction: "floats_read fraction_text"
  by (auto simp: floats_read_def fraction_text_def fraction_parse_def split: option.splits)

section \<open>What is read is well formed\<close>

text \<open>Whatever text is read, the value has floats for floats and no repeated keys.\<close>

lemma parse_ok:
  assumes "floats_read ft"
  shows "(\<forall>s j r. parse_value ft k s = Some (j, r) \<longrightarrow> json_ok j) \<and>
    (\<forall>s js r. parse_elements ft k s = Some (js, r) \<longrightarrow> list_all json_ok js) \<and>
    (\<forall>s kvs r. parse_members ft k s = Some (kvs, r) \<longrightarrow> list_all (json_ok \<circ> snd) kvs)"
proof (induction k)
  case (Suc k)
  have num: "json_ok j" if "read_number ft s = Some j" for s j
    using that assms by (auto simp: read_number_def floats_read_def split: option.splits)
  have obj: "json_ok (JObj (dict_of fst snd kvs))" if "list_all (json_ok \<circ> snd) kvs" for kvs :: "(str \<times> json) list"
    using that by (auto simp: list_all_iff dest!: dict_of_valsD)
  have ih: "parse_value ft k s = Some (j, r) \<Longrightarrow> json_ok j" "parse_elements ft k s = Some (js, r) \<Longrightarrow> list_all json_ok js"
    "parse_members ft k s = Some (kvs, r) \<Longrightarrow> list_all (json_ok \<circ> snd) kvs" for s j js kvs r
    using Suc by blast+
  have z: "json_ok (JObj [])" by simp
  have v: "json_ok j" if "parse_value ft (Suc k) s = Some (j, r)" for s j r
    using that by (auto simp: z simp del: json_ok.simps(3) split: if_splits list.splits dest: num ih(2) intro: obj ih(3))
  have e: "list_all json_ok js" if "parse_elements ft (Suc k) s = Some (js, r)" for s js r
    using that by (auto simp: Let_def split: option.splits if_splits prod.splits dest: ih)
  have m: "list_all (json_ok \<circ> snd) kvs" if "parse_members ft (Suc k) s = Some (kvs, r)" for s kvs r
    using that by (auto simp: Let_def comp_def split: option.splits if_splits prod.splits list.splits dest: ih(1) dest!: ih(3) [unfolded comp_def])
  show ?case using v e m by blast
qed simp

lemma loads_ok: "floats_read ft \<Longrightarrow> loads ft s = Some j \<Longrightarrow> json_ok j"
  using parse_ok [of ft "length s + 1"] by (auto simp: loads_def split: option.splits prod.splits if_splits)

lemma json_roundtrip:
  assumes "float_text_ok ft" "json_ok j" "json_ok j'"
  shows "loads ft (default_dumps ft j) = Some j \<and>
    loads ft (decode (encode (canonical ft j))) = Some (sorted_json j) \<and>
    (encode (canonical ft j) = encode (canonical ft j') \<longleftrightarrow> sorted_json j = sorted_json j')"
  using assms by (simp add: loads_default loads_canonical canonical_inj)

end
