(* ===== verification/Contracts.thy ===== *)
theory Contracts
  imports Errors
begin

text \<open>
  The data contracts: \<open>contracts/models.py\<close> and \<open>contracts/sla_profiles.py\<close>.

  Each enumeration is a datatype with its string values (\<open>..._value\<close>) and the lookup
  \<open>Cls(value)\<close> (\<open>..._of\<close>, \<open>None\<close> where Python raises \<open>ValueError\<close>). Each pydantic model is
  a record whose fields carry a short prefix; its field constraints are \<open>valid_...\<close>, and
  building one is \<open>mk_...\<close>, which fails with \<open>ValidationError\<close>. Values that are read from
  the clock or from the random generator are arguments.
\<close>

section \<open>Enumerations\<close>

datatype SLAClass = REAL_TIME | INTERACTIVE | BATCH
datatype WorkloadType = INFERENCE | STREAMING | EMBEDDING
datatype NodeClass = EDGE | CLOUD
datatype HealthStatus = HEALTHY | DEGRADED | UNREACHABLE
datatype AssuranceLevel = STANDARD | HIGH_ASSURANCE
datatype ExecutionStatus = SUCCESS | FAILED | REJECTED

fun sla_value :: "SLAClass \<Rightarrow> str" where
  "sla_value REAL_TIME = ''real_time''"
| "sla_value INTERACTIVE = ''interactive''"
| "sla_value BATCH = ''batch''"

fun workload_value :: "WorkloadType \<Rightarrow> str" where
  "workload_value INFERENCE = ''inference''"
| "workload_value STREAMING = ''streaming''"
| "workload_value EMBEDDING = ''embedding''"

fun node_class_value :: "NodeClass \<Rightarrow> str" where
  "node_class_value EDGE = ''edge''"
| "node_class_value CLOUD = ''cloud''"

fun health_value :: "HealthStatus \<Rightarrow> str" where
  "health_value HEALTHY = ''healthy''"
| "health_value DEGRADED = ''degraded''"
| "health_value UNREACHABLE = ''unreachable''"

text \<open>Assurance levels are ordered: a node of high assurance also serves the tasks that ask for less.\<close>

instantiation AssuranceLevel :: linorder
begin

definition less_eq_AssuranceLevel :: "AssuranceLevel \<Rightarrow> AssuranceLevel \<Rightarrow> bool" where
  "a \<le> b \<longleftrightarrow> a = STANDARD \<or> b = HIGH_ASSURANCE"

definition less_AssuranceLevel :: "AssuranceLevel \<Rightarrow> AssuranceLevel \<Rightarrow> bool" where
  "a < b \<longleftrightarrow> a = STANDARD \<and> b = HIGH_ASSURANCE"

instance
proof
  fix a b c :: AssuranceLevel
  show "a < b \<longleftrightarrow> a \<le> b \<and> \<not> b \<le> a" "a \<le> a" "a \<le> b \<or> b \<le> a"
    by (cases a; cases b; simp add: less_eq_AssuranceLevel_def less_AssuranceLevel_def)+
  show "a \<le> b \<Longrightarrow> b \<le> c \<Longrightarrow> a \<le> c" "a \<le> b \<Longrightarrow> b \<le> a \<Longrightarrow> a = b"
    by (auto simp: less_eq_AssuranceLevel_def)
qed

end

lemma assurance_le [simp]: "required \<le> offered \<longleftrightarrow> (required = HIGH_ASSURANCE \<longrightarrow> offered = HIGH_ASSURANCE)"
  by (cases required) (simp_all add: less_eq_AssuranceLevel_def)

fun assurance_value :: "AssuranceLevel \<Rightarrow> str" where
  "assurance_value STANDARD = ''standard''"
| "assurance_value HIGH_ASSURANCE = ''high_assurance''"

fun status_value :: "ExecutionStatus \<Rightarrow> str" where
  "status_value SUCCESS = ''success''"
| "status_value FAILED = ''failed''"
| "status_value REJECTED = ''rejected''"

text \<open>\<open>Cls(value)\<close>: the member whose value it is.\<close>

definition sla_of :: "str \<Rightarrow> SLAClass option" where
  "sla_of s = find (\<lambda>x. sla_value x = s) [REAL_TIME, INTERACTIVE, BATCH]"

definition node_class_of :: "str \<Rightarrow> NodeClass option" where
  "node_class_of s = find (\<lambda>x. node_class_value x = s) [EDGE, CLOUD]"

definition health_of :: "str \<Rightarrow> HealthStatus option" where
  "health_of s = find (\<lambda>x. health_value x = s) [HEALTHY, DEGRADED, UNREACHABLE]"

definition status_of :: "str \<Rightarrow> ExecutionStatus option" where
  "status_of s = find (\<lambda>x. status_value x = s) [SUCCESS, FAILED, REJECTED]"

lemma enum_roundtrip [simp]:
  "sla_of (sla_value a) = Some a"
  "node_class_of (node_class_value b) = Some b"
  "health_of (health_value c) = Some c"
  "status_of (status_value d) = Some d"
  subgoal by (cases a) (simp_all add: sla_of_def)
  subgoal by (cases b) (simp_all add: node_class_of_def)
  subgoal by (cases c) (simp_all add: health_of_def)
  subgoal by (cases d) (simp_all add: status_of_def)
  done

section \<open>UUIDv7 identifiers\<close>

text \<open>
  \<open>generate_uuidv7\<close> from the clock in milliseconds and the ten random bytes. The version
  digit 7 replaces the first digit of the third group, the two top bits of the fourth group
  are set to \<open>10\<close>.
\<close>

definition var_byte :: "8 word \<Rightarrow> 8 word" where
  "var_byte b = (b AND 0x3F) OR 0x80"

definition generate_uuidv7 :: "int \<Rightarrow> bytes \<Rightarrow> str" where
  "generate_uuidv7 ms rand_bytes =
     (let time_hex = fmt_hex 12 ms;
          p1 = take 8 time_hex;
          p2 = take 4 (drop 8 time_hex);
          p3 = ''7'' @ take 3 (drop 1 (hex (take 2 rand_bytes)));
          p4 = fmt_hex 2 (uint (var_byte (rand_bytes ! 2))) @ hex (take 1 (drop 3 rand_bytes));
          p5 = hex (take 6 (drop 4 rand_bytes))
      in p1 @ ''-'' @ p2 @ ''-'' @ p3 @ ''-'' @ p4 @ ''-'' @ p5)"

section \<open>Requests, snapshots and decisions\<close>

record TaskRequest =
  t_task_id :: str
  t_workload_type :: WorkloadType
  t_model_id :: str
  t_model_digest :: "str option"
  t_sla_class :: SLAClass
  t_payload_ref :: str
  t_max_latency_ms :: pyfloat
  t_data_residency :: "str option"
  t_idempotency_key :: str
  t_required_assurance_level :: AssuranceLevel

definition valid_TaskRequest :: "TaskRequest \<Rightarrow> bool" where
  "valid_TaskRequest t \<longleftrightarrow> 1 \<le> t_max_latency_ms t \<and> 1 \<le> length (t_idempotency_key t)"

record NodeTelemetrySnapshot =
  s_node_id :: str
  s_node_class :: NodeClass
  s_timestamp :: pyfloat
  s_rtt_ms :: pyfloat
  s_bandwidth_available_mbps :: pyfloat
  s_cpu_util_pct :: pyfloat
  s_gpu_util_pct :: pyfloat
  s_queue_depth :: int
  s_cost_per_1k_inferences_usd :: pyfloat
  s_health :: HealthStatus
  s_last_heartbeat_age_ms :: pyfloat
  s_data_residency_zones :: "str list"
  s_gateway_observed_rtt_ms :: "pyfloat option"
  s_assurance_level :: AssuranceLevel

definition valid_NodeTelemetrySnapshot :: "NodeTelemetrySnapshot \<Rightarrow> bool" where
  "valid_NodeTelemetrySnapshot s \<longleftrightarrow>
     0 \<le> s_rtt_ms s \<and> fl (1 / 1000) \<le> s_bandwidth_available_mbps s \<and>
     0 \<le> s_cpu_util_pct s \<and> s_cpu_util_pct s \<le> 100 \<and>
     0 \<le> s_gpu_util_pct s \<and> s_gpu_util_pct s \<le> 100 \<and>
     0 \<le> s_queue_depth s \<and> 0 \<le> s_cost_per_1k_inferences_usd s \<and>
     0 \<le> s_last_heartbeat_age_ms s"

definition mk_NodeTelemetrySnapshot :: "NodeTelemetrySnapshot \<Rightarrow> exc + NodeTelemetrySnapshot" where
  "mk_NodeTelemetrySnapshot s =
     (if valid_NodeTelemetrySnapshot s then Inr s else Inl (py_exc ValidationErrorClass []))"

definition compute_utilization :: "NodeTelemetrySnapshot \<Rightarrow> pyfloat" where
  "compute_utilization s = max (s_cpu_util_pct s) (s_gpu_util_pct s)"

text \<open>
  The texts of the rejection reasons (\<open>decision_engine/filter.py\<close>,
  \<open>telemetry/validator.py\<close>): each template of the code with the values it interpolates;
  \<open>Text\<close> for a plain string. The decimal rendering of the numbers is not modelled.
\<close>

datatype rtt_reason =
    No_gateway_measurement
  | Invalid_reported_rtt_zero_or_negative
  | Divergence_exceeded pyfloat
  | Validated

datatype reason =
    Node_unreachable
  | Stale_telemetry_age pyfloat
  | Gateway_cross_check_failed rtt_reason
  | Data_residency_mismatch str "str list"
  | Queue_saturated int int
  | Compute_exhausted pyfloat pyfloat
  | Cost_ceiling_exceeded pyfloat pyfloat
  | Insufficient_assurance_level AssuranceLevel
  | Text str

record PlacementDecision =
  d_task_id :: str
  d_chosen_node :: str
  d_chosen_score :: pyfloat
  d_runner_up_node :: "str option"
  d_runner_up_score :: "pyfloat option"
  d_weights_used :: "(str, pyfloat) dict"
  d_decision_latency_ms :: pyfloat
  d_fallback_chain :: "str list"
  d_filtered_out_nodes :: "(str, reason) dict"
  d_used_fallback_policy :: bool

record ExecutionRequest =
  r_task_id :: str
  r_node_id :: str
  r_model_id :: str
  r_model_digest :: "str option"
  r_payload_ref :: str
  r_idempotency_key :: str
  r_timeout_ms :: pyfloat

record ExecutionResult =
  x_task_id :: str
  x_node_id :: str
  x_node_class :: NodeClass
  x_status :: ExecutionStatus
  x_execution_time_ms :: pyfloat
  x_model_digest :: "str option"
  x_output :: "jobj option"
  x_error :: "str option"
  x_cached :: bool
  x_idempotency_key :: str

record AuditEvent =
  a_event_id :: str
  a_schema_version :: str
  a_task_id :: str
  a_model_digest :: "str option"
  a_timestamp :: pyfloat
  a_decision :: PlacementDecision
  a_execution :: ExecutionResult
  a_fallback_activated :: bool
  a_attempts :: int
  a_gateway_rtt_observed_ms :: "pyfloat option"
  a_is_shadow_mode :: bool
  a_previous_event_hash :: str
  a_event_hash :: str

section \<open>Supply chain records\<close>

record ArtifactProvenance =
  p_artifact_name :: str
  p_digest :: str
  p_builder_identity :: str
  p_source_repo :: str
  p_commit_sha :: str
  p_build_timestamp :: pyfloat
  p_sbom_digest :: str
  p_vulnerabilities_summary :: "(str, int) dict"

record ApprovedArtifactRecord =
  ar_model_id :: str
  ar_digest :: str
  ar_provenance :: ArtifactProvenance
  ar_signature_algorithm :: str
  ar_signature :: str
  ar_signing_key_id :: str
  ar_revoked :: bool

record SupplyChainPolicy =
  sp_require_immutable_digest :: bool
  sp_require_signature :: bool
  sp_allowed_builders :: "str list"
  sp_max_allowed_critical_vulns :: int
  sp_max_allowed_high_vulns :: int

text \<open>\<open>SupplyChainPolicy()\<close>: the defaults of the fields.\<close>

definition default_SupplyChainPolicy :: SupplyChainPolicy where
  "default_SupplyChainPolicy =
     \<lparr>sp_require_immutable_digest = True, sp_require_signature = True,
      sp_allowed_builders = [''spiffe://distributed-ai.local/ci-builder''],
      sp_max_allowed_critical_vulns = 0, sp_max_allowed_high_vulns = 0\<rparr>"

record HardwareAttestation =
  ha_evidence_type :: str
  ha_quote :: str
  ha_pcr_banks :: "(str, str) dict"
  ha_signature :: str

record NodeRegistration =
  nr_node_id :: str
  nr_node_class :: NodeClass
  nr_supported_models :: "str list"
  nr_data_residency_zones :: "str list"
  nr_hardware_specs :: jobj
  nr_auth_token :: str
  nr_assurance_level :: AssuranceLevel
  nr_attestation_evidence :: "HardwareAttestation option"

record HealthCheckResponse =
  hc_status :: str
  hc_service_name :: str
  hc_timestamp :: pyfloat
  hc_version :: str
  hc_dependencies :: "(str, str) dict"

record ErrorResponse =
  er_error_code :: str
  er_message :: str
  er_task_id :: "str option"
  er_details :: "jobj option"

section \<open>SLA weight profiles\<close>

record SLAWeights =
  w_lat :: pyfloat
  w_bw :: pyfloat
  w_cmp :: pyfloat
  w_queue :: pyfloat
  w_cost :: pyfloat

text \<open>The total in the order of the code's additions, and the two validations.\<close>

definition weights_total :: "SLAWeights \<Rightarrow> pyfloat" where
  "weights_total w = fadd (fadd (fadd (fadd (w_lat w) (w_bw w)) (w_cmp w)) (w_queue w)) (w_cost w)"

definition unit_range :: "pyfloat \<Rightarrow> bool" where
  "unit_range x \<longleftrightarrow> 0 \<le> x \<and> x \<le> 1"

definition validate_sum :: "SLAWeights \<Rightarrow> exc + SLAWeights" where
  "validate_sum w =
     (if \<bar>fsub (weights_total w) 1\<bar> > fl (1 / 1000)
      then Inl (py_exc ValueErrorClass ''SLA weights must sum to 1.0'') else Inr w)"

definition mk_SLAWeights :: "pyfloat \<Rightarrow> pyfloat \<Rightarrow> pyfloat \<Rightarrow> pyfloat \<Rightarrow> pyfloat \<Rightarrow> exc + SLAWeights" where
  "mk_SLAWeights lat bw cmp queue cost =
     (if unit_range lat \<and> unit_range bw \<and> unit_range cmp \<and> unit_range queue \<and> unit_range cost
      then validate_sum \<lparr>w_lat = lat, w_bw = bw, w_cmp = cmp, w_queue = queue, w_cost = cost\<rparr>
      else Inl (py_exc ValidationErrorClass []))"

definition to_dict :: "SLAWeights \<Rightarrow> (str, pyfloat) dict" where
  "to_dict w = [(''latency'', w_lat w), (''bandwidth'', w_bw w), (''compute'', w_cmp w),
     (''queue'', w_queue w), (''cost'', w_cost w)]"

text \<open>A float literal of the source, in hundredths.\<close>

definition pct :: "int \<Rightarrow> pyfloat" where
  "pct n = fl (of_int n / 100)"

definition DEFAULT_SLA_PROFILES :: "(SLAClass, SLAWeights) dict" where
  "DEFAULT_SLA_PROFILES =
     [(REAL_TIME, \<lparr>w_lat = pct 50, w_bw = pct 15, w_cmp = pct 15, w_queue = pct 15, w_cost = pct 5\<rparr>),
      (INTERACTIVE, \<lparr>w_lat = pct 35, w_bw = pct 15, w_cmp = pct 20, w_queue = pct 15, w_cost = pct 15\<rparr>),
      (BATCH, \<lparr>w_lat = pct 10, w_bw = pct 10, w_cmp = pct 20, w_queue = pct 20, w_cost = pct 40\<rparr>)]"

text \<open>The last fallback of the code (the interactive profile) needs a class without a default.\<close>

definition get_sla_weights ::
    "SLAClass \<Rightarrow> (SLAClass, SLAWeights) dict option \<Rightarrow> SLAWeights" where
  "get_sla_weights c custom_profiles =
     (case (case custom_profiles of None \<Rightarrow> None | Some d \<Rightarrow> map_of d c) of
        Some w \<Rightarrow> w
      | None \<Rightarrow> (case map_of DEFAULT_SLA_PROFILES c of
          Some w \<Rightarrow> w
        | None \<Rightarrow> the (map_of DEFAULT_SLA_PROFILES INTERACTIVE)))"

text \<open>What the validators leave: the invariant of every \<open>SLAWeights\<close> object.\<close>

definition weights_ok :: "SLAWeights \<Rightarrow> bool" where
  "weights_ok w \<longleftrightarrow> unit_range (w_lat w) \<and> unit_range (w_bw w) \<and> unit_range (w_cmp w) \<and>
     unit_range (w_queue w) \<and> unit_range (w_cost w) \<and>
     is_float (w_lat w) \<and> is_float (w_bw w) \<and> is_float (w_cmp w) \<and>
     is_float (w_queue w) \<and> is_float (w_cost w) \<and>
     \<bar>fsub (weights_total w) 1\<bar> \<le> fl (1 / 1000)"

lemma pct_range: "0 \<le> n \<Longrightarrow> n \<le> 100 \<Longrightarrow> unit_range (pct n)"
  unfolding pct_def unit_range_def by (intro conjI fl.nonneg fl.le_one) simp_all

lemma is_float_pct [simp, intro]: "is_float (pct n)"
  by (simp add: pct_def)

lemma weights_ok_pct:
  assumes "{a, b, c, d, e} \<subseteq> {0..100}"
    and "\<bar>fsub (weights_total \<lparr>w_lat = pct a, w_bw = pct b, w_cmp = pct c, w_queue = pct d, w_cost = pct e\<rparr>) 1\<bar> \<le> fl (1 / 1000)"
  shows "weights_ok \<lparr>w_lat = pct a, w_bw = pct b, w_cmp = pct c, w_queue = pct d, w_cost = pct e\<rparr>"
  using assms by (auto simp: weights_ok_def pct_range)

lemma real_time_ok: "weights_ok (the (map_of DEFAULT_SLA_PROFILES REAL_TIME))"
  unfolding DEFAULT_SLA_PROFILES_def map_of.simps fst_conv snd_conv fun_upd_same option.sel
  by (rule weights_ok_pct) (simp, code_simp)

lemma interactive_ok: "weights_ok (the (map_of DEFAULT_SLA_PROFILES INTERACTIVE))"
  unfolding DEFAULT_SLA_PROFILES_def map_of.simps fst_conv snd_conv
  by simp (rule weights_ok_pct, simp, code_simp)

lemma batch_ok: "weights_ok (the (map_of DEFAULT_SLA_PROFILES BATCH))"
  unfolding DEFAULT_SLA_PROFILES_def map_of.simps fst_conv snd_conv
  by simp (rule weights_ok_pct, simp, code_simp)

lemma default_profiles_total: "\<exists>w. map_of DEFAULT_SLA_PROFILES c = Some w"
  by (cases c) (simp_all add: DEFAULT_SLA_PROFILES_def)

lemma default_profile_ok: "map_of DEFAULT_SLA_PROFILES c = Some w \<Longrightarrow> weights_ok w"
  using real_time_ok interactive_ok batch_ok by (cases c) simp_all

definition profiles_ok :: "(SLAClass, SLAWeights) dict \<Rightarrow> bool" where
  "profiles_ok d \<longleftrightarrow> (\<forall>p\<in>set d. weights_ok (snd p))"

lemma profiles_ok_dset: "profiles_ok d \<Longrightarrow> weights_ok w \<Longrightarrow> profiles_ok (dset c w d)"
  unfolding profiles_ok_def by (induction d) auto

lemma profiles_okD: "profiles_ok d \<Longrightarrow> map_of d c = Some w \<Longrightarrow> weights_ok w"
  unfolding profiles_ok_def by (force dest: map_of_SomeD)

lemma get_sla_weights_ok:
  assumes "\<And>d. custom = Some d \<Longrightarrow> profiles_ok d"
  shows "weights_ok (get_sla_weights c custom)"
proof -
  obtain w where "map_of DEFAULT_SLA_PROFILES c = Some w" using default_profiles_total by blast
  then show ?thesis using assms
    by (auto simp: get_sla_weights_def dest: default_profile_ok profiles_okD split: option.splits)
qed

lemma mk_SLAWeights_ok:
  "mk_SLAWeights a b c d e = Inr w \<Longrightarrow> is_float a \<Longrightarrow> is_float b \<Longrightarrow> is_float c \<Longrightarrow> is_float d \<Longrightarrow>
    is_float e \<Longrightarrow> weights_ok w"
  by (auto simp: mk_SLAWeights_def validate_sum_def weights_ok_def split: if_splits)

section \<open>The layout of an identifier\<close>

lemma var_byte_range: "128 \<le> uint (var_byte b)" "uint (var_byte b) < 192"
proof -
  let ?m = "b AND (0x3F :: 8 word)"
  have "?m AND 0x80 = 0" by (simp add: and.assoc)
  then have "var_byte b = ?m + 0x80"
    using word_plus_and_or [of ?m "0x80"] by (simp add: var_byte_def)
  moreover have "uint ?m < 64" "0 \<le> uint ?m" by (simp_all add: uint_and)
  ultimately have "uint (var_byte b) = uint ?m + 128"
    by (simp add: uint_word_ariths)
  then show "128 \<le> uint (var_byte b)" "uint (var_byte b) < 192"
    using \<open>uint ?m < 64\<close> \<open>0 \<le> uint ?m\<close> by linarith+
qed

lemma fmt_hex_two:
  assumes "16 \<le> n" "n < 256"
  shows "fmt_hex 2 n = [hex_digit (nat (n div 16)), hex_digit (nat (n mod 16))]"
proof -
  have "1 \<le> n div 16" "n div 16 < 16" using assms by linarith+
  moreover have "digits 16 k = [nat k]" if "1 \<le> k" "k < 16" for k
    using that by (simp add: digits.simps [of 16 k] digits.simps [of 16 "k div 16"])
  ultimately show ?thesis
    using assms by (simp add: fmt_hex_def digits.simps [of 16 n])
qed

lemma variant_digit: "8 \<le> k \<Longrightarrow> k < 12 \<Longrightarrow> hex_digit k \<in> set ''89ab''"
proof -
  assume "8 \<le> k" "k < 12"
  then have "k \<in> set [8..<12]" by (simp only: set_upt atLeastLessThan_iff)
  moreover have "\<forall>k\<in>set [8..<12]. hex_digit k \<in> set ''89ab''" by code_simp
  ultimately show ?thesis by blast
qed

lemma var_byte_digits:
  "\<exists>c d. fmt_hex 2 (uint (var_byte b)) = [c, d] \<and> c \<in> set ''89ab''"
proof -
  let ?v = "uint (var_byte b)"
  note v = var_byte_range [of b]
  have "fmt_hex 2 ?v = [hex_digit (nat (?v div 16)), hex_digit (nat (?v mod 16))]"
    using v by (intro fmt_hex_two) linarith+
  moreover have "hex_digit (nat (?v div 16)) \<in> set ''89ab''"
    using v by (intro variant_digit) linarith+
  ultimately show ?thesis by blast
qed

section \<open>Properties\<close>

text \<open>
  The layout of an identifier. For a clock below \<open>2 ^ 48\<close> milliseconds and ten random
  bytes \<open>generate_uuidv7\<close> returns 36 characters in five groups of 8, 4, 4, 4 and 12 digits,
  with the version digit 7, a variant digit from 8 to b, and the clock as its first twelve
  digits.
\<close>

lemma uuidv7_layout:
  assumes "0 \<le> ms" "ms < 2 ^ 48" "length rb = 10"
  shows "length (generate_uuidv7 ms rb) = 36 \<and>
    generate_uuidv7 ms rb ! 8 = CHR ''-'' \<and> generate_uuidv7 ms rb ! 13 = CHR ''-'' \<and>
    generate_uuidv7 ms rb ! 18 = CHR ''-'' \<and> generate_uuidv7 ms rb ! 23 = CHR ''-'' \<and>
    generate_uuidv7 ms rb ! 14 = CHR ''7'' \<and> generate_uuidv7 ms rb ! 19 \<in> set ''89ab'' \<and>
    take 8 (generate_uuidv7 ms rb) @ take 4 (drop 9 (generate_uuidv7 ms rb)) = fmt_hex 12 ms"
proof -
  let ?u = "generate_uuidv7 ms rb"
  have t: "length (fmt_hex 12 ms) = 12" using assms by (intro length_fmt_hex) simp_all
  obtain c d where f: "fmt_hex 2 (uint (var_byte (rb ! 2))) = [c, d]" and c: "c \<in> set ''89ab''"
    using var_byte_digits by blast
  have "take 8 ?u @ take 4 (drop 9 ?u) = take 8 (fmt_hex 12 ms) @ take 4 (drop 8 (fmt_hex 12 ms))"
    using t by (simp add: generate_uuidv7_def Let_def)
  also have "\<dots> = take 12 (fmt_hex 12 ms)" by (simp flip: take_add)
  finally have clock: "take 8 ?u @ take 4 (drop 9 ?u) = fmt_hex 12 ms" using t by simp
  show ?thesis unfolding clock using assms(3) t c
    by (simp add: generate_uuidv7_def Let_def f nth_append)
qed

end
