(* ===== verification/Security.thy ===== *)
theory Security
  imports Json Contracts
begin

text \<open>
  Cryptographic configuration and identities: \<open>common/crypto.py\<close>, the PQC part of
  \<open>common/config.py\<close>, \<open>common/authorization.py\<close> and \<open>extract_spiffe_id\<close> of
  \<open>common/identity.py\<close>.

  The primitives of the packages \<open>cryptography\<close>, \<open>hashlib\<close> and \<open>oqs\<close> are the fields of a
  record \<open>crypto\<close>, an argument of every definition that uses them; the documented laws the
  properties need are the predicates \<open>aead_ok\<close> and \<open>signing_ok\<close>. Random bytes (keys and
  nonces) and the environment variables are arguments too.
\<close>

section \<open>The primitives\<close>

text \<open>
  \<open>ed_load\<close> is whether \<open>load_pem_public_key(pem)\<close> raises, \<open>ed_verify\<close> is
  \<open>load_pem_public_key(pem).verify(sig, msg)\<close>: it raises on a bad key or signature. \<open>aes_open\<close> raises \<open>InvalidTag\<close> on a forged ciphertext.
\<close>

record crypto =
  ed_sign :: "bytes \<Rightarrow> bytes \<Rightarrow> bytes"
  ed_load :: "str \<Rightarrow> exc + unit"
  ed_verify :: "str \<Rightarrow> bytes \<Rightarrow> bytes \<Rightarrow> exc + unit"
  ed_pem :: "bytes \<Rightarrow> str"
  aes_seal :: "bytes \<Rightarrow> bytes \<Rightarrow> bytes \<Rightarrow> bytes"
  aes_open :: "bytes \<Rightarrow> bytes \<Rightarrow> bytes \<Rightarrow> exc + bytes"
  pq_sign :: "str \<Rightarrow> bytes \<Rightarrow> bytes \<Rightarrow> bytes"
  sha256 :: "bytes \<Rightarrow> bytes"
  ftext :: float_text

definition aead_ok :: "crypto \<Rightarrow> bool" where
  "aead_ok cr \<longleftrightarrow> (\<forall>key nonce msg. aes_open cr key nonce (aes_seal cr key nonce msg) = Inr msg)"

definition signing_ok :: "crypto \<Rightarrow> bool" where
  "signing_ok cr \<longleftrightarrow> (\<forall>sk msg. ed_verify cr (ed_pem cr sk) (ed_sign cr sk msg) msg = Inr () \<and>
     ed_load cr (ed_pem cr sk) = Inr ())"

section \<open>Algorithm policy\<close>

record PqcConfig =
  PQC_MODE :: str
  PQC_KEM :: str
  PQC_SIGNATURE :: str
  PQC_CLASSICAL_SIGNATURE :: str
  PQC_MESSAGE_SIGNATURE_POLICY :: str
  PQC_ALLOW_OQS_PROVIDER :: bool
  PQC_REQUIRE_CAPABILITY_PROBE :: bool

type_synonym environ = "str \<Rightarrow> str option"

definition getenv :: "environ \<Rightarrow> str \<Rightarrow> str \<Rightarrow> str" where
  "getenv env name dflt = (case env name of None \<Rightarrow> dflt | Some v \<Rightarrow> v)"

definition load_PqcConfig :: "environ \<Rightarrow> PqcConfig" where
  "load_PqcConfig env =
     \<lparr>PQC_MODE = getenv env ''PQC_MODE'' ''disabled'',
      PQC_KEM = getenv env ''PQC_KEM'' ''ML-KEM-768'',
      PQC_SIGNATURE = getenv env ''PQC_SIGNATURE'' ''ML-DSA-65'',
      PQC_CLASSICAL_SIGNATURE = getenv env ''PQC_CLASSICAL_SIGNATURE'' ''Ed25519'',
      PQC_MESSAGE_SIGNATURE_POLICY = getenv env ''PQC_MESSAGE_SIGNATURE_POLICY'' ''classical'',
      PQC_ALLOW_OQS_PROVIDER = (lower (getenv env ''PQC_ALLOW_OQS_PROVIDER'' ''false'') = ''true''),
      PQC_REQUIRE_CAPABILITY_PROBE = (lower (getenv env ''PQC_REQUIRE_CAPABILITY_PROBE'' ''true'') = ''true'')\<rparr>"

definition SUPPORTED_SIGNATURES :: "str list" where
  "SUPPORTED_SIGNATURES = [''Ed25519'', ''ECDSA_P256'']"

definition SUPPORTED_KEM :: "str list" where
  "SUPPORTED_KEM = [''X25519'']"

definition PQ_SIGNATURES :: "str list" where
  "PQ_SIGNATURES = [''ML-DSA-44'', ''ML-DSA-65'', ''ML-DSA-87'']"

definition PQ_KEM :: "str list" where
  "PQ_KEM = [''ML-KEM-512'', ''ML-KEM-768'', ''ML-KEM-1024'']"

text \<open>\<open>oqs\<close> is \<open>OQS_AVAILABLE\<close>, whether the import of the library succeeded.\<close>

definition validate_signature_algorithm :: "environ \<Rightarrow> bool \<Rightarrow> str \<Rightarrow> exc + unit" where
  "validate_signature_algorithm env oqs algorithm =
     (let pqc_config = load_PqcConfig env in
      if algorithm \<in> set PQ_SIGNATURES then
        (if \<not> PQC_ALLOW_OQS_PROVIDER pqc_config then
           Inl (py_exc NotImplementedErrorClass (''Post-Quantum signature algorithm '' @ algorithm @
             '' requested but OQS provider is disabled by policy.''))
         else if \<not> oqs then
           Inl (SecurityError (''Post-Quantum signature algorithm '' @ algorithm @
             '' requested but liboqs-python is not installed.'') [])
         else Inr ())
      else if algorithm \<notin> set SUPPORTED_SIGNATURES then
        Inl (SecurityError (''Unsupported signature algorithm: '' @ algorithm) [])
      else Inr ())"

definition validate_kem_algorithm :: "environ \<Rightarrow> bool \<Rightarrow> str \<Rightarrow> exc + unit" where
  "validate_kem_algorithm env oqs algorithm =
     (let pqc_config = load_PqcConfig env in
      if algorithm \<in> set PQ_KEM then
        (if \<not> PQC_ALLOW_OQS_PROVIDER pqc_config then
           Inl (py_exc NotImplementedErrorClass (''Post-Quantum KEM algorithm '' @ algorithm @
             '' requested but OQS provider is disabled by policy.''))
         else if \<not> oqs then
           Inl (SecurityError (''Post-Quantum KEM algorithm '' @ algorithm @
             '' requested but liboqs-python is not installed.'') [])
         else Inr ())
      else if algorithm \<notin> set SUPPORTED_KEM then
        Inl (SecurityError (''Unsupported KEM algorithm: '' @ algorithm) [])
      else Inr ())"

definition dual_required :: "environ \<Rightarrow> bool" where
  "dual_required env \<longleftrightarrow> PQC_MESSAGE_SIGNATURE_POLICY (load_PqcConfig env) = ''dual_required''"

section \<open>Envelope encryption\<close>

definition get_master_kek :: bytes where
  "get_master_kek = encode ''master_kek_000000000000000000000''"

text \<open>The random values: the data key and the two nonces.\<close>

record dek_random =
  rnd_dek :: bytes
  rnd_nonce_dek :: bytes
  rnd_nonce_kek :: bytes

definition encrypt_envelope :: "crypto \<Rightarrow> jobj \<Rightarrow> bytes \<Rightarrow> dek_random \<Rightarrow> bytes \<times> bytes" where
  "encrypt_envelope cr payload kek rnd =
     (let payload_bytes = encode (canonical (ftext cr) (JObj payload));
          encrypted_payload = rnd_nonce_dek rnd @ aes_seal cr (rnd_dek rnd) (rnd_nonce_dek rnd) payload_bytes;
          wrapped_dek = rnd_nonce_kek rnd @ aes_seal cr kek (rnd_nonce_kek rnd) (rnd_dek rnd)
      in (encrypted_payload, wrapped_dek))"

definition decrypt_envelope :: "crypto \<Rightarrow> bytes \<Rightarrow> bytes \<Rightarrow> bytes \<Rightarrow> exc + json" where
  "decrypt_envelope cr encrypted_payload wrapped_dek kek =
     rbind (aes_open cr kek (take 12 wrapped_dek) (drop 12 wrapped_dek)) (\<lambda>dek.
     rbind (aes_open cr dek (take 12 encrypted_payload) (drop 12 encrypted_payload)) (\<lambda>payload_bytes.
       (case loads (ftext cr) (decode payload_bytes) of
          None \<Rightarrow> Inl (py_exc JSONDecodeErrorClass [])
        | Some j \<Rightarrow> Inr j)))"

text \<open>The nonces of AES-GCM have 12 bytes.\<close>

definition rnd_ok :: "dek_random \<Rightarrow> bool" where
  "rnd_ok rnd \<longleftrightarrow> length (rnd_nonce_dek rnd) = 12 \<and> length (rnd_nonce_kek rnd) = 12"

lemma decrypt_encrypt:
  assumes "aead_ok cr" "float_text_ok (ftext cr)" "rnd_ok rnd" "json_ok (JObj payload)"
    and "encrypt_envelope cr payload kek rnd = (ep, wd)"
  shows "decrypt_envelope cr ep wd kek = Inr (sorted_json (JObj payload))"
  using assms
  by (auto simp: encrypt_envelope_def decrypt_envelope_def Let_def rnd_ok_def aead_ok_def
      loads_canonical simp del: sorted_json.simps json_ok.simps)

text \<open>Sorting the keys changes no look-up.\<close>

lemma map_of_sorted:
  "is_dict kvs \<Longrightarrow> sorted_json (JObj kvs) = JObj kvs' \<Longrightarrow> map_of kvs' k = map_option sorted_json (map_of kvs k)"
proof -
  assume d: "is_dict kvs" and e: "sorted_json (JObj kvs) = JObj kvs'"
  have "is_dict (map (\<lambda>kv. (fst kv, sorted_json (snd kv))) kvs)" using d by (simp add: comp_def)
  then have "map_of kvs' k = map_of (map (\<lambda>kv. (fst kv, sorted_json (snd kv))) kvs) k" using e by auto
  also have "\<dots> = map_option sorted_json (map_of kvs k)"
    by (induction kvs) auto
  finally show ?thesis .
qed

section \<open>Identities\<close>

text \<open>
  The authentication context of a gRPC call: the certificate's URI names and common names,
  each decoded from UTF-8. The first one in the trust domain is the caller's SPIFFE id.
\<close>

record auth_context =
  x509_san_uri :: "str list"
  x509_common_name :: "str list"

definition extract_spiffe_id :: "auth_context \<Rightarrow> str option" where
  "extract_spiffe_id ctx =
     (case find (\<lambda>u. startswith u ''spiffe://distributed-ai.local/'') (x509_san_uri ctx) of
        Some u \<Rightarrow> Some u
      | None \<Rightarrow> find (\<lambda>u. startswith u ''spiffe://distributed-ai.local/'') (x509_common_name ctx))"

definition authorize_node :: "str option \<Rightarrow> str \<Rightarrow> bool" where
  "authorize_node spiffe_id expected_node_id \<longleftrightarrow>
     truthy spiffe_id \<and> the spiffe_id = ''spiffe://distributed-ai.local/node/'' @ expected_node_id"

definition authorize_scheduler :: "str option \<Rightarrow> bool" where
  "authorize_scheduler spiffe_id \<longleftrightarrow>
     truthy spiffe_id \<and> the spiffe_id = ''spiffe://distributed-ai.local/scheduler/master''"

definition authorize_gateway :: "str option \<Rightarrow> bool" where
  "authorize_gateway spiffe_id \<longleftrightarrow>
     truthy spiffe_id \<and> startswith (the spiffe_id) ''spiffe://distributed-ai.local/gateway/''"

lemma authorize_node_iff: "authorize_node s n \<longleftrightarrow> s = Some (''spiffe://distributed-ai.local/node/'' @ n)"
  by (cases s) (auto simp: authorize_node_def)

lemma authorize_scheduler_iff: "authorize_scheduler s \<longleftrightarrow> s = Some ''spiffe://distributed-ai.local/scheduler/master''"
  by (cases s) (auto simp: authorize_scheduler_def)

lemma authorize_gateway_iff: "authorize_gateway s \<longleftrightarrow> (\<exists>g. s = Some (''spiffe://distributed-ai.local/gateway/'' @ g))"
  by (cases s) (auto simp: authorize_gateway_def startswith_iff)

section \<open>A toy instance of the primitives\<close>

text \<open>
  Concrete functions that satisfy the laws, for the witnesses: sealing appends the key, the
  public key text of a secret key is its hexadecimal form, a signature is the key followed by
  the message, the hash is the identity.
\<close>

definition toy_open :: "bytes \<Rightarrow> bytes \<Rightarrow> bytes \<Rightarrow> exc + bytes" where
  "toy_open key nonce ct =
     (if drop (length ct - length key) ct = key then Inr (take (length ct - length key) ct)
      else Inl (py_exc InvalidTagClass []))"

definition toy_crypto :: crypto where
  "toy_crypto =
     \<lparr>ed_sign = (\<lambda>sk msg. sk @ msg),
      ed_load = (\<lambda>pem. case fromhex pem of
         None \<Rightarrow> Inl (py_exc ValueErrorClass []) | Some sk \<Rightarrow> Inr ()),
      ed_verify = (\<lambda>pem sig msg. case fromhex pem of
         None \<Rightarrow> Inl (py_exc ValueErrorClass [])
       | Some sk \<Rightarrow> if sig = sk @ msg then Inr () else Inl (py_exc InvalidSignatureClass [])),
      ed_pem = hex,
      aes_seal = (\<lambda>key nonce msg. msg @ key),
      aes_open = toy_open,
      pq_sign = (\<lambda>alg sk msg. sk @ msg),
      sha256 = id,
      ftext = fraction_text\<rparr>"

lemma toy_ok: "aead_ok toy_crypto" "signing_ok toy_crypto" "float_text_ok (ftext toy_crypto)"
  by (simp_all add: toy_crypto_def aead_ok_def toy_open_def signing_ok_def float_text_ok_fraction)

section \<open>Properties\<close>

text \<open>
  C30: envelopes are opened to what was sealed. For every payload, decrypting an encrypted
  envelope with the same key-encryption key returns the payload, every key with its value (up
  to the order of the keys, which the canonical form sorts).
\<close>

theorem envelope_roundtrip:
  assumes "aead_ok cr" "float_text_ok (ftext cr)" "rnd_ok rnd" "json_ok (JObj payload)"
    and "encrypt_envelope cr payload kek rnd = (ep, wd)"
  shows "\<exists>payload'. decrypt_envelope cr ep wd kek = Inr (JObj payload') \<and>
    map_of payload' k = map_option sorted_json (map_of payload k)"
proof -
  obtain kvs' where s: "sorted_json (JObj payload) = JObj kvs'" by simp
  then have "map_of kvs' k = map_option sorted_json (map_of payload k)"
    using assms(4) by (intro map_of_sorted) simp_all
  then show ?thesis using decrypt_encrypt [OF assms] s by auto
qed

theorem envelope_roundtrip_witness:
  "\<exists>payload'. decrypt_envelope toy_crypto
       (fst (encrypt_envelope toy_crypto [(''status'', JStr ''success'')] get_master_kek
          \<lparr>rnd_dek = [7], rnd_nonce_dek = replicate 12 1, rnd_nonce_kek = replicate 12 2\<rparr>))
       (snd (encrypt_envelope toy_crypto [(''status'', JStr ''success'')] get_master_kek
          \<lparr>rnd_dek = [7], rnd_nonce_dek = replicate 12 1, rnd_nonce_kek = replicate 12 2\<rparr>))
       get_master_kek = Inr (JObj payload') \<and> map_of payload' ''status'' = Some (JStr ''success'')"
proof -
  let ?r = "\<lparr>rnd_dek = [7], rnd_nonce_dek = replicate 12 1, rnd_nonce_kek = replicate 12 2\<rparr>"
  have "rnd_ok ?r" "json_ok (JObj [(''status'', JStr ''success'')])" by (simp_all add: rnd_ok_def)
  from envelope_roundtrip [OF toy_ok(1,3) this prod.collapse [symmetric], of get_master_kek "''status''"]
  show ?thesis by simp
qed

text \<open>
  Roles do not overlap. An identity authorised as the scheduler is no gateway and no node;
  a gateway is no node; and an identity is authorised for at most one node.
\<close>

lemma roles_disjoint:
  "\<not> (authorize_scheduler s \<and> authorize_gateway s) \<and> \<not> (authorize_scheduler s \<and> authorize_node s n) \<and>
   \<not> (authorize_gateway s \<and> authorize_node s n) \<and> (authorize_node (Some (''spiffe://distributed-ai.local/node/'' @ n)) m \<longleftrightarrow> m = n) \<and>
   \<not> authorize_scheduler None \<and> \<not> authorize_gateway None \<and> \<not> authorize_node None n"
  by (auto simp: authorize_node_iff authorize_scheduler_iff authorize_gateway_iff)

text \<open>
  The algorithm policy fails closed. A signature algorithm is accepted exactly when it is
  Ed25519 or ECDSA-P256, or a listed post-quantum algorithm while the environment allows the
  OQS provider and the library is present; the same holds for key encapsulation.
\<close>

lemma algorithm_policy_exact:
  "(validate_signature_algorithm env oqs alg = Inr () \<longleftrightarrow>
      alg \<in> {''Ed25519'', ''ECDSA_P256''} \<or>
      alg \<in> {''ML-DSA-44'', ''ML-DSA-65'', ''ML-DSA-87''} \<and> oqs \<and>
        (\<exists>v. env ''PQC_ALLOW_OQS_PROVIDER'' = Some v \<and> lower v = ''true'')) \<and>
   (validate_kem_algorithm env oqs alg = Inr () \<longleftrightarrow>
      alg = ''X25519'' \<or>
      alg \<in> {''ML-KEM-512'', ''ML-KEM-768'', ''ML-KEM-1024''} \<and> oqs \<and>
        (\<exists>v. env ''PQC_ALLOW_OQS_PROVIDER'' = Some v \<and> lower v = ''true''))"
proof -
  have f: "lower ''false'' \<noteq> ''true''" by code_simp
  have a: "PQC_ALLOW_OQS_PROVIDER (load_PqcConfig env) \<longleftrightarrow>
      (\<exists>v. env ''PQC_ALLOW_OQS_PROVIDER'' = Some v \<and> lower v = ''true'')"
    using f by (auto simp: load_PqcConfig_def getenv_def split: option.split)
  show ?thesis
    unfolding validate_signature_algorithm_def validate_kem_algorithm_def Let_def a
    by (auto simp: SUPPORTED_SIGNATURES_def PQ_SIGNATURES_def SUPPORTED_KEM_def PQ_KEM_def)
qed

end
