(* ===== verification/EtcdState.thy ===== *)
theory EtcdState
  imports Contracts
begin

text \<open>
  The authoritative state: \<open>SimulatedEtcdProvider\<close> of \<open>common/state.py\<close>, a key/value
  store with compare-and-swap and leases. Every method runs under one re-entrant lock, so a
  method is one atomic step; an execution of the threads that share the provider is a list
  of such steps with the clock each of them reads (\<open>etcd_run\<close>).

  The locales \<open>kv_store\<close> and \<open>cas_store\<close> are the interface its clients rely on (the
  supply-chain registry, the scheduler's election, the audit ledger's checkpoints); both are
  interpreted on the provider's operations. The lemmas after them are the provider's own
  contract: lease identifiers are never reused, and a lease that is not valid never becomes
  valid again.
\<close>

record etcd =
  kv :: "str \<rightharpoonup> str"
  leases :: "int \<rightharpoonup> pyfloat"
  lease_id_counter :: int

definition new_etcd :: etcd where
  "new_etcd = \<lparr>kv = Map.empty, leases = Map.empty, lease_id_counter = 1\<rparr>"

definition etcd_clear :: "etcd \<Rightarrow> etcd" where
  "etcd_clear e = e\<lparr>kv := Map.empty, leases := Map.empty, lease_id_counter := 1\<rparr>"

definition etcd_put :: "str \<Rightarrow> str \<Rightarrow> etcd \<Rightarrow> etcd" where
  "etcd_put key val e = e\<lparr>kv := (kv e)(key \<mapsto> val)\<rparr>"

definition etcd_get :: "str \<Rightarrow> etcd \<Rightarrow> str option" where
  "etcd_get key e = kv e key"

definition etcd_delete :: "str \<Rightarrow> etcd \<Rightarrow> etcd" where
  "etcd_delete key e = (if kv e key = None then e else e\<lparr>kv := (kv e)(key := None)\<rparr>)"

definition grant_lease :: "int \<Rightarrow> pyfloat \<Rightarrow> etcd \<Rightarrow> int \<times> etcd" where
  "grant_lease ttl now e =
     (let lease_id = lease_id_counter e;
          expiry = fadd now (of_int ttl)
      in (lease_id,
          e\<lparr>leases := (leases e)(lease_id \<mapsto> expiry), lease_id_counter := lease_id + 1\<rparr>))"

definition revoke_lease :: "int \<Rightarrow> etcd \<Rightarrow> etcd" where
  "revoke_lease lease_id e =
     (if leases e lease_id = None then e else e\<lparr>leases := (leases e)(lease_id := None)\<rparr>)"

text \<open>An expired lease is removed when it is found.\<close>

definition is_lease_valid :: "int \<Rightarrow> pyfloat \<Rightarrow> etcd \<Rightarrow> bool \<times> etcd" where
  "is_lease_valid lease_id now e =
     (case leases e lease_id of
        None \<Rightarrow> (False, e)
      | Some expiry \<Rightarrow>
          if now > expiry then (False, e\<lparr>leases := (leases e)(lease_id := None)\<rparr>)
          else (True, e))"

definition put_with_lease :: "str \<Rightarrow> str \<Rightarrow> int \<Rightarrow> pyfloat \<Rightarrow> etcd \<Rightarrow> bool \<times> etcd" where
  "put_with_lease key val lease_id now e =
     (case is_lease_valid lease_id now e of
        (False, e1) \<Rightarrow> (False, e1)
      | (True, e1) \<Rightarrow> (True, e1\<lparr>kv := (kv e1)(key \<mapsto> val)\<rparr>))"

text \<open>The swap itself, after the optional lease check.\<close>

definition swap_key :: "str \<Rightarrow> str option \<Rightarrow> str \<Rightarrow> etcd \<Rightarrow> bool \<times> etcd" where
  "swap_key key expected_value new_value e =
     (if kv e key = expected_value then (True, e\<lparr>kv := (kv e)(key \<mapsto> new_value)\<rparr>)
      else (False, e))"

definition compare_and_swap ::
    "str \<Rightarrow> str option \<Rightarrow> str \<Rightarrow> int option \<Rightarrow> pyfloat \<Rightarrow> etcd \<Rightarrow> bool \<times> etcd" where
  "compare_and_swap key expected_value new_value lease_id now e =
     (case lease_id of
        None \<Rightarrow> swap_key key expected_value new_value e
      | Some lid \<Rightarrow>
          (case is_lease_valid lid now e of
             (False, e1) \<Rightarrow> (False, e1)
           | (True, e1) \<Rightarrow> swap_key key expected_value new_value e1))"

lemmas etcd_defs = etcd_put_def etcd_get_def etcd_delete_def grant_lease_def revoke_lease_def
  is_lease_valid_def put_with_lease_def swap_key_def compare_and_swap_def etcd_clear_def

section \<open>The interface of the store\<close>

locale kv_store =
  fixes put :: "'k \<Rightarrow> 'v \<Rightarrow> 's \<Rightarrow> 's"
    and get :: "'k \<Rightarrow> 's \<Rightarrow> 'v option"
    and del :: "'k \<Rightarrow> 's \<Rightarrow> 's"
  assumes get_put: "get k (put k' v s) = (if k = k' then Some v else get k s)"
    and get_del: "get k (del k' s) = (if k = k' then None else get k s)"
begin

lemma get_put_same [simp]: "get k (put k v s) = Some v"
  by (simp add: get_put)

lemma get_put_other: "k \<noteq> k' \<Longrightarrow> get k (put k' v s) = get k s"
  by (simp add: get_put)

text \<open>A sequence of writes: the last one to a key wins, the other keys keep their values.\<close>

lemma get_puts:
  "get k (fold (\<lambda>(k', v). put k' v) ws s) = (case map_of (rev ws) k of None \<Rightarrow> get k s | Some v \<Rightarrow> Some v)"
  by (induction ws arbitrary: s rule: rev_induct) (auto simp: get_put)

lemma get_puts_other: "k \<notin> fst ` set ws \<Longrightarrow> get k (fold (\<lambda>(k', v). put k' v) ws s) = get k s"
  by (induction ws arbitrary: s) (auto simp: get_put)

lemmas store_specs = get_put get_del

end

locale cas_store = kv_store +
  fixes cas :: "'k \<Rightarrow> 'v option \<Rightarrow> 'v \<Rightarrow> 's \<Rightarrow> bool \<times> 's"
  assumes cas_hit: "get k s = x \<Longrightarrow> cas k x v s = (True, put k v s)"
    and cas_miss: "get k s \<noteq> x \<Longrightarrow> cas k x v s = (False, s)"
begin

lemma cas_iff: "fst (cas k x v s) \<longleftrightarrow> get k s = x"
  by (cases "get k s = x") (simp_all add: cas_hit cas_miss)

lemma cas_get: "get k (snd (cas k x v s)) = (if get k s = x then Some v else get k s)"
  by (cases "get k s = x") (simp_all add: cas_hit cas_miss)

text \<open>A key created by one compare-and-swap from "absent" is not created by a second one.\<close>

lemma create_once: "cas k None v s = (True, s1) \<Longrightarrow> get k s2 = get k s1 \<Longrightarrow> \<not> fst (cas k None w s2)"
  by (cases "get k s = None") (auto simp: cas_hit cas_miss cas_iff)

end

interpretation etcd_kv: kv_store etcd_put etcd_get etcd_delete
  by unfold_locales (auto simp: etcd_defs)

interpretation etcd_cas: cas_store etcd_put etcd_get etcd_delete swap_key
  by unfold_locales (auto simp: etcd_defs)

lemma etcd_get_new [simp]: "etcd_get k new_etcd = None"
  by (simp add: etcd_get_def new_etcd_def)

section \<open>Frame properties\<close>

lemma get_is_lease_valid [simp, frame]: "etcd_get k (snd (is_lease_valid l now e)) = etcd_get k e"
  by (auto simp: etcd_defs split: option.splits)

lemma get_grant_lease [simp, frame]: "etcd_get k (snd (grant_lease ttl now e)) = etcd_get k e"
  by (simp add: etcd_defs Let_def)

lemma get_revoke_lease [simp, frame]: "etcd_get k (revoke_lease l e) = etcd_get k e"
  by (simp add: etcd_defs)

lemma leases_put [simp, frame]: "leases (etcd_put k v e) = leases e"
  "leases (etcd_delete k e) = leases e" "leases (snd (swap_key k x v e)) = leases e"
  by (simp_all add: etcd_defs)

lemma counter_frame [simp, frame]:
  "lease_id_counter (etcd_put k v e) = lease_id_counter e"
  "lease_id_counter (etcd_delete k e) = lease_id_counter e"
  "lease_id_counter (snd (swap_key k x v e)) = lease_id_counter e"
  "lease_id_counter (revoke_lease l e) = lease_id_counter e"
  "lease_id_counter (snd (is_lease_valid l now e)) = lease_id_counter e"
  by (auto simp: etcd_defs split: option.splits)

lemma counter_compare_and_swap [simp, frame]:
  "lease_id_counter (snd (compare_and_swap k x v l now e)) = lease_id_counter e"
  by (auto simp: etcd_defs split: option.splits)

text \<open>A compare-and-swap with a lease is one without it after the lease check.\<close>

lemma compare_and_swap_eq:
  "compare_and_swap k x v (Some l) now e =
     (if fst (is_lease_valid l now e) then swap_key k x v e
      else (False, snd (is_lease_valid l now e)))"
  by (auto simp: compare_and_swap_def is_lease_valid_def split: option.splits)

lemma get_compare_and_swap:
  "etcd_get k' (snd (compare_and_swap k x v l now e)) =
     (if fst (compare_and_swap k x v l now e) \<and> k' = k then Some v else etcd_get k' e)"
  by (auto simp: etcd_defs split: option.splits)

lemma compare_and_swap_TrueD:
  "compare_and_swap k x v l now e = (True, e') \<Longrightarrow>
    etcd_get k e = x \<and> e' = etcd_put k v e \<and> (\<forall>i. l = Some i \<longrightarrow> fst (is_lease_valid i now e))"
  by (auto simp: etcd_defs split: option.splits if_splits)

section \<open>Executions\<close>

text \<open>
  One atomic method call of some thread. \<open>clear\<close> is for tests only and is left out: it
  would restart the lease counter.
\<close>

datatype etcd_op =
    Put str str
  | Delete str
  | Grant int
  | Revoke int
  | Check int
  | PutLease str str int
  | CAS str "str option" str "int option"

fun etcd_step :: "pyfloat \<Rightarrow> etcd_op \<Rightarrow> etcd \<Rightarrow> etcd" where
  "etcd_step now (Put k v) e = etcd_put k v e"
| "etcd_step now (Delete k) e = etcd_delete k e"
| "etcd_step now (Grant ttl) e = snd (grant_lease ttl now e)"
| "etcd_step now (Revoke l) e = revoke_lease l e"
| "etcd_step now (Check l) e = snd (is_lease_valid l now e)"
| "etcd_step now (PutLease k v l) e = snd (put_with_lease k v l now e)"
| "etcd_step now (CAS k x v l) e = snd (compare_and_swap k x v l now e)"

text \<open>\<open>etcd_run t e t' e'\<close>: from \<open>e\<close> at time \<open>t\<close> some steps lead to \<open>e'\<close> at time \<open>t'\<close>; the clock does not go back.\<close>

inductive etcd_run :: "pyfloat \<Rightarrow> etcd \<Rightarrow> pyfloat \<Rightarrow> etcd \<Rightarrow> bool" where
  idle: "t \<le> t' \<Longrightarrow> etcd_run t e t' e"
| step: "etcd_run t e t1 e1 \<Longrightarrow> t1 \<le> t2 \<Longrightarrow> etcd_run t e t2 (etcd_step t2 op e1)"

inductive_cases etcd_runE: "etcd_run t e t' e'"

lemma etcd_run_time: "etcd_run t e t' e' \<Longrightarrow> t \<le> t'"
  by (induction rule: etcd_run.induct) auto

lemma etcd_run_refl [simp, intro]: "etcd_run t e t e"
  by (rule etcd_run.idle) simp

lemma etcd_run_one: "t \<le> t' \<Longrightarrow> etcd_run t e t' (etcd_step t' op e)"
  by (rule etcd_run.step [OF etcd_run_refl])

text \<open>Well-formed leases: every identifier in the table was issued by the counter.\<close>

definition leases_wf :: "etcd \<Rightarrow> bool" where
  "leases_wf e \<longleftrightarrow> 1 \<le> lease_id_counter e \<and>
     (\<forall>l. leases e l \<noteq> None \<longrightarrow> 1 \<le> l \<and> l < lease_id_counter e)"

lemma leases_wf_new: "leases_wf new_etcd"
  by (simp add: leases_wf_def new_etcd_def)

lemma leases_wf_step: "leases_wf e \<Longrightarrow> leases_wf (etcd_step now op e)"
  by (cases op) (auto simp: leases_wf_def etcd_defs Let_def split: option.splits if_splits)

lemma leases_wf_run: "etcd_run t e t' e' \<Longrightarrow> leases_wf e \<Longrightarrow> leases_wf e'"
  by (induction rule: etcd_run.induct) (auto intro: leases_wf_step)

text \<open>A lease once issued keeps its expiry or disappears; the counter only grows.\<close>

lemma step_leases:
  "l < lease_id_counter e \<Longrightarrow>
    leases (etcd_step now op e) l = leases e l \<or> leases (etcd_step now op e) l = None"
  by (cases op) (auto simp: etcd_defs Let_def split: option.splits if_splits)

lemma step_counter: "lease_id_counter e \<le> lease_id_counter (etcd_step now op e)"
  by (cases op) (auto simp: etcd_defs Let_def split: option.splits if_splits)

lemma run_counter: "etcd_run t e t' e' \<Longrightarrow> lease_id_counter e \<le> lease_id_counter e'"
  by (induction rule: etcd_run.induct) (auto intro: order_trans step_counter)

lemma run_leases:
  "etcd_run t e t' e' \<Longrightarrow> l < lease_id_counter e \<Longrightarrow> leases e' l = leases e l \<or> leases e' l = None"
proof (induction rule: etcd_run.induct)
  case (step t e t1 e1 t2 op)
  have "l < lease_id_counter e1" using run_counter [OF step.hyps(1)] step.prems by simp
  from step_leases [OF this, of t2 op] step.IH [OF step.prems] show ?case by auto
qed simp

text \<open>The lease does not authorise anything at \<open>t\<close> or later.\<close>

definition lease_dead :: "int \<Rightarrow> pyfloat \<Rightarrow> etcd \<Rightarrow> bool" where
  "lease_dead l t e \<longleftrightarrow> l < lease_id_counter e \<and>
     (case leases e l of None \<Rightarrow> True | Some x \<Rightarrow> x < t)"

lemma lease_dead_invalid: "lease_dead l t e \<Longrightarrow> \<not> fst (is_lease_valid l t e)"
  by (auto simp: lease_dead_def is_lease_valid_def split: option.splits)

lemma invalid_lease_dead:
  "l < lease_id_counter e \<Longrightarrow> \<not> fst (is_lease_valid l t e) \<Longrightarrow> lease_dead l t (snd (is_lease_valid l t e))"
  by (auto simp: lease_dead_def is_lease_valid_def split: option.splits if_splits)

lemma lease_dead_run: "etcd_run t e t' e' \<Longrightarrow> lease_dead l t e \<Longrightarrow> lease_dead l t' e'"
  using run_leases [of t e t' e' l] run_counter [of t e t' e'] etcd_run_time [of t e t' e']
  by (fastforce simp: lease_dead_def split: option.splits)

lemma grant_lease_fresh:
  "leases_wf e \<Longrightarrow> grant_lease ttl now e = (l, e') \<Longrightarrow> leases e l = None \<and> leases e' l = Some (fadd now (of_int ttl))"
  by (auto simp: leases_wf_def grant_lease_def Let_def)

lemma granted_lease_expires:
  assumes "grant_lease ttl now e = (l, e1)" "etcd_run now e1 t' e'" "fadd now (of_int ttl) < t'"
  shows "lease_dead l t' e'"
proof -
  have "l < lease_id_counter e1" "leases e1 l = Some (fadd now (of_int ttl))"
    using assms(1) by (auto simp: grant_lease_def Let_def)
  then show ?thesis
    using run_leases [OF assms(2), of l] run_counter [OF assms(2)] assms(3)
    by (auto simp: lease_dead_def)
qed

text \<open>A key no step deletes or overwrites unconditionally keeps its first value.\<close>

fun writes_key :: "str \<Rightarrow> etcd_op \<Rightarrow> bool" where
  "writes_key k (Put k' v) = (k' = k)"
| "writes_key k (Delete k') = (k' = k)"
| "writes_key k (PutLease k' v l) = (k' = k)"
| "writes_key k (CAS k' x v l) = (k' = k \<and> x \<noteq> None)"
| "writes_key k _ = False"

lemma step_keeps_key:
  "\<not> writes_key k op \<Longrightarrow> etcd_get k e = Some v \<Longrightarrow> etcd_get k (etcd_step now op e) = Some v"
  by (cases op) (auto simp: etcd_defs Let_def split: option.splits if_splits)

section \<open>The provider's contract\<close>

text \<open>
  An invalid lease is invalid for ever. Once \<open>is_lease_valid\<close> has answered \<open>False\<close>
  for an issued lease, it answers \<open>False\<close> after every further execution: identifiers are
  never reissued and no operation extends or restores a lease. This is what lets a scheduler
  and a node reject a stale leader.
\<close>

lemma lease_never_revives:
  assumes "l < lease_id_counter e" and "is_lease_valid l t e = (False, e1)"
    and "etcd_run t e1 t' e'"
  shows "\<not> fst (is_lease_valid l t' e')"
proof -
  have "lease_dead l t e1" using invalid_lease_dead [of l e t] assms(1,2) by simp
  then have "lease_dead l t' e'" by (rule lease_dead_run [OF assms(3)])
  then show ?thesis by (rule lease_dead_invalid)
qed

text \<open>
  C27: the lease table is well-formed in every reachable state (each lease in it was issued
  by the counter), a grant returns a fresh identifier, and the lease it grants is valid
  exactly until the clock passes the grant time plus the time to live.
\<close>

theorem grant_lease_contract:
  assumes "leases_wf e" and "etcd_run t0 e now e0" and "grant_lease ttl now e0 = (l, e1)"
  shows "leases_wf e1 \<and> leases e0 l = None \<and>
    (\<forall>t. fst (is_lease_valid l t e1) \<longleftrightarrow> t \<le> fadd now (of_int ttl)) \<and>
    (\<forall>t' e'. etcd_run now e1 t' e' \<and> fadd now (of_int ttl) < t' \<longrightarrow> \<not> fst (is_lease_valid l t' e'))"
proof (intro conjI allI impI)
  have wf: "leases_wf e0" using leases_wf_run assms(1,2) by blast
  have e1: "e1 = etcd_step now (Grant ttl) e0" using assms(3) by simp
  show "leases_wf e1" unfolding e1 by (rule leases_wf_step [OF wf])
  show "leases e0 l = None" using grant_lease_fresh [OF wf assms(3)] by simp
  show "fst (is_lease_valid l t e1) \<longleftrightarrow> t \<le> fadd now (of_int ttl)" for t
    using grant_lease_fresh [OF wf assms(3)] by (auto simp: is_lease_valid_def)
  show "\<not> fst (is_lease_valid l t' e')" if "etcd_run now e1 t' e' \<and> fadd now (of_int ttl) < t'" for t' e'
    using that granted_lease_expires [OF assms(3)] lease_dead_invalid by blast
qed

theorem grant_lease_contract_witness:
  "leases_wf (snd (grant_lease 30 0 new_etcd)) \<and>
   fst (is_lease_valid 1 30 (snd (grant_lease 30 0 new_etcd)))"
proof -
  let ?e1 = "snd (grant_lease 30 0 new_etcd)"
  have g: "grant_lease 30 0 new_etcd = (1, ?e1)" by (simp add: grant_lease_def Let_def new_etcd_def)
  have f: "fadd 0 30 = 30" using fl_of_int [of 30] by (simp add: fadd_def)
  from grant_lease_contract [OF leases_wf_new etcd_run_refl g] f show ?thesis by simp
qed

end
