(* ===== verification/SupplyChain.thy ===== *)
theory SupplyChain
  imports Security EtcdState
begin

text \<open>
  Supply-chain assurance: \<open>common/supply_chain.py\<close>. The authoritative registry is the etcd
  state; records and policies are stored as the JSON texts pydantic writes, whose writer and
  reader are the fields of a record \<open>codecs\<close> (the reader is \<open>None\<close> where
  \<open>model_validate_json\<close> raises). The clock and the keys are arguments. The text of a library
  exception inside a message is left out.

  \<open>may_execute\<close> is the specification of the pre-execution check, one conjunct per rule;
  \<open>verify_artifact_for_execution\<close> returns a record exactly for the artifacts it admits.
\<close>

record codecs =
  dump_record :: "ApprovedArtifactRecord \<Rightarrow> str"
  parse_record :: "str \<Rightarrow> ApprovedArtifactRecord option"
  dump_policy :: "SupplyChainPolicy \<Rightarrow> str"
  parse_policy :: "str \<Rightarrow> SupplyChainPolicy option"

section \<open>Keys of the registry\<close>

definition key_model :: "str \<Rightarrow> str" where
  "key_model model_id = ''/distributed-ai/artifacts/models/'' @ model_id"

definition key_signer :: "str \<Rightarrow> str" where
  "key_signer key_id = ''/distributed-ai/ci/keys/'' @ key_id"

definition key_revocation :: "str \<Rightarrow> str" where
  "key_revocation digest = ''/distributed-ai/revocations/artifacts/'' @ digest"

definition key_policy :: str where
  "key_policy = ''/distributed-ai/policies/supply-chain''"

lemma keys_distinct [simp]:
  "key_model m \<noteq> key_signer k" "key_signer k \<noteq> key_model m"
  "key_model m \<noteq> key_revocation d" "key_revocation d \<noteq> key_model m"
  "key_signer k \<noteq> key_revocation d" "key_revocation d \<noteq> key_signer k"
  "key_model m \<noteq> key_policy" "key_policy \<noteq> key_model m"
  "key_signer k \<noteq> key_policy" "key_policy \<noteq> key_signer k"
  "key_revocation d \<noteq> key_policy" "key_policy \<noteq> key_revocation d"
  by (simp_all add: key_model_def key_signer_def key_revocation_def key_policy_def)

lemma keys_inj [simp]:
  "key_model m = key_model m' \<longleftrightarrow> m = m'" "key_signer k = key_signer k' \<longleftrightarrow> k = k'"
  "key_revocation d = key_revocation d' \<longleftrightarrow> d = d'"
  by (simp_all add: key_model_def key_signer_def key_revocation_def)

section \<open>Digests and provenance\<close>

definition quoted :: "str \<Rightarrow> str" where
  "quoted s = CHR 0x27 # s @ [CHR 0x27]"

definition is_immutable_digest :: "str \<Rightarrow> bool" where
  "is_immutable_digest digest \<longleftrightarrow> digest \<noteq> [] \<and>
     (let d = strip digest in
      lower (take 7 d) = ''sha256:'' \<and> length d = 71 \<and> list_all (\<lambda>c. hex_value c \<noteq> None) (drop 7 d))"

definition summary_json :: "(str, int) dict \<Rightarrow> json" where
  "summary_json d = JObj (map (\<lambda>(k, v). (k, JInt v)) d)"

definition canonical_provenance_bytes :: "float_text \<Rightarrow> ArtifactProvenance \<Rightarrow> bytes" where
  "canonical_provenance_bytes ft p = encode (canonical ft (JObj
     [(''artifact_name'', JStr (p_artifact_name p)),
      (''build_timestamp'', JFloat (p_build_timestamp p)),
      (''builder_identity'', JStr (p_builder_identity p)),
      (''commit_sha'', JStr (p_commit_sha p)),
      (''digest'', JStr (p_digest p)),
      (''sbom_digest'', JStr (p_sbom_digest p)),
      (''source_repo'', JStr (p_source_repo p)),
      (''vulnerabilities_summary'', summary_json (sort_key fst (p_vulnerabilities_summary p)))]))"

definition create_provenance ::
    "str \<Rightarrow> str \<Rightarrow> str \<Rightarrow> str \<Rightarrow> str \<Rightarrow> (str, int) dict option \<Rightarrow> str \<Rightarrow> pyfloat \<Rightarrow> exc + ArtifactProvenance" where
  "create_provenance artifact_name digest builder_identity commit_sha sbom_digest vulns source_repo now =
     (if \<not> is_immutable_digest digest then
        Inl (ArtifactVerificationError (''Cannot create provenance: digest '' @ quoted digest @
          '' is not a valid immutable sha256 digest'') artifact_name (Some digest) [])
      else Inr
        \<lparr>p_artifact_name = artifact_name, p_digest = lower digest, p_builder_identity = builder_identity,
         p_source_repo = source_repo, p_commit_sha = commit_sha, p_build_timestamp = now,
         p_sbom_digest = lower sbom_digest,
         p_vulnerabilities_summary =
           (case vulns of Some (v # vs) \<Rightarrow> v # vs
            | _ \<Rightarrow> [(''CRITICAL'', 0), (''HIGH'', 0), (''MEDIUM'', 0), (''LOW'', 0)])\<rparr>)"

definition sign_artifact_provenance :: "crypto \<Rightarrow> ArtifactProvenance \<Rightarrow> bytes \<Rightarrow> str" where
  "sign_artifact_provenance cr provenance signing_key =
     hex (ed_sign cr signing_key (canonical_provenance_bytes (ftext cr) provenance))"

definition verify_artifact_signature :: "crypto \<Rightarrow> ArtifactProvenance \<Rightarrow> str \<Rightarrow> str \<Rightarrow> bool" where
  "verify_artifact_signature cr provenance signature_hex public_key_pem =
     (case fromhex signature_hex of
        None \<Rightarrow> False
      | Some sig_bytes \<Rightarrow>
          (case ed_verify cr public_key_pem sig_bytes (canonical_provenance_bytes (ftext cr) provenance) of
             Inl e \<Rightarrow> False | Inr u \<Rightarrow> True))"

section \<open>The registry\<close>

definition get_supply_chain_policy :: "codecs \<Rightarrow> etcd \<Rightarrow> SupplyChainPolicy" where
  "get_supply_chain_policy co e =
     (let raw = etcd_get key_policy e in
      if truthy raw then
        (case parse_policy co (the raw) of Some p \<Rightarrow> p | None \<Rightarrow> default_SupplyChainPolicy)
      else default_SupplyChainPolicy)"

definition set_supply_chain_policy :: "codecs \<Rightarrow> SupplyChainPolicy \<Rightarrow> etcd \<Rightarrow> etcd" where
  "set_supply_chain_policy co policy e = etcd_put key_policy (dump_policy co policy) e"

definition register_approved_model ::
    "crypto \<Rightarrow> codecs \<Rightarrow> str \<Rightarrow> str \<Rightarrow> ArtifactProvenance \<Rightarrow> bytes \<Rightarrow> str \<Rightarrow> etcd \<Rightarrow>
     exc + (ApprovedArtifactRecord \<times> etcd)" where
  "register_approved_model cr co model_id digest provenance signing_key key_id e =
     (if \<not> is_immutable_digest digest then
        Inl (ArtifactVerificationError (''Cannot register model: digest '' @ quoted digest @
          '' is not an immutable digest'') model_id (Some digest) [])
      else
        (let e1 = etcd_put (key_signer key_id) (ed_pem cr signing_key) e;
             sig_hex = sign_artifact_provenance cr provenance signing_key;
             r = \<lparr>ar_model_id = model_id, ar_digest = lower digest, ar_provenance = provenance,
                  ar_signature_algorithm = ''Ed25519'', ar_signature = sig_hex,
                  ar_signing_key_id = key_id, ar_revoked = False\<rparr>
         in Inr (r, etcd_put (key_model model_id) (dump_record co r) e1)))"

definition revoke_artifact_digest :: "float_text \<Rightarrow> str \<Rightarrow> str \<Rightarrow> pyfloat \<Rightarrow> etcd \<Rightarrow> etcd" where
  "revoke_artifact_digest ft digest why now e =
     (let norm_digest = lower digest;
          revocation_payload = JObj [(''digest'', JStr norm_digest), (''revocation_time'', JFloat now),
            (''reason'', JStr why)]
      in etcd_put (key_revocation norm_digest) (default_dumps ft revocation_payload) e)"

definition is_digest_revoked :: "str \<Rightarrow> etcd \<Rightarrow> bool" where
  "is_digest_revoked digest e \<longleftrightarrow> etcd_get (key_revocation (lower digest)) e \<noteq> None"

section \<open>The pre-execution check\<close>

definition show_opt :: "str option \<Rightarrow> str" where
  "show_opt x = (case x of None \<Rightarrow> ''None'' | Some s \<Rightarrow> s)"

definition check_signature :: "crypto \<Rightarrow> SupplyChainPolicy \<Rightarrow> str \<Rightarrow> ApprovedArtifactRecord \<Rightarrow> etcd \<Rightarrow> exc + unit" where
  "check_signature cr policy model_id rcd e =
     (if sp_require_signature policy then
        (let pubkey_pem = etcd_get (key_signer (ar_signing_key_id rcd)) e in
         if \<not> truthy pubkey_pem then
           Inl (ArtifactVerificationError (''Execution rejected: signing key '' @ quoted (ar_signing_key_id rcd) @
             '' not found in control plane'') model_id (Some (ar_digest rcd)) [])
         else if \<not> verify_artifact_signature cr (ar_provenance rcd) (ar_signature rcd) (the pubkey_pem) then
           Inl (ArtifactVerificationError (''Execution rejected: signature verification failed for model '' @
             quoted model_id) model_id (Some (ar_digest rcd)) [])
         else Inr ())
      else Inr ())"

definition check_policy :: "SupplyChainPolicy \<Rightarrow> str \<Rightarrow> ApprovedArtifactRecord \<Rightarrow> exc + unit" where
  "check_policy policy model_id rcd =
     (let prov = ar_provenance rcd;
          vulns = p_vulnerabilities_summary prov;
          crit_count = dget_or vulns ''CRITICAL'' 0;
          high_count = dget_or vulns ''HIGH'' 0
      in
      if sp_allowed_builders policy \<noteq> [] \<and> p_builder_identity prov \<notin> set (sp_allowed_builders policy) then
        Inl (ArtifactVerificationError (''Execution rejected: builder identity '' @ quoted (p_builder_identity prov) @
          '' is not permitted by policy'') model_id (Some (ar_digest rcd))
          [(''builder'', JStr (p_builder_identity prov)), (''allowed'', JArr (map JStr (sp_allowed_builders policy)))])
      else if crit_count > sp_max_allowed_critical_vulns policy then
        Inl (ArtifactVerificationError (''Execution rejected: artifact contains '' @ show_int crit_count @
          '' CRITICAL vulnerabilities (max allowed: '' @ show_int (sp_max_allowed_critical_vulns policy) @ '')'')
          model_id (Some (ar_digest rcd)) [(''vulnerabilities'', summary_json vulns)])
      else if high_count > sp_max_allowed_high_vulns policy then
        Inl (ArtifactVerificationError (''Execution rejected: artifact contains '' @ show_int high_count @
          '' HIGH vulnerabilities (max allowed: '' @ show_int (sp_max_allowed_high_vulns policy) @ '')'')
          model_id (Some (ar_digest rcd)) [(''vulnerabilities'', summary_json vulns)])
      else Inr ())"

definition verify_artifact_for_execution ::
    "crypto \<Rightarrow> codecs \<Rightarrow> str \<Rightarrow> str option \<Rightarrow> etcd \<Rightarrow> exc + ApprovedArtifactRecord" where
  "verify_artifact_for_execution cr co model_id digest e =
     (let policy = get_supply_chain_policy co e in
      if sp_require_immutable_digest policy \<and> (\<not> truthy digest \<or> \<not> is_immutable_digest (the digest)) then
        Inl (ArtifactVerificationError (''Execution rejected: model reference '' @ quoted (show_opt digest) @
          '' is not an immutable digest (mutable tags disallowed)'') model_id digest [])
      else
        (let raw_record = etcd_get (key_model model_id) e in
         if \<not> truthy raw_record then
           Inl (ArtifactVerificationError (''Execution rejected: model '' @ quoted model_id @
             '' is not an approved registered artifact'') model_id digest [])
         else
           (case parse_record co (the raw_record) of
              None \<Rightarrow>
                Inl (ArtifactVerificationError (''Execution rejected: corrupted approval record for '' @
                  quoted model_id) model_id digest [])
            | Some rcd \<Rightarrow>
                if truthy digest \<and> lower (ar_digest rcd) \<noteq> lower (the digest) then
                  Inl (ArtifactVerificationError (''Execution rejected: requested digest '' @ quoted (the digest) @
                    '' does not match approved digest '' @ quoted (ar_digest rcd)) model_id digest
                    [(''approved_digest'', JStr (ar_digest rcd)), (''requested_digest'', JStr (the digest))])
                else if ar_revoked rcd \<or> is_digest_revoked (ar_digest rcd) e then
                  Inl (ArtifactVerificationError (''Execution rejected: artifact digest '' @ quoted (ar_digest rcd) @
                    '' has been revoked'') model_id (Some (ar_digest rcd)) [])
                else
                  rbind (check_signature cr policy model_id rcd e) (\<lambda>_.
                  rbind (check_policy policy model_id rcd) (\<lambda>_. Inr rcd)))))"

section \<open>The specification\<close>

text \<open>The rules of admission, each on its own, for the record \<open>rcd\<close> of the model.\<close>

definition signature_valid :: "crypto \<Rightarrow> ApprovedArtifactRecord \<Rightarrow> etcd \<Rightarrow> bool" where
  "signature_valid cr rcd e \<longleftrightarrow> (\<exists>pem sig. etcd_get (key_signer (ar_signing_key_id rcd)) e = Some pem \<and> pem \<noteq> [] \<and>
     fromhex (ar_signature rcd) = Some sig \<and>
     ed_verify cr pem sig (canonical_provenance_bytes (ftext cr) (ar_provenance rcd)) = Inr ())"

definition policy_admits :: "SupplyChainPolicy \<Rightarrow> ArtifactProvenance \<Rightarrow> bool" where
  "policy_admits policy prov \<longleftrightarrow>
     (sp_allowed_builders policy = [] \<or> p_builder_identity prov \<in> set (sp_allowed_builders policy)) \<and>
     dget_or (p_vulnerabilities_summary prov) ''CRITICAL'' 0 \<le> sp_max_allowed_critical_vulns policy \<and>
     dget_or (p_vulnerabilities_summary prov) ''HIGH'' 0 \<le> sp_max_allowed_high_vulns policy"

definition stored_record :: "codecs \<Rightarrow> str \<Rightarrow> etcd \<Rightarrow> ApprovedArtifactRecord \<Rightarrow> bool" where
  "stored_record co model_id e rcd \<longleftrightarrow>
     (\<exists>raw. etcd_get (key_model model_id) e = Some raw \<and> raw \<noteq> [] \<and> parse_record co raw = Some rcd)"

definition may_execute ::
    "crypto \<Rightarrow> codecs \<Rightarrow> str \<Rightarrow> str option \<Rightarrow> etcd \<Rightarrow> ApprovedArtifactRecord \<Rightarrow> bool" where
  "may_execute cr co model_id digest e rcd \<longleftrightarrow>
     (let policy = get_supply_chain_policy co e in
      (sp_require_immutable_digest policy \<longrightarrow> truthy digest \<and> is_immutable_digest (the digest)) \<and>
      stored_record co model_id e rcd \<and>
      (truthy digest \<longrightarrow> lower (the digest) = lower (ar_digest rcd)) \<and>
      \<not> ar_revoked rcd \<and> etcd_get (key_revocation (lower (ar_digest rcd))) e = None \<and>
      (sp_require_signature policy \<longrightarrow> signature_valid cr rcd e) \<and>
      policy_admits policy (ar_provenance rcd))"

lemma verify_artifact_signature_iff:
  "verify_artifact_signature cr p sig_hex pem \<longleftrightarrow>
     (\<exists>sig. fromhex sig_hex = Some sig \<and> ed_verify cr pem sig (canonical_provenance_bytes (ftext cr) p) = Inr ())"
  by (auto simp: verify_artifact_signature_def split: option.splits sum.splits)

lemma check_signature_iff:
  "check_signature cr policy m rcd e = Inr () \<longleftrightarrow> (sp_require_signature policy \<longrightarrow> signature_valid cr rcd e)"
  by (auto simp: check_signature_def signature_valid_def Let_def verify_artifact_signature_iff elim!: truthyE)

lemma check_policy_iff: "check_policy policy m rcd = Inr () \<longleftrightarrow> policy_admits policy (ar_provenance rcd)"
  by (auto simp: check_policy_def policy_admits_def Let_def)

lemma check_signature_Inl: "check_signature cr policy m rcd e = Inl ex \<Longrightarrow> exc_class ex = ArtifactVerificationErrorClass"
  by (auto simp: check_signature_def Let_def split: if_splits)

lemma check_policy_Inl: "check_policy policy m rcd = Inl ex \<Longrightarrow> exc_class ex = ArtifactVerificationErrorClass"
  by (auto simp: check_policy_def Let_def split: if_splits)

lemma truthy_iff: "truthy x \<longleftrightarrow> (\<exists>s. x = Some s \<and> s \<noteq> [])"
  by (cases x) auto

lemma Inr_unit_iff: "(\<exists>u. r = Inr u) \<longleftrightarrow> r = Inr ()"
  by simp

lemma verify_stored:
  assumes "etcd_get (key_model m) e = Some raw" "raw \<noteq> []" "parse_record co raw = Some r"
    and "\<not> (sp_require_immutable_digest (get_supply_chain_policy co e) \<and>
      (\<not> truthy digest \<or> \<not> is_immutable_digest (the digest)))"
  shows "\<exists>ex1 ex2. verify_artifact_for_execution cr co m digest e =
    (if truthy digest \<and> lower (ar_digest r) \<noteq> lower (the digest) then Inl ex1
     else if ar_revoked r \<or> is_digest_revoked (ar_digest r) e then Inl ex2
     else rbind (check_signature cr (get_supply_chain_policy co e) m r e) (\<lambda>_.
       rbind (check_policy (get_supply_chain_policy co e) m r) (\<lambda>_. Inr r)))"
  unfolding verify_artifact_for_execution_def Let_def assms(1,3) option.sel if_not_P [OF assms(4)]
  using assms(2) by (simp only: truthy.simps not_not if_False option.case simp_thms) (intro exI, rule refl)

lemma checks_Inr_iff:
  "rbind (check_signature cr p m r e) (\<lambda>_. rbind (check_policy p m r) (\<lambda>_. Inr r)) = Inr r' \<longleftrightarrow>
    r' = r \<and> (sp_require_signature p \<longrightarrow> signature_valid cr r e) \<and> policy_admits p (ar_provenance r)"
  using check_signature_iff [of cr p m r e] check_policy_iff [of p m r] by (auto simp: rbind_Inr_iff)

lemma verify_iff:
  "verify_artifact_for_execution cr co m digest e = Inr rcd \<longleftrightarrow> may_execute cr co m digest e rcd"
proof -
  let ?p = "get_supply_chain_policy co e"
  show ?thesis
  proof (cases "sp_require_immutable_digest ?p \<and> (\<not> truthy digest \<or> \<not> is_immutable_digest (the digest))")
    case True
    then show ?thesis by (auto simp: verify_artifact_for_execution_def may_execute_def Let_def)
  next
    case imm: False
    show ?thesis
    proof (cases "\<exists>r. stored_record co m e r")
      case True
      then obtain raw r where raw: "etcd_get (key_model m) e = Some raw" "raw \<noteq> []" "parse_record co raw = Some r"
        by (auto simp: stored_record_def)
      then have st: "stored_record co m e rcd \<longleftrightarrow> rcd = r" by (auto simp: stored_record_def)
      obtain ex1 ex2 where v: "verify_artifact_for_execution cr co m digest e =
        (if truthy digest \<and> lower (ar_digest r) \<noteq> lower (the digest) then Inl ex1
         else if ar_revoked r \<or> is_digest_revoked (ar_digest r) e then Inl ex2
         else rbind (check_signature cr ?p m r e) (\<lambda>_. rbind (check_policy ?p m r) (\<lambda>_. Inr r)))"
        using verify_stored [OF raw imm, of cr] by (elim exE)
      have "verify_artifact_for_execution cr co m digest e = Inr rcd \<longleftrightarrow>
        \<not> (truthy digest \<and> lower (ar_digest r) \<noteq> lower (the digest)) \<and>
        \<not> (ar_revoked r \<or> is_digest_revoked (ar_digest r) e) \<and>
        rcd = r \<and> (sp_require_signature ?p \<longrightarrow> signature_valid cr r e) \<and> policy_admits ?p (ar_provenance r)"
        unfolding v using checks_Inr_iff [of cr ?p m r e rcd] by (simp split: if_split)
      then show ?thesis using imm st unfolding may_execute_def Let_def is_digest_revoked_def by auto
    next
      case False
      then have n: "\<not> stored_record co m e rcd" by blast
      have "verify_artifact_for_execution cr co m digest e \<noteq> Inr rcd"
        using imm False
        by (cases "etcd_get (key_model m) e")
          (auto simp: verify_artifact_for_execution_def stored_record_def Let_def split: option.split)
      then show ?thesis using n by (simp add: may_execute_def Let_def)
    qed
  qed
qed

lemma verify_Inl:
  "verify_artifact_for_execution cr co m digest e = Inl ex \<Longrightarrow> exc_class ex = ArtifactVerificationErrorClass"
  by (auto simp: verify_artifact_for_execution_def Let_def rbind_Inl_iff
      dest: check_signature_Inl check_policy_Inl split: if_splits option.splits)

text \<open>The check reads four families of keys only.\<close>

lemma verify_frame:
  assumes "etcd_get key_policy e' = etcd_get key_policy e"
    and "\<And>m. etcd_get (key_model m) e' = etcd_get (key_model m) e"
    and "\<And>k. etcd_get (key_signer k) e' = etcd_get (key_signer k) e"
    and "\<And>d. etcd_get (key_revocation d) e' = etcd_get (key_revocation d) e"
  shows "verify_artifact_for_execution cr co m digest e' = verify_artifact_for_execution cr co m digest e"
proof -
  have "get_supply_chain_policy co e' = get_supply_chain_policy co e"
    by (simp only: get_supply_chain_policy_def assms)
  moreover have "is_digest_revoked x e' = is_digest_revoked x e" for x
    by (simp only: is_digest_revoked_def assms)
  moreover have "check_signature cr p m r e' = check_signature cr p m r e" for p r
    by (simp only: check_signature_def assms)
  ultimately show ?thesis by (simp only: verify_artifact_for_execution_def assms)
qed

text \<open>The revocation of a digest stays in the registry unless its own key is deleted.\<close>

lemma step_keeps_presence:
  "op \<noteq> Delete k \<Longrightarrow> etcd_get k e \<noteq> None \<Longrightarrow> etcd_get k (etcd_step now op e) \<noteq> None"
  by (cases op) (auto simp: etcd_defs Let_def split: option.splits if_splits)

fun etcd_steps :: "(pyfloat \<times> etcd_op) list \<Rightarrow> etcd \<Rightarrow> etcd" where
  "etcd_steps [] e = e"
| "etcd_steps ((now, op) # ops) e = etcd_steps ops (etcd_step now op e)"

lemma steps_keep_presence:
  "Delete k \<notin> snd ` set ops \<Longrightarrow> etcd_get k e \<noteq> None \<Longrightarrow> etcd_get k (etcd_steps ops e) \<noteq> None"
proof (induction ops arbitrary: e)
  case (Cons p ops)
  obtain now op where p: "p = (now, op)" by fastforce
  have "etcd_get k (etcd_step now op e) \<noteq> None"
    using Cons.prems p by (intro step_keeps_presence) auto
  then show ?case using Cons p by simp
qed simp

lemma revoked_present: "etcd_get (key_revocation (lower d)) (revoke_artifact_digest ft d why now e) \<noteq> None"
  by (simp add: revoke_artifact_digest_def Let_def)

lemma get_revoke_other: "k \<noteq> key_revocation (lower d) \<Longrightarrow> etcd_get k (revoke_artifact_digest ft d why now e) = etcd_get k e"
  by (simp add: revoke_artifact_digest_def Let_def etcd_kv.get_put_other)

lemma sorted_obj_lookup:
  assumes "sorted_json (JObj a) = sorted_json (JObj b)" "is_dict a" "is_dict b"
  shows "map_option sorted_json (map_of a k) = map_option sorted_json (map_of b k)"
proof -
  obtain c where c: "sorted_json (JObj a) = JObj c" by simp
  then have "sorted_json (JObj b) = JObj c" using assms(1) by simp
  then show ?thesis using map_of_sorted [OF assms(2) c, of k] map_of_sorted [OF assms(3), of c k] by simp
qed

lemma map_of_JInt: "map_of (map (\<lambda>(k, v). (k, JInt v)) d) k = map_option JInt (map_of d k)"
  by (induction d) auto

lemma summary_inj:
  assumes "is_dict a" "is_dict b"
    and "sorted_json (summary_json (sort_key fst a)) = sorted_json (summary_json (sort_key fst b))"
  shows "map_of a = map_of b"
proof
  fix k
  let ?f = "map (\<lambda>(k, v). (k, JInt v))"
  have d: "is_dict (?f (sort_key fst x))" "map_of (sort_key fst x) = map_of x" if "is_dict x" for x :: "(str, int) dict"
    using that map_of_sort_key [OF that] by (auto simp: comp_def case_prod_beta distinct_map)
  have "map_option sorted_json (map_of (?f (sort_key fst a)) k) = map_option sorted_json (map_of (?f (sort_key fst b)) k)"
    using assms d by (intro sorted_obj_lookup) (simp_all add: summary_json_def)
  then have "map_option JInt (map_of a k) = map_option JInt (map_of b k)"
    using d(2) assms by (simp add: map_of_JInt option.map_comp comp_def)
  then show "map_of a k = map_of b k"
    by (cases "map_of a k"; cases "map_of b k") auto
qed

section \<open>Sample values\<close>

definition sample_provenance :: ArtifactProvenance where
  "sample_provenance = \<lparr>p_artifact_name = ''resnet50'', p_digest = ''sha256:'' @ replicate 64 (CHR ''a''),
     p_builder_identity = ''spiffe://distributed-ai.local/ci-builder'', p_source_repo = ''repo'',
     p_commit_sha = ''c0ffee'', p_build_timestamp = 1, p_sbom_digest = ''sha256:e3'',
     p_vulnerabilities_summary = [(''HIGH'', 0), (''CRITICAL'', 0)]\<rparr>"

definition sample_digest :: str where
  "sample_digest = ''sha256:'' @ replicate 64 (CHR ''a'')"

definition other_digest :: str where
  "other_digest = ''sha256:'' @ replicate 64 (CHR ''b'')"

definition sample_record :: ApprovedArtifactRecord where
  "sample_record = \<lparr>ar_model_id = ''resnet50'', ar_digest = sample_digest, ar_provenance = sample_provenance,
     ar_signature_algorithm = ''Ed25519'', ar_signature = sign_artifact_provenance toy_crypto sample_provenance [1],
     ar_signing_key_id = ''ci-1'', ar_revoked = False\<rparr>"

text \<open>A codec that writes and reads one record.\<close>

definition one_record_codecs :: "ApprovedArtifactRecord \<Rightarrow> codecs" where
  "one_record_codecs r = \<lparr>dump_record = (\<lambda>_. ''r''), parse_record = (\<lambda>s. if s = ''r'' then Some r else None),
     dump_policy = (\<lambda>_. ''p''), parse_policy = (\<lambda>_. None)\<rparr>"

lemma sample_digest_ok: "is_immutable_digest sample_digest" "lower sample_digest = sample_digest"
  by code_simp+

lemma sample_fields: "ar_digest sample_record = sample_digest" "\<not> ar_revoked sample_record"
    "ar_provenance sample_record = sample_provenance" "sample_digest \<noteq> []"
  by (simp_all add: sample_record_def sample_digest_def)

lemma policy_default: "etcd_get key_policy e = None \<Longrightarrow> get_supply_chain_policy co e = default_SupplyChainPolicy"
  by (simp add: get_supply_chain_policy_def Let_def)

lemma sample_admitted: "policy_admits default_SupplyChainPolicy sample_provenance"
  by (simp add: policy_admits_def default_SupplyChainPolicy_def sample_provenance_def dget_or_def)

section \<open>Properties\<close>

text \<open>
  C3: the pre-execution check is exactly its rules. \<open>verify_artifact_for_execution\<close> returns a
  record when and only when it is the stored record of the model and every rule admits it
  (immutable digest, digest match, no revocation, signature under the registered key, builder
  and vulnerability policy); in every other case it raises \<open>ArtifactVerificationError\<close>.
\<close>

theorem pre_execution_check_exact:
  "(verify_artifact_for_execution cr co m digest e = Inr rcd \<longleftrightarrow> may_execute cr co m digest e rcd) \<and>
   (case verify_artifact_for_execution cr co m digest e of
      Inl ex \<Rightarrow> exc_class ex = ArtifactVerificationErrorClass | Inr r \<Rightarrow> may_execute cr co m digest e r)"
  using verify_iff [of cr co m digest e] verify_Inl [of cr co m digest e]
  by (auto split: sum.split)

text \<open>
  A revoked digest never runs again. After \<open>revoke_artifact_digest\<close>, whatever the other
  clients do to the registry short of deleting the revocation entry itself (re-registering
  the model, changing keys or the policy, lease traffic), no model runs under that digest,
  written in upper or lower case.
\<close>

lemma revocation_is_permanent:
  assumes "Delete (key_revocation (lower d)) \<notin> snd ` set ops" "d' \<noteq> []" "lower d' = lower d"
  shows "\<exists>ex. verify_artifact_for_execution cr co m (Some d')
    (etcd_steps ops (revoke_artifact_digest ft d why now e)) = Inl ex \<and>
    exc_class ex = ArtifactVerificationErrorClass"
proof -
  let ?e = "etcd_steps ops (revoke_artifact_digest ft d why now e)"
  have p: "etcd_get (key_revocation (lower d)) ?e \<noteq> None"
    by (rule steps_keep_presence [OF assms(1) revoked_present])
  have "\<not> may_execute cr co m (Some d') ?e r" for r
    using p assms(2,3) by (auto simp: may_execute_def Let_def)
  then have "\<forall>r. verify_artifact_for_execution cr co m (Some d') ?e \<noteq> Inr r"
    using verify_iff by blast
  then show ?thesis
    using verify_Inl by (cases "verify_artifact_for_execution cr co m (Some d') ?e") auto
qed

text \<open>
  What is registered can run. After \<open>register_approved_model\<close> with a provenance the
  policy admits and a digest that is not revoked, the check passes for the registered digest
  and returns the registered record.
\<close>

lemma registered_model_runs:
  assumes "signing_ok cr" "ed_pem cr sk \<noteq> []"
    and "register_approved_model cr co m digest prov sk key_id e = Inr (r, e')"
    and "parse_record co (dump_record co r) = Some r" "dump_record co r \<noteq> []"
    and "policy_admits (get_supply_chain_policy co e) prov"
    and "\<not> is_digest_revoked digest e"
  shows "verify_artifact_for_execution cr co m (Some digest) e' = Inr r"
proof -
  have imm: "is_immutable_digest digest" "digest \<noteq> []"
    and r: "ar_digest r = lower digest" "ar_provenance r = prov" "\<not> ar_revoked r" "ar_signing_key_id r = key_id"
      "ar_signature r = sign_artifact_provenance cr prov sk"
    and e': "e' = etcd_put (key_model m) (dump_record co r) (etcd_put (key_signer key_id) (ed_pem cr sk) e)"
    using assms(3) by (auto simp: register_approved_model_def Let_def is_immutable_digest_def split: if_splits)
  have g: "etcd_get k e' = (if k = key_model m then Some (dump_record co r)
      else if k = key_signer key_id then Some (ed_pem cr sk) else etcd_get k e)" for k
    unfolding e' by (simp add: etcd_kv.get_put)
  have "get_supply_chain_policy co e' = get_supply_chain_policy co e"
    by (simp add: get_supply_chain_policy_def g)
  moreover have "stored_record co m e' r" using assms(4,5) by (simp add: stored_record_def g)
  moreover have "signature_valid cr r e'"
    using assms(1,2) r by (simp add: signature_valid_def g sign_artifact_provenance_def signing_ok_def)
  ultimately have "may_execute cr co m (Some digest) e' r"
    using imm r assms(6,7) by (simp add: may_execute_def Let_def g is_digest_revoked_def)
  then show ?thesis by (simp add: verify_iff)
qed

text \<open>
  A signature binds every field of the provenance. Two provenances (with floats as build
  times and summaries without repeated keys) have the same canonical bytes exactly when all
  their fields agree, the vulnerability summaries as mappings.
\<close>

lemma canonical_provenance_injective:
  assumes "float_text_ok ft" "is_float (p_build_timestamp p)" "is_float (p_build_timestamp q)"
    and "is_dict (p_vulnerabilities_summary p)" "is_dict (p_vulnerabilities_summary q)"
    and "canonical_provenance_bytes ft p = canonical_provenance_bytes ft q"
  shows "p\<lparr>p_vulnerabilities_summary := []\<rparr> = q\<lparr>p_vulnerabilities_summary := []\<rparr> \<and>
    map_of (p_vulnerabilities_summary p) = map_of (p_vulnerabilities_summary q)"
proof -
  let ?d = "\<lambda>p. [(''artifact_name'', JStr (p_artifact_name p)),
      (''build_timestamp'', JFloat (p_build_timestamp p)),
      (''builder_identity'', JStr (p_builder_identity p)),
      (''commit_sha'', JStr (p_commit_sha p)),
      (''digest'', JStr (p_digest p)),
      (''sbom_digest'', JStr (p_sbom_digest p)),
      (''source_repo'', JStr (p_source_repo p)),
      (''vulnerabilities_summary'', summary_json (sort_key fst (p_vulnerabilities_summary p)))]"
  have ok: "json_ok (JObj (?d x))" if "is_float (p_build_timestamp x)" "is_dict (p_vulnerabilities_summary x)" for x
    using that by (auto simp: summary_json_def comp_def case_prod_beta list_all_iff distinct_map)
  have "sorted_json (JObj (?d p)) = sorted_json (JObj (?d q))"
    using assms(6) canonical_inj [OF assms(1) ok [OF assms(2,4)] ok [OF assms(3,5)]]
    by (simp only: canonical_provenance_bytes_def encode_inj)
  from sorted_obj_lookup [OF this]
  have l: "map_option sorted_json (map_of (?d p) k) = map_option sorted_json (map_of (?d q) k)" for k by simp
  have "p_artifact_name p = p_artifact_name q" "p_build_timestamp p = p_build_timestamp q"
    "p_builder_identity p = p_builder_identity q" "p_commit_sha p = p_commit_sha q"
    "p_digest p = p_digest q" "p_sbom_digest p = p_sbom_digest q" "p_source_repo p = p_source_repo q"
    using l [of "''artifact_name''"] l [of "''build_timestamp''"] l [of "''builder_identity''"]
      l [of "''commit_sha''"] l [of "''digest''"] l [of "''sbom_digest''"] l [of "''source_repo''"] by simp_all
  moreover have "map_of (p_vulnerabilities_summary p) = map_of (p_vulnerabilities_summary q)"
    using l [of "''vulnerabilities_summary''"] assms(4,5) by (intro summary_inj) simp_all
  ultimately show ?thesis by simp
qed

text \<open>
  The record's digest is not bound by its signature. Take an artifact that passes the
  check, and overwrite its stored record by one with another (unrevoked, immutable) digest,
  leaving provenance and signature as they are: the check passes for the other digest, although
  the signed provenance names the old one.
\<close>

lemma record_digest_unbound:
  assumes "verify_artifact_for_execution cr co m (Some d) e = Inr r"
    and "r' = r\<lparr>ar_digest := d'\<rparr>"
    and "parse_record co (dump_record co r') = Some r'" "dump_record co r' \<noteq> []"
    and "is_immutable_digest d'" "\<not> is_digest_revoked d' e"
  shows "verify_artifact_for_execution cr co m (Some d') (etcd_put (key_model m) (dump_record co r') e) = Inr r'"
proof -
  let ?e = "etcd_put (key_model m) (dump_record co r') e"
  have g: "etcd_get k ?e = (if k = key_model m then Some (dump_record co r') else etcd_get k e)" for k
    by (simp add: etcd_kv.get_put)
  have imm: "d' \<noteq> []" using assms(5) by (auto simp: is_immutable_digest_def)
  have "may_execute cr co m (Some d) e r" using assms(1) by (simp add: verify_iff)
  moreover have "get_supply_chain_policy co ?e = get_supply_chain_policy co e"
    by (simp add: get_supply_chain_policy_def g)
  moreover have "stored_record co m ?e r'" using assms(3,4) by (simp add: stored_record_def g)
  moreover have "signature_valid cr r' ?e \<longleftrightarrow> signature_valid cr r e"
    using assms(2) by (simp add: signature_valid_def etcd_kv.get_put)
  ultimately have "may_execute cr co m (Some d') ?e r'"
    using assms(2,5,6) imm by (auto simp: may_execute_def Let_def etcd_kv.get_put is_digest_revoked_def)
  then show ?thesis by (simp add: verify_iff)
qed

text \<open>
  Padding escapes a revocation. A digest reference with surrounding white space counts as
  immutable (it is stripped for the test) but is stored and compared as written, so revoking
  the digest itself does not revoke the padded one.
\<close>

lemma padded_digest_escapes_revocation:
  "is_immutable_digest ('' '' @ sample_digest) \<and>
   \<not> is_digest_revoked ('' '' @ sample_digest) (revoke_artifact_digest ft sample_digest why now new_etcd)"
proof
  show "is_immutable_digest ('' '' @ sample_digest)" by code_simp
  have "lower ('' '' @ sample_digest) \<noteq> lower sample_digest" by code_simp
  then show "\<not> is_digest_revoked ('' '' @ sample_digest) (revoke_artifact_digest ft sample_digest why now new_etcd)"
    by (simp add: is_digest_revoked_def get_revoke_other)
qed

end
