(* ===== verification/NodeAgent.thy ===== *)
theory NodeAgent
  imports SupplyChain
begin

text \<open>
  The compute node: \<open>SimulatedNode\<close> (\<open>node_agent/node.py\<close>), \<open>InferenceWorker\<close>
  (\<open>node_agent/worker.py\<close>) and the execution service (\<open>node_agent/grpc_server.py\<close>).

  The messages of \<open>contracts/proto/orchestrator.proto\<close> are records. \<open>context.abort\<close> raises,
  so a handler returns either the status it aborts with or the response; an exception that
  leaves a handler is the status \<open>UNKNOWN\<close>. Clock readings and random bytes are the fields
  of a record \<open>node_inputs\<close>; what the processes share (primitives, codecs, environment,
  availability of the OQS library) is a record \<open>platform\<close>.
\<close>

section \<open>Messages and the platform\<close>

record SignedTaskEnvelope =
  te_task_id :: str
  te_node_id :: str
  te_cluster_epoch :: int
  te_leader_lease_id :: int
  te_issue_time :: pyfloat
  te_expires_at :: pyfloat
  te_encrypted_payload :: bytes
  te_encrypted_dek :: bytes
  te_signature_algorithm :: str
  te_key_id :: str
  te_signature :: bytes
  te_schema_version :: str
  te_pq_signature_algorithm :: str
  te_pq_signature :: bytes

record SignedResultEnvelope =
  re_task_id :: str
  re_node_id :: str
  re_issue_time :: pyfloat
  re_encrypted_result :: bytes
  re_encrypted_dek :: bytes
  re_signature_algorithm :: str
  re_key_id :: str
  re_signature :: bytes
  re_schema_version :: str
  re_pq_signature_algorithm :: str
  re_pq_signature :: bytes

datatype rpc_status =
  UNAUTHENTICATED | PERMISSION_DENIED | DEADLINE_EXCEEDED | FAILED_PRECONDITION | INTERNAL | UNKNOWN

record platform =
  pl_crypto :: crypto
  pl_codecs :: codecs
  pl_environ :: environ
  pl_oqs :: bool

definition pl_dual :: "platform \<Rightarrow> bool" where
  "pl_dual pl \<longleftrightarrow> dual_required (pl_environ pl)"

section \<open>The node\<close>

record SimulatedNode =
  n_node_id :: str
  n_node_class :: NodeClass
  n_base_rtt_ms :: pyfloat
  n_bandwidth_mbps :: pyfloat
  n_cost_per_1k_usd :: pyfloat
  n_data_residency_zones :: "str list"
  n_cpu_util_pct :: pyfloat
  n_gpu_util_pct :: pyfloat
  n_queue_depth :: int
  n_health :: HealthStatus
  n_assurance_level :: AssuranceLevel
  n_last_heartbeat_time :: pyfloat
  n_is_offline :: bool
  n_fail_execution :: bool
  n_signing_key :: bytes
  n_public_key_pem :: str
  n_pq_key :: "bytes option"

text \<open>
  The constructor; its last arguments are the clock, the generated signing
  key and the generated post-quantum key, which is kept only under the dual policy when the
  library is present.
\<close>

definition new_SimulatedNode ::
    "platform \<Rightarrow> str \<Rightarrow> NodeClass \<Rightarrow> pyfloat \<Rightarrow> pyfloat \<Rightarrow> pyfloat \<Rightarrow> str list \<Rightarrow> pyfloat \<Rightarrow> pyfloat \<Rightarrow>
     int \<Rightarrow> HealthStatus \<Rightarrow> AssuranceLevel \<Rightarrow> pyfloat \<Rightarrow> bytes \<Rightarrow> bytes \<Rightarrow> SimulatedNode" where
  "new_SimulatedNode pl node_id node_class rtt bandwidth cost zones cpu gpu queue health assurance now sk pq_sk =
     \<lparr>n_node_id = node_id, n_node_class = node_class, n_base_rtt_ms = rtt, n_bandwidth_mbps = bandwidth,
      n_cost_per_1k_usd = cost, n_data_residency_zones = zones, n_cpu_util_pct = cpu,
      n_gpu_util_pct = gpu, n_queue_depth = queue, n_health = health, n_assurance_level = assurance,
      n_last_heartbeat_time = now, n_is_offline = False, n_fail_execution = False,
      n_signing_key = sk, n_public_key_pem = ed_pem (pl_crypto pl) sk,
      n_pq_key = (if pl_dual pl \<and> pl_oqs pl then Some pq_sk else None)\<rparr>"

text \<open>\<open>base64.b64encode(b"simulated_tpm2_quote_data")\<close> is written out.\<close>

definition get_attestation_evidence :: "SimulatedNode \<Rightarrow> HardwareAttestation option" where
  "get_attestation_evidence node =
     (if n_assurance_level node \<noteq> HIGH_ASSURANCE then None
      else Some \<lparr>ha_evidence_type = ''tpm2_quote'', ha_quote = ''c2ltdWxhdGVkX3RwbTJfcXVvdGVfZGF0YQ=='',
        ha_pcr_banks = [(''sha256'', ''0x123456...'')], ha_signature = ''dummy_signature_over_quote''\<rparr>)"

definition emit_snapshot :: "pyfloat option \<Rightarrow> pyfloat \<Rightarrow> SimulatedNode \<Rightarrow> exc + NodeTelemetrySnapshot" where
  "emit_snapshot gateway_observed_rtt_ms now node =
     mk_NodeTelemetrySnapshot
       \<lparr>s_node_id = n_node_id node, s_node_class = n_node_class node, s_timestamp = now,
        s_rtt_ms = n_base_rtt_ms node, s_bandwidth_available_mbps = n_bandwidth_mbps node,
        s_cpu_util_pct = n_cpu_util_pct node, s_gpu_util_pct = n_gpu_util_pct node,
        s_queue_depth = n_queue_depth node,
        s_cost_per_1k_inferences_usd = n_cost_per_1k_usd node,
        s_health = (if \<not> n_is_offline node then n_health node else UNREACHABLE),
        s_last_heartbeat_age_ms = fmul (fsub now (n_last_heartbeat_time node)) 1000,
        s_data_residency_zones = n_data_residency_zones node,
        s_gateway_observed_rtt_ms = gateway_observed_rtt_ms,
        s_assurance_level = n_assurance_level node\<rparr>"

definition heartbeat :: "pyfloat \<Rightarrow> SimulatedNode \<Rightarrow> SimulatedNode" where
  "heartbeat now node = node\<lparr>n_last_heartbeat_time := now\<rparr>"

section \<open>The worker\<close>

record InferenceWorker =
  w_node :: SimulatedNode
  w_processed :: "(str, ExecutionResult) dict"

definition exec_duration_ms :: "pyfloat \<Rightarrow> pyfloat \<Rightarrow> pyfloat" where
  "exec_duration_ms t0 t1 = fmul (fsub t1 t0) 1000"

definition output_payload :: "ExecutionRequest \<Rightarrow> ApprovedArtifactRecord \<Rightarrow> pyfloat \<Rightarrow> SimulatedNode \<Rightarrow> jobj" where
  "output_payload request approved duration node =
     [(''model'', JStr (r_model_id request)),
      (''model_digest'', JStr (ar_digest approved)),
      (''prediction'', JStr ''classified_defect_none''),
      (''confidence'', JFloat (fl (984 / 1000))),
      (''latency_breakdown'', JObj
        [(''compute_ms'', JFloat (round_digits 2 duration)),
         (''queue_ms'', JFloat (round_digits 2 (fmul (fl (of_int (n_queue_depth node))) (5 / 2))))]),
      (''node_metadata'', JObj
        [(''node_id'', JStr (n_node_id node)),
         (''node_class'', JStr (node_class_value (n_node_class node))),
         (''residency'', JArr (map JStr (n_data_residency_zones node))),
         (''model_digest'', JStr (ar_digest approved))])]"

definition execution_result ::
    "ExecutionRequest \<Rightarrow> ApprovedArtifactRecord \<Rightarrow> pyfloat \<Rightarrow> SimulatedNode \<Rightarrow> ExecutionResult" where
  "execution_result request approved duration node =
     \<lparr>x_task_id = r_task_id request, x_node_id = n_node_id node, x_node_class = n_node_class node,
      x_status = SUCCESS, x_execution_time_ms = round_digits 2 duration,
      x_model_digest = Some (ar_digest approved),
      x_output = Some (output_payload request approved duration node), x_error = None,
      x_cached = False, x_idempotency_key = r_idempotency_key request\<rparr>"

text \<open>\<open>t0\<close> and \<open>t1\<close> are the two readings of \<open>perf_counter\<close>; the sleep between them is the simulated work.\<close>

definition execute ::
    "platform \<Rightarrow> ExecutionRequest \<Rightarrow> etcd \<Rightarrow> pyfloat \<Rightarrow> pyfloat \<Rightarrow> InferenceWorker \<Rightarrow>
     exc + (ExecutionResult \<times> InferenceWorker)" where
  "execute pl request e t0 t1 w =
     (case dget (w_processed w) (r_idempotency_key request) of
        Some cached_result \<Rightarrow> Inr (cached_result\<lparr>x_cached := True\<rparr>, w)
      | None \<Rightarrow>
          (let node = w_node w in
           if n_is_offline node \<or> n_fail_execution node then
             Inl (NodeUnavailableError (''Node '' @ n_node_id node @ '' is offline or failed execution check'')
               (n_node_id node) [])
           else
             rbind (verify_artifact_for_execution (pl_crypto pl) (pl_codecs pl) (r_model_id request)
                      (r_model_digest request) e) (\<lambda>approved.
               (let res = execution_result request approved (exec_duration_ms t0 t1) node
                in Inr (res, w\<lparr>w_processed := dset (r_idempotency_key request) res (w_processed w)\<rparr>)))))"

section \<open>The execution service\<close>

record node_inputs =
  ni_now_expiry :: pyfloat
  ni_now_lease :: pyfloat
  ni_perf0 :: pyfloat
  ni_perf1 :: pyfloat
  ni_issue_time :: pyfloat
  ni_random :: dek_random

definition key_scheduler :: "str \<Rightarrow> str" where
  "key_scheduler key_id = ''/distributed-ai/scheduler/'' @ key_id @ ''/identity''"

text \<open>
  The body of the first \<open>try\<close>. \<open>SecurityError\<close> is not imported in the module, so raising it
  is a \<open>NameError\<close>.
\<close>

definition verify_task_envelope :: "platform \<Rightarrow> SignedTaskEnvelope \<Rightarrow> etcd \<Rightarrow> exc + unit" where
  "verify_task_envelope pl req e =
     rbind (validate_signature_algorithm (pl_environ pl) (pl_oqs pl) (te_signature_algorithm req)) (\<lambda>_.
       (let pubkey_pem = etcd_get (key_scheduler (te_key_id req)) e in
        if \<not> truthy pubkey_pem then Inl (py_exc ValueErrorClass ''Scheduler public key not found'')
        else
          rbind (ed_verify (pl_crypto pl) (the pubkey_pem) (te_signature req)
                   (te_encrypted_payload req @ te_encrypted_dek req)) (\<lambda>_.
            (if pl_dual pl then
               (if te_pq_signature req = [] then Inl (py_exc NameErrorClass ''SecurityError'')
                else validate_signature_algorithm (pl_environ pl) (pl_oqs pl) (te_pq_signature_algorithm req))
             else Inr ()))))"

text \<open>
  The fields of the decrypted payload, with the checks of \<open>ExecutionRequest\<close>: \<open>payload[k]\<close>
  raises \<open>KeyError\<close>, a value of another type is a \<open>ValidationError\<close> (pydantic's conversion of
  numeric strings to floats is not modelled: the scheduler sends a number).
\<close>

definition need_str :: "jobj \<Rightarrow> str \<Rightarrow> exc + str" where
  "need_str d k = (case dget d k of
     None \<Rightarrow> Inl (py_exc KeyErrorClass k) | Some (JStr s) \<Rightarrow> Inr s | Some _ \<Rightarrow> Inl (py_exc ValidationErrorClass k))"

definition get_str_or :: "jobj \<Rightarrow> str \<Rightarrow> str \<Rightarrow> exc + str" where
  "get_str_or d k dflt = (case dget d k of
     None \<Rightarrow> Inr dflt | Some (JStr s) \<Rightarrow> Inr s | Some _ \<Rightarrow> Inl (py_exc ValidationErrorClass k))"

definition get_opt_str :: "jobj \<Rightarrow> str \<Rightarrow> exc + str option" where
  "get_opt_str d k = (case dget d k of
     None \<Rightarrow> Inr None | Some JNull \<Rightarrow> Inr None | Some (JStr s) \<Rightarrow> Inr (Some s)
   | Some _ \<Rightarrow> Inl (py_exc ValidationErrorClass k))"

definition need_float :: "jobj \<Rightarrow> str \<Rightarrow> exc + pyfloat" where
  "need_float d k = (case dget d k of
     None \<Rightarrow> Inl (py_exc KeyErrorClass k) | Some (JFloat x) \<Rightarrow> Inr x | Some (JInt i) \<Rightarrow> Inr (fl (of_int i))
   | Some _ \<Rightarrow> Inl (py_exc ValidationErrorClass k))"

definition build_request :: "SignedTaskEnvelope \<Rightarrow> json \<Rightarrow> exc + ExecutionRequest" where
  "build_request req payload =
     (case payload of
        JObj d \<Rightarrow>
          rbind (need_str d ''model_id'') (\<lambda>model_id.
          rbind (get_opt_str d ''model_digest'') (\<lambda>model_digest.
          rbind (need_str d ''payload_ref'') (\<lambda>payload_ref.
          rbind (get_str_or d ''idempotency_key'' []) (\<lambda>idempotency_key.
          rbind (need_float d ''timeout_ms'') (\<lambda>timeout_ms.
            Inr \<lparr>r_task_id = te_task_id req, r_node_id = te_node_id req, r_model_id = model_id,
              r_model_digest = model_digest, r_payload_ref = payload_ref,
              r_idempotency_key = idempotency_key, r_timeout_ms = timeout_ms\<rparr>)))))
      | _ \<Rightarrow> Inl (py_exc TypeErrorClass []))"

text \<open>\<open>x or ""\<close>\<close>

definition or_empty :: "str option \<Rightarrow> str" where
  "or_empty x = (case x of None \<Rightarrow> [] | Some s \<Rightarrow> s)"

definition success_payload :: "float_text \<Rightarrow> ExecutionResult \<Rightarrow> jobj" where
  "success_payload ft res =
     [(''status'', JStr (status_value (x_status res))),
      (''execution_time_ms'', JFloat (x_execution_time_ms res)),
      (''output_json'', JStr (case x_output res of
          None \<Rightarrow> [] | Some d \<Rightarrow> if d = [] then [] else default_dumps ft (JObj d))),
      (''error'', JStr (or_empty (x_error res))),
      (''cached'', JBool (x_cached res)),
      (''idempotency_key'', JStr (x_idempotency_key res)),
      (''node_class'', JStr (node_class_value (x_node_class res))),
      (''model_digest'', JStr (or_empty (x_model_digest res)))]"

definition failure_payload :: "str \<Rightarrow> str \<Rightarrow> ExecutionRequest \<Rightarrow> SimulatedNode \<Rightarrow> jobj" where
  "failure_payload status error request node =
     [(''status'', JStr status), (''execution_time_ms'', JFloat 0), (''output_json'', JStr []),
      (''error'', JStr error), (''cached'', JBool False),
      (''idempotency_key'', JStr (r_idempotency_key request)),
      (''node_class'', JStr (node_class_value (n_node_class node))),
      (''model_digest'', JStr (or_empty (r_model_digest request)))]"

text \<open>The second \<open>try\<close>: run the worker and turn its result or exception into the payload.\<close>

definition run_worker ::
    "platform \<Rightarrow> ExecutionRequest \<Rightarrow> etcd \<Rightarrow> node_inputs \<Rightarrow> InferenceWorker \<Rightarrow> jobj \<times> InferenceWorker" where
  "run_worker pl exec_req e ni w =
     (case execute pl exec_req e (ni_perf0 ni) (ni_perf1 ni) w of
        Inr (res, w1) \<Rightarrow> (success_payload (ftext (pl_crypto pl)) res, w1)
      | Inl ex \<Rightarrow>
          if exc_class ex = ArtifactVerificationErrorClass
          then (failure_payload ''rejected'' (message ex) exec_req (w_node w), w)
          else (failure_payload ''failed'' (message ex) exec_req (w_node w), w))"

definition sign_response ::
    "platform \<Rightarrow> SignedTaskEnvelope \<Rightarrow> jobj \<Rightarrow> node_inputs \<Rightarrow> SimulatedNode \<Rightarrow> SignedResultEnvelope" where
  "sign_response pl req result_payload ni node =
     (let (encrypted_result, wrapped_dek) =
            encrypt_envelope (pl_crypto pl) result_payload get_master_kek (ni_random ni);
          canonical_bytes = encrypted_result @ wrapped_dek;
          pq = pl_dual pl \<and> n_pq_key node \<noteq> None;
          pq_alg = PQC_SIGNATURE (load_PqcConfig (pl_environ pl))
      in \<lparr>re_task_id = te_task_id req, re_node_id = te_node_id req, re_issue_time = ni_issue_time ni,
          re_encrypted_result = encrypted_result, re_encrypted_dek = wrapped_dek,
          re_signature_algorithm = ''Ed25519'', re_key_id = n_node_id node,
          re_signature = ed_sign (pl_crypto pl) (n_signing_key node) canonical_bytes,
          re_schema_version = ''1.1'',
          re_pq_signature_algorithm = (if pq then pq_alg else []),
          re_pq_signature = (if pq then pq_sign (pl_crypto pl) pq_alg (the (n_pq_key node)) canonical_bytes else [])\<rparr>)"

definition ExecuteTask ::
    "platform \<Rightarrow> auth_context \<Rightarrow> SignedTaskEnvelope \<Rightarrow> node_inputs \<Rightarrow> InferenceWorker \<Rightarrow> etcd \<Rightarrow>
     (rpc_status + SignedResultEnvelope) \<times> InferenceWorker \<times> etcd" where
  "ExecuteTask pl ctx req ni w e =
     (if \<not> authorize_scheduler (extract_spiffe_id ctx) then (Inl UNAUTHENTICATED, w, e)
      else (case verify_task_envelope pl req e of
        Inl ex \<Rightarrow> (Inl PERMISSION_DENIED, w, e)
      | Inr _ \<Rightarrow>
          if ni_now_expiry ni > te_expires_at req then (Inl DEADLINE_EXCEEDED, w, e)
          else (case is_lease_valid (te_leader_lease_id req) (ni_now_lease ni) e of
            (False, e1) \<Rightarrow> (Inl FAILED_PRECONDITION, w, e1)
          | (True, e1) \<Rightarrow>
              (case decrypt_envelope (pl_crypto pl) (te_encrypted_payload req) (te_encrypted_dek req) get_master_kek of
                 Inl ex \<Rightarrow> (Inl INTERNAL, w, e1)
               | Inr payload \<Rightarrow>
                   (case build_request req payload of
                      Inl ex \<Rightarrow> (Inl UNKNOWN, w, e1)
                    | Inr exec_req \<Rightarrow>
                        (case run_worker pl exec_req e1 ni w of
                           (result_payload, w1) \<Rightarrow>
                             (Inr (sign_response pl req result_payload ni (w_node w1)), w1, e1)))))))"

section \<open>Invariant of the worker\<close>

definition new_InferenceWorker :: "SimulatedNode \<Rightarrow> InferenceWorker" where
  "new_InferenceWorker node = \<lparr>w_node = node, w_processed = []\<rparr>"

text \<open>What the worker remembers: successful, uncached results under their own keys.\<close>

definition result_ok :: "ExecutionResult \<Rightarrow> bool" where
  "result_ok r \<longleftrightarrow> x_status r = SUCCESS \<and> \<not> x_cached r \<and> is_float (x_execution_time_ms r)"

definition worker_ok :: "InferenceWorker \<Rightarrow> bool" where
  "worker_ok w \<longleftrightarrow> (\<forall>k r. dget (w_processed w) k = Some r \<longrightarrow> result_ok r \<and> x_idempotency_key r = k)"

lemma worker_ok_new [simp, intro]: "worker_ok (new_InferenceWorker node)"
  by (simp add: worker_ok_def new_InferenceWorker_def)

lemma worker_ok_node [simp]: "worker_ok (w\<lparr>w_node := node\<rparr>) \<longleftrightarrow> worker_ok w"
  by (simp add: worker_ok_def)

lemma result_ok_execution: "result_ok (execution_result req r d node)"
  by (simp add: result_ok_def execution_result_def)

lemma executeD:
  assumes "execute pl req e t0 t1 w = Inr (res, w')"
  shows "dget (w_processed w) (r_idempotency_key req) = None \<Longrightarrow>
      \<exists>approved. verify_artifact_for_execution (pl_crypto pl) (pl_codecs pl) (r_model_id req) (r_model_digest req) e = Inr approved \<and>
        \<not> n_is_offline (w_node w) \<and> \<not> n_fail_execution (w_node w) \<and>
        res = execution_result req approved (exec_duration_ms t0 t1) (w_node w) \<and>
        w' = w\<lparr>w_processed := dset (r_idempotency_key req) res (w_processed w)\<rparr>"
    and "dget (w_processed w) (r_idempotency_key req) = Some c \<Longrightarrow> res = c\<lparr>x_cached := True\<rparr> \<and> w' = w"
  using assms by (auto simp: execute_def Let_def rbind_Inr_iff split: option.splits if_splits)

lemma execute_stored:
  assumes "execute pl req e t0 t1 w = Inr (res, w')" "worker_ok w"
  shows "worker_ok w' \<and> dget (w_processed w') (r_idempotency_key req) = Some (res\<lparr>x_cached := False\<rparr>) \<and>
    x_idempotency_key res = r_idempotency_key req \<and>
    (x_cached res \<longleftrightarrow> dget (w_processed w) (r_idempotency_key req) \<noteq> None) \<and>
    (\<forall>k c. dget (w_processed w) k = Some c \<longrightarrow> dget (w_processed w') k = Some c)"
proof (cases "dget (w_processed w) (r_idempotency_key req)")
  case None
  obtain approved where a: "res = execution_result req approved (exec_duration_ms t0 t1) (w_node w)"
    "w' = w\<lparr>w_processed := dset (r_idempotency_key req) res (w_processed w)\<rparr>"
    using executeD(1) [OF assms(1) None] by blast
  have "result_ok res" unfolding a(1) by (rule result_ok_execution)
  then show ?thesis using None assms(2) a(2)
    by (auto simp: worker_ok_def result_ok_def a(1) execution_result_def)
next
  case (Some c)
  then have "res = c\<lparr>x_cached := True\<rparr>" "w' = w" using executeD(2) [OF assms(1) Some] by auto
  then show ?thesis using Some assms(2) by (auto simp: worker_ok_def result_ok_def)
qed

text \<open>
  A history of the worker: before each request the node may have changed in any way (health
  flags, load, going off line and back), the registry is the one at that moment.
\<close>

type_synonym work = "SimulatedNode \<times> ExecutionRequest \<times> etcd \<times> pyfloat \<times> pyfloat"

fun execute_all :: "platform \<Rightarrow> work list \<Rightarrow> InferenceWorker \<Rightarrow> ExecutionResult list \<times> InferenceWorker" where
  "execute_all pl [] w = ([], w)"
| "execute_all pl ((node, req, e, t0, t1) # ws) w =
     (case execute pl req e t0 t1 (w\<lparr>w_node := node\<rparr>) of
        Inl ex \<Rightarrow> execute_all pl ws (w\<lparr>w_node := node\<rparr>)
      | Inr (res, w1) \<Rightarrow> (case execute_all pl ws w1 of (rs, w2) \<Rightarrow> (res # rs, w2)))"

lemma execute_all_invariant:
  assumes "worker_ok w" "execute_all pl ws w = (rs, w')"
  shows "worker_ok w' \<and> (\<forall>k c. dget (w_processed w) k = Some c \<longrightarrow> dget (w_processed w') k = Some c) \<and>
    (\<forall>r\<in>set rs. dget (w_processed w') (x_idempotency_key r) = Some (r\<lparr>x_cached := False\<rparr>)) \<and>
    distinct (map x_idempotency_key (filter (\<lambda>r. \<not> x_cached r) rs)) \<and>
    (\<forall>r\<in>set rs. \<not> x_cached r \<longrightarrow> dget (w_processed w) (x_idempotency_key r) = None)"
  using assms
proof (induction ws arbitrary: w rs)
  case Nil
  then show ?case by auto
next
  case (Cons x ws)
  obtain node req e t0 t1 where x: "x = (node, req, e, t0, t1)" by (cases x) auto
  let ?w = "w\<lparr>w_node := node\<rparr>"
  have ok: "worker_ok ?w" using Cons.prems(1) by simp
  show ?case
  proof (cases "execute pl req e t0 t1 ?w")
    case (Inl ex)
    then show ?thesis using Cons.IH [OF ok] Cons.prems(2) by (simp add: x)
  next
    case (Inr p)
    obtain res w1 where p: "p = (res, w1)" by fastforce
    obtain rs1 where r: "execute_all pl ws w1 = (rs1, w')" "rs = res # rs1"
      using Cons.prems(2) by (auto simp: x Inr p split: prod.splits)
    note s = execute_stored [OF Inr [unfolded p] ok]
    note i = Cons.IH [OF conjunct1 [OF s] r(1)]
    have "x_idempotency_key r \<noteq> x_idempotency_key res" if "r \<in> set rs1" "\<not> x_cached r" for r
      using i s that by auto
    moreover have "\<not> x_cached r \<longrightarrow> dget (w_processed w) (x_idempotency_key r) = None" if "r \<in> set rs1" for r
      using i s that by (cases "dget (w_processed w) (x_idempotency_key r)") auto
    ultimately show ?thesis using i s by (auto simp: r(2))
  qed
qed

section \<open>The response\<close>

lemma success_payload_ok:
  "is_float (x_execution_time_ms r) \<Longrightarrow> json_ok (JObj (success_payload ft r))"
  "map_of (success_payload ft r) ''status'' = Some (JStr (status_value (x_status r)))"
  by (simp_all add: success_payload_def)

lemma failure_payload_ok:
  "json_ok (JObj (failure_payload st err req node))"
  "map_of (failure_payload st err req node) ''status'' = Some (JStr st)"
  by (simp_all add: failure_payload_def)

text \<open>What the worker did, as the status of the payload.\<close>

definition outcome :: "exc + 'a \<Rightarrow> str" where
  "outcome r = (case r of Inr _ \<Rightarrow> ''success''
     | Inl ex \<Rightarrow> if exc_class ex = ArtifactVerificationErrorClass then ''rejected'' else ''failed'')"

lemma execute_result_ok:
  "execute pl req e t0 t1 w = Inr (res, w') \<Longrightarrow> worker_ok w \<Longrightarrow>
    x_status res = SUCCESS \<and> is_float (x_execution_time_ms res) \<and> w_node w' = w_node w"
proof (cases "dget (w_processed w) (r_idempotency_key req)")
  case None
  assume "execute pl req e t0 t1 w = Inr (res, w')"
  from executeD(1) [OF this None] show ?thesis by (auto simp: execution_result_def)
next
  case (Some c)
  assume "execute pl req e t0 t1 w = Inr (res, w')" and ok: "worker_ok w"
  from executeD(2) [OF this(1) Some] have "res = c\<lparr>x_cached := True\<rparr>" "w' = w" by auto
  then show ?thesis using ok Some by (auto simp: worker_ok_def result_ok_def)
qed

lemma run_worker_ok:
  assumes "run_worker pl req e ni w = (p, w')" "worker_ok w"
  shows "json_ok (JObj p) \<and> w_node w' = w_node w \<and>
    map_of p ''status'' = Some (JStr (outcome (execute pl req e (ni_perf0 ni) (ni_perf1 ni) w)))"
proof (cases "execute pl req e (ni_perf0 ni) (ni_perf1 ni) w")
  case (Inl ex)
  then show ?thesis using assms(1)
    by (auto simp: run_worker_def outcome_def failure_payload_ok split: if_splits simp del: json_ok.simps)
next
  case (Inr q)
  obtain res w1 where q: "q = (res, w1)" by fastforce
  then show ?thesis
    using assms execute_result_ok [OF Inr [unfolded q] assms(2)] Inr
    by (auto simp: run_worker_def outcome_def success_payload_ok simp del: json_ok.simps)
qed

text \<open>A response is signed by the node and opens to the outcome of the request it answers.\<close>

lemma response_spec:
  assumes "signing_ok (pl_crypto pl)" "aead_ok (pl_crypto pl)" "float_text_ok (ftext (pl_crypto pl))"
    and "rnd_ok (ni_random ni)" "worker_ok w"
    and "ExecuteTask pl ctx req ni w e = (Inr resp, w', e')"
  shows "ed_verify (pl_crypto pl) (ed_pem (pl_crypto pl) (n_signing_key (w_node w))) (re_signature resp)
      (re_encrypted_result resp @ re_encrypted_dek resp) = Inr () \<and>
    (\<exists>payload exec_req d.
      decrypt_envelope (pl_crypto pl) (te_encrypted_payload req) (te_encrypted_dek req) get_master_kek = Inr payload \<and>
      build_request req payload = Inr exec_req \<and>
      decrypt_envelope (pl_crypto pl) (re_encrypted_result resp) (re_encrypted_dek resp) get_master_kek = Inr (JObj d) \<and>
      map_of d ''status'' = Some (JStr (outcome (execute pl exec_req e' (ni_perf0 ni) (ni_perf1 ni) w))))"
proof -
  let ?cr = "pl_crypto pl"
  obtain payload exec_req p where p:
    "decrypt_envelope ?cr (te_encrypted_payload req) (te_encrypted_dek req) get_master_kek = Inr payload"
    "build_request req payload = Inr exec_req"
    "run_worker pl exec_req e' ni w = (p, w')"
    "resp = sign_response pl req p ni (w_node w')"
    using assms(6) by (auto simp: ExecuteTask_def split: if_splits sum.splits prod.splits bool.splits)
  obtain ep wd where enc: "encrypt_envelope ?cr p get_master_kek (ni_random ni) = (ep, wd)" by fastforce
  note r = run_worker_ok [OF p(3) assms(5)]
  have resp: "re_encrypted_result resp = ep" "re_encrypted_dek resp = wd"
    "re_signature resp = ed_sign ?cr (n_signing_key (w_node w)) (ep @ wd)"
    using r by (simp_all add: p(4) sign_response_def enc Let_def)
  obtain d where d: "sorted_json (JObj p) = JObj d" by simp
  have dec: "decrypt_envelope ?cr ep wd get_master_kek = Inr (JObj d)"
    using decrypt_encrypt [OF assms(2-4) conjunct1 [OF r] enc] d by simp
  have "is_dict p" using r by simp
  then have "map_of d ''status'' = map_option sorted_json (map_of p ''status'')"
    by (rule map_of_sorted [OF _ d])
  then show ?thesis using r p(1,2) dec assms(1) by (auto simp: resp signing_ok_def)
qed

text \<open>Reading the fields does not depend on the order of the keys.\<close>

lemma read_fields_sorted:
  assumes "is_dict p" "sorted_json (JObj p) = JObj d"
  shows "need_str d k = need_str p k" "get_str_or d k x = get_str_or p k x"
    "get_opt_str d k = get_opt_str p k" "need_float d k = need_float p k"
proof -
  have m: "map_of d k = map_option sorted_json (map_of p k)" by (rule map_of_sorted [OF assms])
  have "map_of p k = None \<or> (\<exists>j. map_of p k = Some j)" by (cases "map_of p k") auto
  moreover have "need_str d k = need_str p k" "get_str_or d k x = get_str_or p k x"
    "get_opt_str d k = get_opt_str p k" "need_float d k = need_float p k" if "map_of p k = Some j" for j
    using that m by (cases j; simp add: need_str_def get_str_or_def get_opt_str_def need_float_def)+
  ultimately show "need_str d k = need_str p k" "get_str_or d k x = get_str_or p k x"
    "get_opt_str d k = get_opt_str p k" "need_float d k = need_float p k"
    using m by (auto simp: need_str_def get_str_or_def get_opt_str_def need_float_def)
qed

lemma build_request_sorted:
  "is_dict p \<Longrightarrow> sorted_json (JObj p) = JObj d \<Longrightarrow> build_request req (JObj d) = build_request req (JObj p)"
  by (simp add: build_request_def read_fields_sorted)

section \<open>Sample values\<close>

definition sample_platform :: platform where
  "sample_platform = \<lparr>pl_crypto = toy_crypto, pl_codecs = one_record_codecs sample_record,
     pl_environ = Map.empty, pl_oqs = False\<rparr>"

definition sample_worker_node :: SimulatedNode where
  "sample_worker_node = new_SimulatedNode sample_platform ''edge-1'' EDGE 10 100 1 [''eu-only''] 20 30 0 HEALTHY STANDARD 0 [9] []"

definition sample_request :: "str \<Rightarrow> ExecutionRequest" where
  "sample_request key = \<lparr>r_task_id = ''t1'', r_node_id = ''edge-1'', r_model_id = ''resnet50'',
     r_model_digest = Some sample_digest, r_payload_ref = ''s3://in'', r_idempotency_key = key,
     r_timeout_ms = 100\<rparr>"

definition sample_etcd :: etcd where
  "sample_etcd = etcd_put (key_model ''resnet50'') ''r'' (etcd_put (key_signer ''ci-1'') (hex [1]) new_etcd)"

lemma sample_runs: "verify_artifact_for_execution toy_crypto (one_record_codecs sample_record) ''resnet50''
    (Some sample_digest) sample_etcd = Inr sample_record"
proof -
  let ?co = "one_record_codecs sample_record"
  have "etcd_get key_policy sample_etcd = None" by (simp add: sample_etcd_def etcd_kv.get_put)
  then have "policy_admits (get_supply_chain_policy ?co sample_etcd) sample_provenance"
    using sample_admitted by (simp only: policy_default)
  moreover have "signature_valid toy_crypto sample_record sample_etcd"
    by (simp add: signature_valid_def sample_etcd_def etcd_kv.get_put sample_record_def sign_artifact_provenance_def)
      (simp add: toy_crypto_def)
  moreover have "stored_record ?co ''resnet50'' sample_etcd sample_record"
    by (simp add: stored_record_def sample_etcd_def one_record_codecs_def)
  moreover have "etcd_get (key_revocation sample_digest) sample_etcd = None"
    by (simp add: sample_etcd_def etcd_kv.get_put)
  ultimately show ?thesis
    using sample_digest_ok sample_fields by (simp add: verify_iff may_execute_def Let_def)
qed

lemma sample_execute:
  "execute sample_platform (sample_request k) sample_etcd 0 0 (new_InferenceWorker sample_worker_node) =
    Inr (execution_result (sample_request k) sample_record (exec_duration_ms 0 0) sample_worker_node,
      \<lparr>w_node = sample_worker_node,
       w_processed = [(k, execution_result (sample_request k) sample_record (exec_duration_ms 0 0) sample_worker_node)]\<rparr>)"
  using sample_runs
  by (simp add: execute_def new_InferenceWorker_def Let_def sample_platform_def sample_request_def)
    (simp add: sample_worker_node_def new_SimulatedNode_def)

text \<open>A task envelope for the sample node, and the registry it is checked against.\<close>

definition sample_random :: dek_random where
  "sample_random = \<lparr>rnd_dek = [7], rnd_nonce_dek = replicate 12 1, rnd_nonce_kek = replicate 12 2\<rparr>"

definition sample_payload :: jobj where
  "sample_payload = [(''model_id'', JStr ''resnet50''), (''model_digest'', JStr sample_digest),
     (''payload_ref'', JStr ''s3://in''), (''idempotency_key'', JStr ''k''), (''timeout_ms'', JFloat 100)]"

definition sample_sealed :: "bytes \<times> bytes" where
  "sample_sealed = encrypt_envelope toy_crypto sample_payload get_master_kek sample_random"

definition sample_envelope :: SignedTaskEnvelope where
  "sample_envelope =
     \<lparr>te_task_id = ''t1'', te_node_id = ''edge-1'', te_cluster_epoch = 1, te_leader_lease_id = 1,
      te_issue_time = 0, te_expires_at = 10, te_encrypted_payload = fst sample_sealed,
      te_encrypted_dek = snd sample_sealed, te_signature_algorithm = ''Ed25519'',
      te_key_id = ''scheduler-1'', te_signature = [5] @ fst sample_sealed @ snd sample_sealed,
      te_schema_version = ''1.1'', te_pq_signature_algorithm = [], te_pq_signature = []\<rparr>"

definition sample_cluster :: etcd where
  "sample_cluster = etcd_put (key_scheduler ''scheduler-1'') (hex [5])
     (snd (grant_lease 30 0 sample_etcd))"

definition sample_context :: auth_context where
  "sample_context = \<lparr>x509_san_uri = [''spiffe://distributed-ai.local/scheduler/master''], x509_common_name = []\<rparr>"

definition sample_inputs :: node_inputs where
  "sample_inputs = \<lparr>ni_now_expiry = 1, ni_now_lease = 1, ni_perf0 = 0, ni_perf1 = 0, ni_issue_time = 1,
     ni_random = sample_random\<rparr>"

lemma sample_opened_json:
  "\<exists>d. decrypt_envelope toy_crypto (te_encrypted_payload sample_envelope) (te_encrypted_dek sample_envelope)
      get_master_kek = Inr (JObj d) \<and> build_request sample_envelope (JObj d) = Inr (sample_request ''k'')"
proof -
  obtain d where d: "sorted_json (JObj sample_payload) = JObj d" by simp
  have f: "is_float 100" using fl_of_int [of 100] by (simp add: is_float_def)
  have ok: "json_ok (JObj sample_payload)" by (simp add: sample_payload_def f)
  have "decrypt_envelope toy_crypto (fst sample_sealed) (snd sample_sealed) get_master_kek = Inr (JObj d)"
    unfolding d [symmetric] using toy_ok(1,3) ok
    by (intro decrypt_encrypt [where rnd = sample_random]) (simp_all add: rnd_ok_def sample_random_def sample_sealed_def del: json_ok.simps)
  moreover have "build_request sample_envelope (JObj d) = build_request sample_envelope (JObj sample_payload)"
    using ok d by (intro build_request_sorted) simp_all
  moreover have "build_request sample_envelope (JObj sample_payload) = Inr (sample_request ''k'')"
    by (simp add: build_request_def sample_payload_def need_str_def get_opt_str_def get_str_or_def
        need_float_def sample_request_def sample_envelope_def)
  ultimately show ?thesis by (auto simp: sample_envelope_def)
qed

lemma sample_opened:
  "decrypt_envelope toy_crypto (te_encrypted_payload sample_envelope) (te_encrypted_dek sample_envelope)
      get_master_kek = Inr j \<Longrightarrow> build_request sample_envelope j = Inr r \<Longrightarrow> r = sample_request ''k''"
  using sample_opened_json by auto

lemma key_scheduler_distinct [simp]:
  "key_scheduler x \<noteq> key_model m" "key_scheduler x \<noteq> key_signer k" "key_scheduler x \<noteq> key_revocation d"
  "key_scheduler x \<noteq> key_policy" "key_model m \<noteq> key_scheduler x" "key_signer k \<noteq> key_scheduler x"
  "key_revocation d \<noteq> key_scheduler x" "key_policy \<noteq> key_scheduler x"
  by (simp_all add: key_scheduler_def key_model_def key_signer_def key_revocation_def key_policy_def)

lemma sample_execute_cluster:
  "execute sample_platform (sample_request k) sample_cluster 0 0 (new_InferenceWorker sample_worker_node) =
   execute sample_platform (sample_request k) sample_etcd 0 0 (new_InferenceWorker sample_worker_node)"
proof -
  have v: "verify_artifact_for_execution cr co m d sample_cluster = verify_artifact_for_execution cr co m d sample_etcd"
    for cr co m d
    by (rule verify_frame) (simp_all add: sample_cluster_def etcd_kv.get_put_other)
  show ?thesis unfolding execute_def v by (rule refl)
qed

lemma sample_lease: "is_lease_valid 1 1 sample_cluster = (True, sample_cluster)"
proof -
  have "fadd 0 30 = 30" using fl_of_int [of 30] by (simp add: fadd_def)
  moreover have "lease_id_counter sample_etcd = 1" by (simp add: sample_etcd_def) (simp add: new_etcd_def)
  ultimately show ?thesis by (simp add: sample_cluster_def is_lease_valid_def grant_lease_def Let_def)
qed

lemma sample_envelope_verified: "verify_task_envelope sample_platform sample_envelope sample_cluster = Inr ()"
proof -
  have "validate_signature_algorithm (pl_environ sample_platform) (pl_oqs sample_platform) ''Ed25519'' = Inr ()"
    by (simp add: validate_signature_algorithm_def Let_def SUPPORTED_SIGNATURES_def PQ_SIGNATURES_def)
  moreover have "\<not> pl_dual sample_platform"
    by (simp add: pl_dual_def dual_required_def load_PqcConfig_def getenv_def sample_platform_def)
  moreover have "ed_verify (pl_crypto sample_platform) (hex [5]) ([5] @ m) m = Inr ()" for m
    by (simp add: sample_platform_def toy_crypto_def)
  ultimately show ?thesis
    by (simp add: verify_task_envelope_def sample_envelope_def sample_cluster_def Let_def)
qed

lemma sample_answered:
  "\<exists>resp w'. ExecuteTask sample_platform sample_context sample_envelope sample_inputs
       (new_InferenceWorker sample_worker_node) sample_cluster = (Inr resp, w', sample_cluster)"
proof -
  have a: "authorize_scheduler (extract_spiffe_id sample_context)"
    by (simp add: sample_context_def extract_spiffe_id_def startswith_def authorize_scheduler_def)
  have i: "ni_now_expiry sample_inputs = 1" "te_expires_at sample_envelope = 10"
    "te_leader_lease_id sample_envelope = 1" "ni_now_lease sample_inputs = 1"
    by (simp_all add: sample_inputs_def sample_envelope_def)
  obtain d where d: "decrypt_envelope toy_crypto (te_encrypted_payload sample_envelope)
      (te_encrypted_dek sample_envelope) get_master_kek = Inr (JObj d)"
    "build_request sample_envelope (JObj d) = Inr (sample_request ''k'')"
    using sample_opened_json by blast
  have c: "pl_crypto sample_platform = toy_crypto" by (simp add: sample_platform_def)
  show ?thesis
    by (simp add: ExecuteTask_def a sample_envelope_verified i sample_lease c d split: prod.split)
qed

section \<open>Properties\<close>

text \<open>
  The guards of a task in the order of their precedence, each with the status that its failure
  is answered with: the caller, the envelope, the expiry, the leader's lease, the decryption and
  the fields of the payload. \<open>request_in\<close> is what the payload has to contain, and for which
  request it asks.
\<close>

definition envelope_authentic :: "platform \<Rightarrow> SignedTaskEnvelope \<Rightarrow> etcd \<Rightarrow> bool" where
  "envelope_authentic pl req e \<longleftrightarrow>
     validate_signature_algorithm (pl_environ pl) (pl_oqs pl) (te_signature_algorithm req) = Inr () \<and>
     (\<exists>pem. etcd_get (key_scheduler (te_key_id req)) e = Some pem \<and> pem \<noteq> [] \<and>
        ed_verify (pl_crypto pl) pem (te_signature req) (te_encrypted_payload req @ te_encrypted_dek req) = Inr ()) \<and>
     (pl_dual pl \<longrightarrow> te_pq_signature req \<noteq> [] \<and>
        validate_signature_algorithm (pl_environ pl) (pl_oqs pl) (te_pq_signature_algorithm req) = Inr ())"

definition request_in :: "SignedTaskEnvelope \<Rightarrow> json \<Rightarrow> ExecutionRequest \<Rightarrow> bool" where
  "request_in req payload x \<longleftrightarrow> (\<exists>d. payload = JObj d \<and>
     r_task_id x = te_task_id req \<and> r_node_id x = te_node_id req \<and>
     dget d ''model_id'' = Some (JStr (r_model_id x)) \<and>
     (dget d ''model_digest'' \<in> {None, Some JNull} \<and> r_model_digest x = None \<or>
      (\<exists>digest. dget d ''model_digest'' = Some (JStr digest) \<and> r_model_digest x = Some digest)) \<and>
     dget d ''payload_ref'' = Some (JStr (r_payload_ref x)) \<and>
     (dget d ''idempotency_key'' = None \<and> r_idempotency_key x = [] \<or>
      dget d ''idempotency_key'' = Some (JStr (r_idempotency_key x))) \<and>
     (dget d ''timeout_ms'' = Some (JFloat (r_timeout_ms x)) \<or>
      (\<exists>i. dget d ''timeout_ms'' = Some (JInt i) \<and> r_timeout_ms x = fl (of_int i))))"

definition task_guards ::
    "platform \<Rightarrow> auth_context \<Rightarrow> SignedTaskEnvelope \<Rightarrow> node_inputs \<Rightarrow> etcd \<Rightarrow> (rpc_status \<times> bool) list" where
  "task_guards pl ctx req ni e =
     (let opened = decrypt_envelope (pl_crypto pl) (te_encrypted_payload req) (te_encrypted_dek req) get_master_kek in
      [(UNAUTHENTICATED, extract_spiffe_id ctx = Some ''spiffe://distributed-ai.local/scheduler/master''),
       (PERMISSION_DENIED, envelope_authentic pl req e),
       (DEADLINE_EXCEEDED, ni_now_expiry ni \<le> te_expires_at req),
       (FAILED_PRECONDITION, \<exists>expiry. leases e (te_leader_lease_id req) = Some expiry \<and> ni_now_lease ni \<le> expiry),
       (INTERNAL, \<exists>payload. opened = Inr payload),
       (UNKNOWN, \<exists>payload x. opened = Inr payload \<and> request_in req payload x)])"

lemma verify_task_envelope_iff: "verify_task_envelope pl req e = Inr () \<longleftrightarrow> envelope_authentic pl req e"
  by (auto simp: verify_task_envelope_def envelope_authentic_def rbind_Inr_iff Let_def truthy_iff)

lemma payload_fields:
  "need_str d k = Inr s \<longleftrightarrow> dget d k = Some (JStr s)"
  "get_str_or d k dflt = Inr s \<longleftrightarrow> dget d k = None \<and> s = dflt \<or> dget d k = Some (JStr s)"
  "get_opt_str d k = Inr so \<longleftrightarrow> dget d k \<in> {None, Some JNull} \<and> so = None \<or> (\<exists>s. dget d k = Some (JStr s) \<and> so = Some s)"
  "need_float d k = Inr x \<longleftrightarrow> dget d k = Some (JFloat x) \<or> (\<exists>i. dget d k = Some (JInt i) \<and> x = fl (of_int i))"
  by (auto simp: need_str_def get_str_or_def get_opt_str_def need_float_def split: option.splits json.splits)

lemma build_request_iff: "build_request req payload = Inr x \<longleftrightarrow> request_in req payload x"
proof (cases payload)
  case (JObj d)
  show ?thesis
    unfolding JObj build_request_def request_in_def rbind_Inr_iff payload_fields json.case json.inject
    by (cases x) auto
qed (simp_all add: build_request_def request_in_def)

lemma lease_valid_iff:
  "fst (is_lease_valid l now e) \<longleftrightarrow> (\<exists>expiry. leases e l = Some expiry \<and> now \<le> expiry)"
  by (auto simp: is_lease_valid_def not_less split: option.splits)

text \<open>
  C4: a node runs a task only past every guard. \<open>ExecuteTask\<close> answers the first failed guard of
  \<open>task_guards\<close> with the status of that guard and leaves the worker untouched: the scheduler's
  identity, the envelope (an accepted algorithm, a signature over payload and wrapped key under
  the key published for its key identifier and, under the dual policy, a second signature of
  an accepted algorithm), its expiry, a leader lease that is valid, a payload that decrypts and
  a payload with the fields of a request. When none fails it runs the request the payload asks
  for and answers with the signed outcome. Either way the keys of the authoritative state stay.
\<close>

theorem task_guards_complete:
  "case ExecuteTask pl ctx req ni w e of (r, w', e') \<Rightarrow>
     (\<forall>k. etcd_get k e' = etcd_get k e) \<and>
     (case first_failed (task_guards pl ctx req ni e) of
        Some status \<Rightarrow> r = Inl status \<and> w' = w
      | None \<Rightarrow> (\<exists>payload x result.
          decrypt_envelope (pl_crypto pl) (te_encrypted_payload req) (te_encrypted_dek req) get_master_kek = Inr payload \<and>
          request_in req payload x \<and> run_worker pl x e' ni w = (result, w') \<and>
          r = Inr (sign_response pl req result ni (w_node w'))))"
proof (cases "authorize_scheduler (extract_spiffe_id ctx) \<and> envelope_authentic pl req e \<and> ni_now_expiry ni \<le> te_expires_at req")
  case False
  then show ?thesis
    using verify_task_envelope_iff [of pl req e]
    by (cases "verify_task_envelope pl req e")
      (auto simp: ExecuteTask_def task_guards_def Let_def authorize_scheduler_iff)
next
  case True
  then have v: "verify_task_envelope pl req e = Inr ()" by (simp add: verify_task_envelope_iff)
  obtain ok e1 where l: "is_lease_valid (te_leader_lease_id req) (ni_now_lease ni) e = (ok, e1)" by fastforce
  have ok: "ok \<longleftrightarrow> (\<exists>expiry. leases e (te_leader_lease_id req) = Some expiry \<and> ni_now_lease ni \<le> expiry)"
    using lease_valid_iff [of "te_leader_lease_id req" "ni_now_lease ni" e] by (simp add: l)
  have get: "etcd_get k e1 = etcd_get k e" for k
    using get_is_lease_valid [of k "te_leader_lease_id req" "ni_now_lease ni" e] by (simp add: l)
  let ?opened = "decrypt_envelope (pl_crypto pl) (te_encrypted_payload req) (te_encrypted_dek req) get_master_kek"
  show ?thesis
  proof (cases "ok \<and> (\<exists>payload x. ?opened = Inr payload \<and> build_request req payload = Inr x)")
    case False
    then show ?thesis
      using True v ok
      by (cases ?opened) (auto simp: ExecuteTask_def task_guards_def Let_def authorize_scheduler_iff l get build_request_iff
        split: bool.split sum.split)
  next
    case ready: True
    then obtain payload x where p: "?opened = Inr payload" "build_request req payload = Inr x" by blast
    then show ?thesis
      using True v ok ready
      by (auto simp: ExecuteTask_def task_guards_def Let_def authorize_scheduler_iff l get build_request_iff [symmetric]
        split: prod.split)
  qed
qed

text \<open>
  C25: a key is computed at most once. In every history of a worker that executes its requests one
  after the other, with the node failing and recovering in between, the results that were
  computed (not served from the cache) have pairwise different idempotency keys, and every
  result for a key is the remembered one, up to the cached flag.
\<close>

theorem execution_once_per_key:
  assumes "execute_all pl ws (new_InferenceWorker node) = (rs, w')"
  shows "distinct (map x_idempotency_key (filter (\<lambda>r. \<not> x_cached r) rs)) \<and>
    (\<forall>r\<in>set rs. dget (w_processed w') (x_idempotency_key r) = Some (r\<lparr>x_cached := False\<rparr>))"
  using execute_all_invariant [OF worker_ok_new assms] by blast

theorem execution_once_per_key_witness:
  "\<exists>r w'. execute_all sample_platform
       [(sample_worker_node, sample_request ''k'', sample_etcd, 0, 0),
        (sample_worker_node\<lparr>n_is_offline := True\<rparr>, sample_request ''k'', new_etcd, 0, 0)]
       (new_InferenceWorker sample_worker_node) = ([r, r\<lparr>x_cached := True\<rparr>], w') \<and>
     dget (w_processed w') (x_idempotency_key r) = Some (r\<lparr>x_cached := False\<rparr>)"
proof -
  let ?r = "execution_result (sample_request ''k'') sample_record (exec_duration_ms 0 0) sample_worker_node"
  let ?ws = "[(sample_worker_node, sample_request ''k'', sample_etcd, 0, 0),
        (sample_worker_node\<lparr>n_is_offline := True\<rparr>, sample_request ''k'', new_etcd, 0, 0)]"
  have w: "(new_InferenceWorker sample_worker_node)\<lparr>w_node := sample_worker_node\<rparr> = new_InferenceWorker sample_worker_node"
    by (simp add: new_InferenceWorker_def)
  obtain w' where e: "execute_all sample_platform ?ws (new_InferenceWorker sample_worker_node) = ([?r, ?r\<lparr>x_cached := True\<rparr>], w')"
    using w sample_execute [of "''k''"] by (simp add: execute_def [of _ _ new_etcd] sample_request_def)
  from execution_once_per_key [OF e] e show ?thesis by auto
qed

text \<open>
  Only admitted artifacts are executed. A computed result comes from an online node and
  from a model the registry admits for the requested digest at that moment; the result names
  the approved digest and is remembered under the request's key.
\<close>

lemma computed_only_if_admitted:
  assumes "execute pl req e t0 t1 w = Inr (res, w')" "dget (w_processed w) (r_idempotency_key req) = None"
  shows "\<exists>rcd. may_execute (pl_crypto pl) (pl_codecs pl) (r_model_id req) (r_model_digest req) e rcd \<and>
    x_model_digest res = Some (ar_digest rcd) \<and> x_status res = SUCCESS \<and>
    \<not> n_is_offline (w_node w) \<and> \<not> n_fail_execution (w_node w) \<and>
    dget (w_processed w') (r_idempotency_key req) = Some res"
  using executeD(1) [OF assms] by (auto simp: verify_iff execution_result_def)

text \<open>
  Answers are authentic and readable. The response of \<open>ExecuteTask\<close> carries a signature
  that verifies under the node's public key and opens with the shared key to a payload whose
  status is \<open>success\<close> exactly when the worker returned a result for the request in the
  envelope, and otherwise \<open>rejected\<close> (supply chain) or \<open>failed\<close>.
\<close>

lemma response_authentic:
  assumes "signing_ok (pl_crypto pl)" "aead_ok (pl_crypto pl)" "float_text_ok (ftext (pl_crypto pl))"
    and "rnd_ok (ni_random ni)" "worker_ok w"
    and "ExecuteTask pl ctx req ni w e = (Inr resp, w', e')"
  shows "ed_verify (pl_crypto pl) (ed_pem (pl_crypto pl) (n_signing_key (w_node w))) (re_signature resp)
      (re_encrypted_result resp @ re_encrypted_dek resp) = Inr () \<and>
    (\<exists>payload exec_req d.
      decrypt_envelope (pl_crypto pl) (te_encrypted_payload req) (te_encrypted_dek req) get_master_kek = Inr payload \<and>
      build_request req payload = Inr exec_req \<and>
      decrypt_envelope (pl_crypto pl) (re_encrypted_result resp) (re_encrypted_dek resp) get_master_kek = Inr (JObj d) \<and>
      map_of d ''status'' = Some (JStr (outcome (execute pl exec_req e' (ni_perf0 ni) (ni_perf1 ni) w))))"
  by (rule response_spec [OF assms])

end
