(* ===== verification/Telemetry.thy ===== *)
theory Telemetry
  imports Contracts
begin

text \<open>
  The telemetry package: \<open>TelemetryStore\<close> (\<open>telemetry/store.py\<close>), \<open>TelemetryValidator\<close>
  (\<open>telemetry/validator.py\<close>) and \<open>ReplayProtectionState\<close> (\<open>telemetry/replay_state.py\<close>).
  Each method of the store and of the replay state runs under its object's lock: a method
  is one step. The clock is an argument.

  The locale \<open>snapshot_store\<close> is the interface the gateway uses, the store its
  interpretation. The lemmas on \<open>validate_and_record\<close> lead to the two guarantees replay
  protection is for: per node the accepted sequence numbers strictly increase, and the
  memory for nonces stays bounded.
\<close>

section \<open>The store\<close>

record TelemetryStore =
  snapshots :: "(str, NodeTelemetrySnapshot) dict"
  staleness_threshold_ms :: pyfloat

definition new_TelemetryStore :: "pyfloat \<Rightarrow> TelemetryStore" where
  "new_TelemetryStore threshold = \<lparr>snapshots = [], staleness_threshold_ms = threshold\<rparr>"

definition set_staleness_threshold_ms :: "pyfloat \<Rightarrow> TelemetryStore \<Rightarrow> TelemetryStore" where
  "set_staleness_threshold_ms value_ms st = st\<lparr>staleness_threshold_ms := value_ms\<rparr>"

definition record_snapshot :: "NodeTelemetrySnapshot \<Rightarrow> TelemetryStore \<Rightarrow> TelemetryStore" where
  "record_snapshot snapshot st = st\<lparr>snapshots := dset (s_node_id snapshot) snapshot (snapshots st)\<rparr>"

definition get_snapshot :: "str \<Rightarrow> TelemetryStore \<Rightarrow> NodeTelemetrySnapshot option" where
  "get_snapshot node_id st = dget (snapshots st) node_id"

definition get_all_snapshots :: "TelemetryStore \<Rightarrow> NodeTelemetrySnapshot list" where
  "get_all_snapshots st = dvalues (snapshots st)"

definition aged :: "pyfloat \<Rightarrow> NodeTelemetrySnapshot \<Rightarrow> NodeTelemetrySnapshot" where
  "aged now snap =
     (let elapsed_ms = fmul (fsub now (s_timestamp snap)) 1000
      in snap\<lparr>s_last_heartbeat_age_ms := max 0 elapsed_ms\<rparr>)"

definition update_heartbeat_age :: "pyfloat \<Rightarrow> TelemetryStore \<Rightarrow> TelemetryStore" where
  "update_heartbeat_age now st = st\<lparr>snapshots := map (\<lambda>(k, snap). (k, aged now snap)) (snapshots st)\<rparr>"

definition clear_store :: "TelemetryStore \<Rightarrow> TelemetryStore" where
  "clear_store st = st\<lparr>snapshots := []\<rparr>"

text \<open>Each snapshot is stored under its own node identifier, once.\<close>

definition store_ok :: "TelemetryStore \<Rightarrow> bool" where
  "store_ok st \<longleftrightarrow> is_dict (snapshots st) \<and> (\<forall>(k, s)\<in>set (snapshots st). k = s_node_id s)"

lemma store_ok_new [simp, intro]: "store_ok (new_TelemetryStore x)"
  by (simp add: store_ok_def new_TelemetryStore_def)

lemma store_ok_clear [simp, intro]: "store_ok (clear_store st)"
  by (simp add: store_ok_def clear_store_def)

lemma set_dset_sub: "set (dset k v d) \<subseteq> insert (k, v) (set d)"
  by (induction d) auto

lemma store_ok_record [intro]: "store_ok st \<Longrightarrow> store_ok (record_snapshot s st)"
  using set_dset_sub [of "s_node_id s" s "snapshots st"]
  by (auto simp: store_ok_def record_snapshot_def)

lemma aged_id [simp, frame]: "s_node_id (aged now s) = s_node_id s"
  by (simp add: aged_def Let_def)

lemma store_ok_aged [intro]: "store_ok st \<Longrightarrow> store_ok (update_heartbeat_age now st)"
  by (auto simp: store_ok_def update_heartbeat_age_def case_prod_beta comp_def)

lemma get_snapshot_aged:
  "get_snapshot n (update_heartbeat_age now st) = map_option (aged now) (get_snapshot n st)"
  by (simp add: get_snapshot_def update_heartbeat_age_def map_of_map [unfolded comp_def] case_prod_beta)

locale snapshot_store =
  fixes record_s :: "'x \<Rightarrow> 's \<Rightarrow> 's"
    and lookup :: "'k \<Rightarrow> 's \<Rightarrow> 'x option"
    and all_of :: "'s \<Rightarrow> 'x list"
    and ident :: "'x \<Rightarrow> 'k"
    and inv :: "'s \<Rightarrow> bool"
  assumes inv_record: "inv s \<Longrightarrow> inv (record_s x s)"
    and lookup_record: "inv s \<Longrightarrow> lookup k (record_s x s) = (if k = ident x then Some x else lookup k s)"
    and all_iff: "inv s \<Longrightarrow> x \<in> set (all_of s) \<longleftrightarrow> lookup (ident x) s = Some x"
    and all_distinct: "inv s \<Longrightarrow> distinct (map ident (all_of s))"
begin

lemma inv_records: "inv s \<Longrightarrow> inv (fold record_s xs s)"
  by (induction xs arbitrary: s) (auto intro: inv_record)

text \<open>After any sequence of reports, a node's entry is its last report.\<close>

lemma lookup_records:
  "inv s \<Longrightarrow> lookup k (fold record_s xs s) =
     (case find (\<lambda>x. ident x = k) (rev xs) of None \<Rightarrow> lookup k s | Some x \<Rightarrow> Some x)"
  by (induction xs arbitrary: s rule: rev_induct) (auto simp: inv_records lookup_record)

lemma all_records:
  assumes "inv s" and "x \<in> set (all_of (fold record_s xs s))"
  shows "x \<in> set xs \<or> x \<in> set (all_of s)"
proof -
  have "lookup (ident x) (fold record_s xs s) = Some x"
    using assms all_iff inv_records by blast
  then show ?thesis
    using assms(1) by (auto simp: lookup_records all_iff find_Some_iff split: option.splits)
      (metis length_rev nth_mem set_rev)
qed

lemmas snapshot_specs = inv_record lookup_record all_iff all_distinct

end

interpretation mem: snapshot_store record_snapshot get_snapshot get_all_snapshots s_node_id store_ok
proof (unfold_locales, goal_cases)
  case (1 s x)
  then show ?case by (rule store_ok_record)
next
  case (2 s k x)
  then show ?case by (simp add: get_snapshot_def record_snapshot_def)
next
  case (3 s x)
  then show ?case
    by (auto simp: store_ok_def get_all_snapshots_def get_snapshot_def dvalues_def
        map_of_eq_Some_iff dest: map_of_SomeD intro: rev_image_eqI)
next
  case (4 s)
  then have "map s_node_id (get_all_snapshots s) = map fst (snapshots s)"
    by (auto simp: store_ok_def get_all_snapshots_def dvalues_def)
  then show ?case using 4 by (simp add: store_ok_def)
qed

section \<open>The validator\<close>

record TelemetryValidator =
  max_allowed_divergence_pct :: pyfloat

definition is_stale :: "NodeTelemetrySnapshot \<Rightarrow> pyfloat \<Rightarrow> bool" where
  "is_stale snapshot threshold_ms \<longleftrightarrow> s_last_heartbeat_age_ms snapshot > threshold_ms"

definition rtt_divergence :: "pyfloat \<Rightarrow> pyfloat \<Rightarrow> pyfloat" where
  "rtt_divergence observed reported =
     fmul (fdiv \<bar>fsub observed reported\<bar> (max reported 1)) 100"

definition cross_validate_rtt :: "TelemetryValidator \<Rightarrow> NodeTelemetrySnapshot \<Rightarrow> bool \<times> rtt_reason" where
  "cross_validate_rtt v snapshot =
     (case s_gateway_observed_rtt_ms snapshot of
        None \<Rightarrow> (True, No_gateway_measurement)
      | Some observed \<Rightarrow>
          let reported = s_rtt_ms snapshot in
          if reported \<le> 0 then (False, Invalid_reported_rtt_zero_or_negative)
          else (let divergence = rtt_divergence observed reported in
            if divergence > max_allowed_divergence_pct v
            then (False, Divergence_exceeded divergence)
            else (True, Validated)))"

section \<open>Replay protection\<close>

record replay_state =
  max_clock_skew_seconds :: pyfloat
  highest_sequence :: "str \<rightharpoonup> int"
  seen_nonces :: "str \<rightharpoonup> str set"

definition new_replay_state :: "pyfloat \<Rightarrow> replay_state" where
  "new_replay_state skew =
     \<lparr>max_clock_skew_seconds = skew, highest_sequence = Map.empty, seen_nonces = Map.empty\<rparr>"

definition highest_seq :: "replay_state \<Rightarrow> str \<Rightarrow> int" where
  "highest_seq st node_id = (case highest_sequence st node_id of None \<Rightarrow> - 1 | Some h \<Rightarrow> h)"

definition nonces_of :: "replay_state \<Rightarrow> str \<Rightarrow> str set" where
  "nonces_of st node_id = (case seen_nonces st node_id of None \<Rightarrow> {} | Some ns \<Rightarrow> ns)"

text \<open>Bounding the set: beyond 1000 nonces only the newest is kept.\<close>

definition add_nonce :: "str \<Rightarrow> str set \<Rightarrow> str set" where
  "add_nonce nonce ns = (let ns1 = insert nonce ns in if card ns1 > 1000 then {nonce} else ns1)"

definition validate_and_record ::
    "str \<Rightarrow> int \<Rightarrow> str \<Rightarrow> pyfloat \<Rightarrow> pyfloat \<Rightarrow> pyfloat \<Rightarrow> replay_state \<Rightarrow> bool \<times> replay_state" where
  "validate_and_record node_id sequence_number nonce timestamp expires_at now st =
     (if now > expires_at then (False, st)
      else if timestamp > fadd now (max_clock_skew_seconds st) then (False, st)
      else if sequence_number \<le> highest_seq st node_id then (False, st)
      else
        (let st1 = st\<lparr>seen_nonces := (seen_nonces st)(node_id \<mapsto> nonces_of st node_id)\<rparr>
         in if nonce \<in> nonces_of st1 node_id then (False, st1)
            else (True, st1\<lparr>
              highest_sequence := (highest_sequence st1)(node_id \<mapsto> sequence_number),
              seen_nonces := (seen_nonces st1)(node_id \<mapsto> add_nonce nonce (nonces_of st1 node_id))\<rparr>)))"

record msg =
  m_node_id :: str
  m_sequence_number :: int
  m_nonce :: str
  m_timestamp :: pyfloat
  m_expires_at :: pyfloat

definition validate_msg :: "pyfloat \<Rightarrow> msg \<Rightarrow> replay_state \<Rightarrow> bool \<times> replay_state" where
  "validate_msg now m st =
     validate_and_record (m_node_id m) (m_sequence_number m) (m_nonce m) (m_timestamp m) (m_expires_at m) now st"

text \<open>The messages accepted along a stream, each with the clock at its arrival.\<close>

fun accepted :: "(pyfloat \<times> msg) list \<Rightarrow> replay_state \<Rightarrow> msg list" where
  "accepted [] st = []"
| "accepted ((now, m) # ms) st =
     (case validate_msg now m st of
        (True, st1) \<Rightarrow> m # accepted ms st1
      | (False, st1) \<Rightarrow> accepted ms st1)"

lemma nonces_of_upd [simp]:
  "nonces_of (st\<lparr>seen_nonces := (seen_nonces st)(n \<mapsto> ns)\<rparr>) k = (if k = n then ns else nonces_of st k)"
  by (simp add: nonces_of_def)

lemma validate_TrueD:
  assumes "validate_and_record n s nonce ts ex now st = (True, st')"
  shows "now \<le> ex" "ts \<le> fadd now (max_clock_skew_seconds st)" "highest_seq st n < s"
    "nonce \<notin> nonces_of st n"
    "highest_seq st' k = (if k = n then s else highest_seq st k)"
    "nonces_of st' k = (if k = n then add_nonce nonce (nonces_of st n) else nonces_of st k)"
    "max_clock_skew_seconds st' = max_clock_skew_seconds st"
  using assms by (auto simp: validate_and_record_def Let_def highest_seq_def nonces_of_def split: if_splits)

lemma validate_FalseD:
  assumes "validate_and_record n s nonce ts ex now st = (False, st')"
  shows "highest_seq st' k = highest_seq st k" "nonces_of st' k = nonces_of st k"
    "max_clock_skew_seconds st' = max_clock_skew_seconds st"
  using assms by (auto simp: validate_and_record_def Let_def highest_seq_def nonces_of_def split: if_splits)

lemma validate_accepts:
  "now \<le> ex \<Longrightarrow> ts \<le> fadd now (max_clock_skew_seconds st) \<Longrightarrow> highest_seq st n < s \<Longrightarrow>
    nonce \<notin> nonces_of st n \<Longrightarrow> fst (validate_and_record n s nonce ts ex now st)"
  by (simp add: validate_and_record_def Let_def)

lemma accepted_above:
  "\<forall>m\<in>set (accepted ms st). highest_seq st (m_node_id m) < m_sequence_number m"
proof (induction ms arbitrary: st)
  case Nil
  then show ?case by simp
next
  case (Cons nm ms)
  obtain now m where nm: "nm = (now, m)" by fastforce
  obtain b st1 where v: "validate_msg now m st = (b, st1)" by fastforce
  show ?case
  proof (cases b)
    case True
    then have t: "validate_msg now m st = (True, st1)" using v by simp
    note d = validate_TrueD [OF t [unfolded validate_msg_def]]
    have "highest_seq st (m_node_id m') < m_sequence_number m'" if "m' \<in> set (accepted ms st1)" for m'
      using Cons.IH [of st1] that d(3) d(5) [of "m_node_id m'"] by (fastforce split: if_splits)
    then show ?thesis using d(3) by (simp add: nm t)
  next
    case False
    then have t: "validate_msg now m st = (False, st1)" using v by simp
    note d = validate_FalseD [OF t [unfolded validate_msg_def]]
    show ?thesis using Cons.IH [of st1] by (simp add: nm t d)
  qed
qed

lemma accepted_increasing:
  "sorted_wrt (\<lambda>m m'. m_node_id m = m_node_id m' \<longrightarrow> m_sequence_number m < m_sequence_number m') (accepted ms st)"
proof (induction ms arbitrary: st)
  case Nil
  then show ?case by simp
next
  case (Cons nm ms)
  obtain now m where nm: "nm = (now, m)" by fastforce
  obtain b st1 where v: "validate_msg now m st = (b, st1)" by fastforce
  show ?case
  proof (cases b)
    case True
    then have t: "validate_msg now m st = (True, st1)" using v by simp
    have "m_sequence_number m < m_sequence_number m'"
      if "m' \<in> set (accepted ms st1)" "m_node_id m = m_node_id m'" for m'
      using accepted_above [of ms st1] that validate_TrueD(5) [OF t [unfolded validate_msg_def], of "m_node_id m'"]
      by auto
    then show ?thesis using Cons.IH [of st1] by (auto simp: nm t)
  next
    case False
    then show ?thesis using v Cons.IH [of st1] by (simp add: nm)
  qed
qed

definition replay_ok :: "replay_state \<Rightarrow> bool" where
  "replay_ok st \<longleftrightarrow> (\<forall>n. finite (nonces_of st n) \<and> card (nonces_of st n) \<le> 1000)"

lemma replay_ok_new: "replay_ok (new_replay_state skew)"
  by (simp add: replay_ok_def new_replay_state_def nonces_of_def)

lemma add_nonce_ok: "finite ns \<Longrightarrow> card ns \<le> 1000 \<Longrightarrow> finite (add_nonce x ns) \<and> card (add_nonce x ns) \<le> 1000"
  by (simp add: add_nonce_def Let_def)

lemma add_nonce_in [simp]: "x \<in> add_nonce x ns"
  by (simp add: add_nonce_def Let_def)

lemma replay_ok_step: "replay_ok st \<Longrightarrow> validate_and_record n s nonce ts ex now st = (b, st') \<Longrightarrow> replay_ok st'"
  by (cases b) (auto simp: replay_ok_def validate_TrueD(6) validate_FalseD(2) add_nonce_ok)

lemma accepted_filter_increasing:
  "sorted_wrt (<) (map m_sequence_number (filter (\<lambda>m. m_node_id m = n) (accepted ms st)))"
  unfolding sorted_wrt_map
  by (rule sorted_wrt_mono_rel [OF _ sorted_wrt_filter [OF accepted_increasing]]) auto

fun replay_run :: "(pyfloat \<times> msg) list \<Rightarrow> replay_state \<Rightarrow> replay_state" where
  "replay_run [] st = st"
| "replay_run ((now, m) # ms) st = replay_run ms (snd (validate_msg now m st))"

lemma replay_ok_run: "replay_ok st \<Longrightarrow> replay_ok (replay_run ms st)"
proof (induction ms arbitrary: st)
  case (Cons nm ms)
  obtain now m where nm: "nm = (now, m)" by fastforce
  have "replay_ok (snd (validate_msg now m st))"
    using replay_ok_step [OF Cons.prems] by (metis prod.collapse validate_msg_def)
  then show ?case using Cons.IH nm by simp
qed simp

section \<open>Properties\<close>

text \<open>
  C28: replay protection. Whatever stream of messages arrives, from whatever state, the
  messages accepted for a node carry strictly increasing sequence numbers; so no message is
  accepted twice, in any order of arrival.
\<close>

theorem replay_sequences_increase:
  "sorted_wrt (<) (map m_sequence_number (filter (\<lambda>m. m_node_id m = n) (accepted ms st))) \<and>
   distinct (accepted ms st)"
proof
  show "sorted_wrt (<) (map m_sequence_number (filter (\<lambda>m. m_node_id m = n) (accepted ms st)))"
    by (rule accepted_filter_increasing)
  have "sorted_wrt (\<noteq>) (accepted ms st)"
    by (rule sorted_wrt_mono_rel [OF _ accepted_increasing]) auto
  then show "distinct (accepted ms st)"
    by (auto simp: distinct_conv_nth sorted_wrt_iff_nth_less) (metis linorder_neqE_nat)
qed

text \<open>
  When a message is accepted. \<open>validate_and_record\<close> accepts exactly the messages that
  have not expired, are not from beyond the clock skew, have a sequence number above the
  node's highest and a nonce the node's memory does not hold. Accepting one raises the
  node's mark to its number and leaves the other nodes' marks; rejecting one changes no
  node's mark and no node's nonces.
\<close>

lemma replay_accepts_exactly:
  "case validate_and_record n s nonce ts ex now st of (b, st') \<Rightarrow>
     (b \<longleftrightarrow> now \<le> ex \<and> ts \<le> fadd now (max_clock_skew_seconds st) \<and> highest_seq st n < s \<and>
            nonce \<notin> nonces_of st n) \<and>
     highest_seq st' k = (if b \<and> k = n then s else highest_seq st k) \<and>
     nonces_of st' k = (if b \<and> k = n then add_nonce nonce (nonces_of st n) else nonces_of st k)"
proof (cases "validate_and_record n s nonce ts ex now st")
  case (Pair b st')
  show ?thesis
  proof (cases b)
    case True
    then show ?thesis using Pair validate_TrueD [of n s nonce ts ex now st st'] by simp
  next
    case False
    then show ?thesis
      using Pair validate_FalseD [of n s nonce ts ex now st st'] validate_accepts [of now ex ts st n s nonce]
      by auto
  qed
qed

text \<open>
  The replay memory is bounded. After any stream of messages the nonces remembered for a
  node are at most 1000.
\<close>

lemma replay_memory_bounded:
  "finite (nonces_of (replay_run ms (new_replay_state skew)) n) \<and>
   card (nonces_of (replay_run ms (new_replay_state skew)) n) \<le> 1000"
  using replay_ok_run [OF replay_ok_new] by (simp add: replay_ok_def)

text \<open>
  The store keeps the last report of every node. After any sequence of reports,
  \<open>get_snapshot\<close> returns the last one of the node asked for, and \<open>get_all_snapshots\<close>
  returns exactly one snapshot per reporting node, its last.
\<close>

lemma store_keeps_last_report:
  "get_snapshot n (fold record_snapshot xs (new_TelemetryStore th)) = find (\<lambda>x. s_node_id x = n) (rev xs) \<and>
   distinct (map s_node_id (get_all_snapshots (fold record_snapshot xs (new_TelemetryStore th)))) \<and>
   (s \<in> set (get_all_snapshots (fold record_snapshot xs (new_TelemetryStore th))) \<longleftrightarrow>
      find (\<lambda>x. s_node_id x = s_node_id s) (rev xs) = Some s)"
proof -
  let ?st = "fold record_snapshot xs (new_TelemetryStore th)"
  have l: "get_snapshot k ?st = find (\<lambda>x. s_node_id x = k) (rev xs)" for k
    by (simp add: mem.lookup_records [OF store_ok_new] split: option.split)
      (simp add: get_snapshot_def new_TelemetryStore_def)
  have ok: "store_ok ?st" by (rule mem.inv_records [OF store_ok_new])
  show ?thesis using l mem.all_distinct [OF ok] mem.all_iff [OF ok, of s] by simp
qed

end
