(* ===== verification/DecisionEngine.thy ===== *)
theory DecisionEngine
  imports Telemetry "HOL-Library.Multiset"
begin

text \<open>
  The decision engine: the hard constraints (\<open>decision_engine/filter.py\<close>), the min-max
  normalisation (\<open>decision_engine/normalizer.py\<close>), the weighted score and the ranking
  (\<open>decision_engine/scorer.py\<close>) and the engine that composes them
  (\<open>decision_engine/engine.py\<close>), with the loaders of its configuration
  (\<open>common/config.py\<close>) on the entries of a parsed document, which \<open>Configuration\<close> reads from
  files. The readings of the clock are arguments.

  The lemmas show that the filter returns exactly the admissible nodes, that no step of the
  pipeline raises, that every normalised value is in the unit interval and every step is
  monotone although it rounds, and that the ranking is the sorted list of the scores.
\<close>

section \<open>Hard constraints\<close>

definition COST_CEILINGS_USD :: "(SLAClass, pyfloat) dict" where
  "COST_CEILINGS_USD = [(REAL_TIME, 10), (INTERACTIVE, 2), (BATCH, 1 / 2)]"

record ConstraintFilter =
  cf_staleness_threshold_ms :: pyfloat
  cf_max_queue_depth :: int
  cf_max_compute_pct :: pyfloat
  cf_validator :: TelemetryValidator

definition new_ConstraintFilter :: ConstraintFilter where
  "new_ConstraintFilter = \<lparr>cf_staleness_threshold_ms = 3000, cf_max_queue_depth = 50,
     cf_max_compute_pct = 98, cf_validator = \<lparr>max_allowed_divergence_pct = 50\<rparr>\<rparr>"

text \<open>Whether the task asks for a residency at all, and whether the node offers it.\<close>

definition wants_residency :: "TaskRequest \<Rightarrow> bool" where
  "wants_residency t \<longleftrightarrow> truthy (t_data_residency t) \<and>
     lower (the (t_data_residency t)) \<notin> {''none'', ''any'', []}"

definition offers_residency :: "TaskRequest \<Rightarrow> NodeTelemetrySnapshot \<Rightarrow> bool" where
  "offers_residency t node \<longleftrightarrow>
     lower (the (t_data_residency t)) \<in> set (map lower (s_data_residency_zones node))"

definition cost_ceiling :: "TaskRequest \<Rightarrow> pyfloat" where
  "cost_ceiling t = dget_or COST_CEILINGS_USD (t_sla_class t) 10"

text \<open>The body of the loop: the first constraint the node fails, \<open>None\<close> when it passes.\<close>

definition check_node :: "ConstraintFilter \<Rightarrow> TaskRequest \<Rightarrow> NodeTelemetrySnapshot \<Rightarrow> reason option" where
  "check_node f t node =
     (if s_health node = UNREACHABLE then Some Node_unreachable
      else if is_stale node (cf_staleness_threshold_ms f)
        then Some (Stale_telemetry_age (s_last_heartbeat_age_ms node))
      else (case cross_validate_rtt (cf_validator f) node of (is_valid, why) \<Rightarrow>
        if \<not> is_valid then Some (Gateway_cross_check_failed why)
        else if wants_residency t \<and> \<not> offers_residency t node
          then Some (Data_residency_mismatch (the (t_data_residency t)) (s_data_residency_zones node))
        else if s_queue_depth node \<ge> cf_max_queue_depth f
          then Some (Queue_saturated (s_queue_depth node) (cf_max_queue_depth f))
        else if compute_utilization node \<ge> cf_max_compute_pct f
          then Some (Compute_exhausted (compute_utilization node) (cf_max_compute_pct f))
        else if s_cost_per_1k_inferences_usd node > cost_ceiling t
          then Some (Cost_ceiling_exceeded (s_cost_per_1k_inferences_usd node) (cost_ceiling t))
        else if t_required_assurance_level t = HIGH_ASSURANCE \<and> s_assurance_level node \<noteq> HIGH_ASSURANCE
          then Some (Insufficient_assurance_level (s_assurance_level node))
        else None))"

fun filter_loop ::
    "ConstraintFilter \<Rightarrow> TaskRequest \<Rightarrow> NodeTelemetrySnapshot list \<Rightarrow>
     NodeTelemetrySnapshot list \<Rightarrow> (str, reason) dict \<Rightarrow>
     NodeTelemetrySnapshot list \<times> (str, reason) dict" where
  "filter_loop f t [] passed rejected = (passed, rejected)"
| "filter_loop f t (node # nodes) passed rejected =
     (case check_node f t node of
        None \<Rightarrow> filter_loop f t nodes (passed @ [node]) rejected
      | Some why \<Rightarrow> filter_loop f t nodes passed (dset (s_node_id node) why rejected))"

definition filter_candidates ::
    "ConstraintFilter \<Rightarrow> TaskRequest \<Rightarrow> NodeTelemetrySnapshot list \<Rightarrow>
     NodeTelemetrySnapshot list \<times> (str, reason) dict" where
  "filter_candidates f t candidates = filter_loop f t candidates [] []"

text \<open>What the constraints ask of a node, each on its own.\<close>

definition rtt_plausible :: "pyfloat \<Rightarrow> NodeTelemetrySnapshot \<Rightarrow> bool" where
  "rtt_plausible pct_max node \<longleftrightarrow> (case s_gateway_observed_rtt_ms node of
       None \<Rightarrow> True
     | Some obs \<Rightarrow> 0 < s_rtt_ms node \<and> rtt_divergence obs (s_rtt_ms node) \<le> pct_max)"

definition admissible :: "ConstraintFilter \<Rightarrow> TaskRequest \<Rightarrow> NodeTelemetrySnapshot \<Rightarrow> bool" where
  "admissible f t node \<longleftrightarrow>
     s_health node \<noteq> UNREACHABLE \<and>
     s_last_heartbeat_age_ms node \<le> cf_staleness_threshold_ms f \<and>
     rtt_plausible (max_allowed_divergence_pct (cf_validator f)) node \<and>
     (wants_residency t \<longrightarrow> offers_residency t node) \<and>
     s_queue_depth node < cf_max_queue_depth f \<and>
     s_cpu_util_pct node < cf_max_compute_pct f \<and> s_gpu_util_pct node < cf_max_compute_pct f \<and>
     s_cost_per_1k_inferences_usd node \<le> cost_ceiling t \<and>
     t_required_assurance_level t \<le> s_assurance_level node"

text \<open>
  The constraints in the order of their precedence, each with the reason its failure gives.
\<close>

definition rtt_fault :: "NodeTelemetrySnapshot \<Rightarrow> rtt_reason" where
  "rtt_fault node =
     (if s_rtt_ms node \<le> 0 then Invalid_reported_rtt_zero_or_negative
      else Divergence_exceeded (rtt_divergence (the (s_gateway_observed_rtt_ms node)) (s_rtt_ms node)))"

definition hard_constraints ::
    "ConstraintFilter \<Rightarrow> TaskRequest \<Rightarrow> NodeTelemetrySnapshot \<Rightarrow> (reason \<times> bool) list" where
  "hard_constraints f t node =
     [(Node_unreachable, s_health node \<noteq> UNREACHABLE),
      (Stale_telemetry_age (s_last_heartbeat_age_ms node), s_last_heartbeat_age_ms node \<le> cf_staleness_threshold_ms f),
      (Gateway_cross_check_failed (rtt_fault node), rtt_plausible (max_allowed_divergence_pct (cf_validator f)) node),
      (Data_residency_mismatch (the (t_data_residency t)) (s_data_residency_zones node),
        wants_residency t \<longrightarrow> offers_residency t node),
      (Queue_saturated (s_queue_depth node) (cf_max_queue_depth f), s_queue_depth node < cf_max_queue_depth f),
      (Compute_exhausted (max (s_cpu_util_pct node) (s_gpu_util_pct node)) (cf_max_compute_pct f),
        max (s_cpu_util_pct node) (s_gpu_util_pct node) < cf_max_compute_pct f),
      (Cost_ceiling_exceeded (s_cost_per_1k_inferences_usd node) (cost_ceiling t),
        s_cost_per_1k_inferences_usd node \<le> cost_ceiling t),
      (Insufficient_assurance_level (s_assurance_level node), t_required_assurance_level t \<le> s_assurance_level node)]"

lemma cross_validate_iff:
  "fst (cross_validate_rtt v node) \<longleftrightarrow> rtt_plausible (max_allowed_divergence_pct v) node"
  by (auto simp: cross_validate_rtt_def rtt_plausible_def Let_def split: option.splits)

lemma check_node_None_iff: "check_node f t node = None \<longleftrightarrow> admissible f t node"
  using cross_validate_iff [of "cf_validator f" node]
  by (cases "cross_validate_rtt (cf_validator f) node")
    (auto simp: check_node_def admissible_def is_stale_def compute_utilization_def not_le not_less)

lemma check_node_first: "check_node f t node = first_failed (hard_constraints f t node)"
proof -
  have "cross_validate_rtt (cf_validator f) node =
      (rtt_plausible (max_allowed_divergence_pct (cf_validator f)) node, snd (cross_validate_rtt (cf_validator f) node))"
    by (simp add: prod_eq_iff cross_validate_iff)
  moreover have "snd (cross_validate_rtt (cf_validator f) node) = rtt_fault node"
    if "\<not> rtt_plausible (max_allowed_divergence_pct (cf_validator f)) node"
    using that by (auto simp: cross_validate_rtt_def rtt_plausible_def rtt_fault_def Let_def split: option.splits if_splits)
  moreover have "t_required_assurance_level t \<le> s_assurance_level node \<longleftrightarrow>
      \<not> (t_required_assurance_level t = HIGH_ASSURANCE \<and> s_assurance_level node \<noteq> HIGH_ASSURANCE)"
    by (cases "t_required_assurance_level t"; cases "s_assurance_level node") simp_all
  ultimately show ?thesis
    by (auto simp: check_node_def hard_constraints_def is_stale_def compute_utilization_def not_le not_less split: prod.split)
qed

definition why_not :: "ConstraintFilter \<Rightarrow> TaskRequest \<Rightarrow> NodeTelemetrySnapshot \<Rightarrow> reason" where
  "why_not f t node = the (check_node f t node)"

lemma filter_loop_eq:
  "filter_loop f t nodes passed rejected =
     (passed @ filter (admissible f t) nodes,
      fold (\<lambda>x d. dset (s_node_id x) (why_not f t x) d) (filter (\<lambda>x. \<not> admissible f t x) nodes) rejected)"
proof (induction nodes arbitrary: passed rejected)
  case Nil
  then show ?case by simp
next
  case (Cons x xs)
  show ?case
  proof (cases "check_node f t x")
    case None
    then show ?thesis using Cons.IH check_node_None_iff [of f t x] by simp
  next
    case (Some why)
    then have "\<not> admissible f t x" "why_not f t x = why"
      using check_node_None_iff [of f t x] by (simp_all add: why_not_def)
    then show ?thesis using Some Cons.IH by simp
  qed
qed

lemma filter_candidates_eq:
  "filter_candidates f t nodes =
     (filter (admissible f t) nodes,
      dict_of s_node_id (why_not f t) (filter (\<lambda>x. \<not> admissible f t x) nodes))"
  by (simp add: filter_candidates_def filter_loop_eq dict_of_def)

section \<open>Normalisation\<close>

definition normalize_metric :: "(str, pyfloat) dict \<Rightarrow> (str, pyfloat) dict" where
  "normalize_metric vals =
     (if vals = [] then []
      else
        (let raw_vals = dvalues vals;
             min_v = Min (set raw_vals);
             max_v = Max (set raw_vals);
             spread = fsub max_v min_v
         in if spread \<le> fl (1 / 10 ^ 9) then map (\<lambda>(node_id, val). (node_id, 0)) vals
            else map (\<lambda>(node_id, val). (node_id, fdiv (fsub val min_v) spread)) vals))"

text \<open>The raw value of each of the five dimensions.\<close>

definition inv_bandwidth :: "NodeTelemetrySnapshot \<Rightarrow> pyfloat" where
  "inv_bandwidth c = fdiv 1 (max (s_bandwidth_available_mbps c) (fl (1 / 1000)))"

definition queue_load :: "NodeTelemetrySnapshot \<Rightarrow> pyfloat" where
  "queue_load c = fl (of_int (s_queue_depth c))"

definition key_error :: "str \<Rightarrow> exc" where
  "key_error k = py_exc KeyErrorClass k"

type_synonym pool = "(str, (str, pyfloat) dict) dict"

definition normalized_row ::
    "(str, pyfloat) dict \<Rightarrow> (str, pyfloat) dict \<Rightarrow> (str, pyfloat) dict \<Rightarrow> (str, pyfloat) dict \<Rightarrow>
     (str, pyfloat) dict \<Rightarrow> str \<Rightarrow> exc + (str, pyfloat) dict" where
  "normalized_row norm_lat norm_inv_bw norm_cmp norm_queue norm_cost nid =
     rbind (getitem (key_error nid) norm_lat nid) (\<lambda>lat.
     rbind (getitem (key_error nid) norm_inv_bw nid) (\<lambda>bw.
     rbind (getitem (key_error nid) norm_cmp nid) (\<lambda>cmp.
     rbind (getitem (key_error nid) norm_queue nid) (\<lambda>queue.
     rbind (getitem (key_error nid) norm_cost nid) (\<lambda>cost.
       Inr [(''latency'', lat), (''bandwidth'', bw), (''compute'', cmp), (''queue'', queue),
            (''cost'', cost)])))))"

fun pool_loop :: "(str \<Rightarrow> exc + (str, pyfloat) dict) \<Rightarrow> NodeTelemetrySnapshot list \<Rightarrow> pool \<Rightarrow> exc + pool" where
  "pool_loop row [] acc = Inr acc"
| "pool_loop row (c # cs) acc = rbind (row (s_node_id c)) (\<lambda>m. pool_loop row cs (dset (s_node_id c) m acc))"

definition normalize_candidates :: "NodeTelemetrySnapshot list \<Rightarrow> exc + pool" where
  "normalize_candidates candidates =
     (if candidates = [] then Inr []
      else
        (let norm_lat = normalize_metric (dict_of s_node_id s_rtt_ms candidates);
             norm_inv_bw = normalize_metric (dict_of s_node_id inv_bandwidth candidates);
             norm_cmp = normalize_metric (dict_of s_node_id compute_utilization candidates);
             norm_queue = normalize_metric (dict_of s_node_id queue_load candidates);
             norm_cost = normalize_metric (dict_of s_node_id s_cost_per_1k_inferences_usd candidates)
         in pool_loop (normalized_row norm_lat norm_inv_bw norm_cmp norm_queue norm_cost) candidates []))"

section \<open>Scoring and ranking\<close>

definition calculate_score :: "(str, pyfloat) dict \<Rightarrow> SLAWeights \<Rightarrow> exc + pyfloat" where
  "calculate_score metrics weights =
     rbind (getitem (key_error ''latency'') metrics ''latency'') (\<lambda>lat.
     rbind (getitem (key_error ''bandwidth'') metrics ''bandwidth'') (\<lambda>bw.
     rbind (getitem (key_error ''compute'') metrics ''compute'') (\<lambda>cmp.
     rbind (getitem (key_error ''queue'') metrics ''queue'') (\<lambda>queue.
     rbind (getitem (key_error ''cost'') metrics ''cost'') (\<lambda>cost.
       (let score = fadd (fadd (fadd (fadd (fmul (w_lat weights) lat) (fmul (w_bw weights) bw))
                      (fmul (w_cmp weights) cmp)) (fmul (w_queue weights) queue))
                      (fmul (w_cost weights) cost)
        in Inr (round_digits 6 score)))))))"

definition rank_candidates :: "pool \<Rightarrow> SLAWeights \<Rightarrow> exc + (str \<times> pyfloat) list" where
  "rank_candidates normalized_pool weights =
     rbind (rmap (\<lambda>(node_id, metrics). rbind (calculate_score metrics weights) (\<lambda>score. Inr (node_id, score)))
              normalized_pool)
       (\<lambda>scores. Inr (sort_key (\<lambda>item. (snd item, fst item)) scores))"

section \<open>Configuration\<close>

text \<open>
  \<open>load_sla_weights_from_file\<close> on the parsed \<open>profiles\<close> mapping: each entry is a class name
  and the five weights as written, \<open>None\<close> for a mapping the constructor does not accept.
\<close>

type_synonym weights5 = "pyfloat \<times> pyfloat \<times> pyfloat \<times> pyfloat \<times> pyfloat"

fun load_sla_weights :: "(str \<times> weights5 option) list \<Rightarrow> (SLAClass, SLAWeights) dict \<Rightarrow> (SLAClass, SLAWeights) dict" where
  "load_sla_weights [] profiles = profiles"
| "load_sla_weights ((sla_key, ws) # rest) profiles =
     (case (sla_of sla_key, ws) of
        (Some sla_class, Some (lat, bw, cmp, queue, cost)) \<Rightarrow>
          (case mk_SLAWeights lat bw cmp queue cost of
             Inl e \<Rightarrow> load_sla_weights rest profiles
           | Inr w \<Rightarrow> load_sla_weights rest (dset sla_class w profiles))
      | _ \<Rightarrow> load_sla_weights rest profiles)"

record StaticPolicy =
  default_fallback_chain :: "str list"
  residency_overrides :: "(str, str list) dict"

text \<open>The two entries of the parsed file, \<open>None\<close> where the file has none.\<close>

definition load_static_routing_policy :: "str list option \<Rightarrow> (str, str list) dict option \<Rightarrow> StaticPolicy" where
  "load_static_routing_policy chain overrides =
     \<lparr>default_fallback_chain =
        (case chain of None \<Rightarrow> [''edge-frankfurt-1'', ''cloud-aws-eu-central''] | Some c \<Rightarrow> c),
      residency_overrides = (case overrides of None \<Rightarrow> [] | Some d \<Rightarrow> d)\<rparr>"

section \<open>The engine\<close>

record DecisionEngine =
  custom_sla_profiles :: "(SLAClass, SLAWeights) dict"
  filter_engine :: ConstraintFilter
  ema_alpha :: pyfloat
  challenger_margin :: pyfloat
  node_ema_scores :: "(str, pyfloat) dict"
  static_policy :: StaticPolicy

definition update_sla_profiles :: "(SLAClass, SLAWeights) dict \<Rightarrow> DecisionEngine \<Rightarrow> DecisionEngine" where
  "update_sla_profiles profiles en = en\<lparr>custom_sla_profiles := dupdate profiles (custom_sla_profiles en)\<rparr>"

definition elapsed_ms :: "pyfloat \<Rightarrow> pyfloat \<Rightarrow> pyfloat" where
  "elapsed_ms t0 t1 = fmul (fsub t1 t0) 1000"

text \<open>The chain of the static policy: the override of the task's residency, or the default.\<close>

definition fallback_chain_for :: "DecisionEngine \<Rightarrow> TaskRequest \<Rightarrow> str list" where
  "fallback_chain_for en t =
     (let chain = default_fallback_chain (static_policy en) in
      if truthy (t_data_residency t)
      then dget_or (residency_overrides (static_policy en)) (lower (the (t_data_residency t))) chain
      else chain)"

definition get_static_fallback_decision ::
    "DecisionEngine \<Rightarrow> TaskRequest \<Rightarrow> str \<Rightarrow> pyfloat \<Rightarrow> pyfloat \<Rightarrow> PlacementDecision" where
  "get_static_fallback_decision en t why t0 t1 =
     (let chain = fallback_chain_for en t;
          chosen = (if chain = [] then ''cloud-default-fallback'' else chain ! 0);
          runner_up = (if length chain > 1 then Some (chain ! 1) else None);
          weights = get_sla_weights (t_sla_class t) (Some (custom_sla_profiles en))
      in \<lparr>d_task_id = t_task_id t, d_chosen_node = chosen, d_chosen_score = 1,
          d_runner_up_node = runner_up,
          d_runner_up_score = (if truthy runner_up then Some 1 else None),
          d_weights_used = to_dict weights,
          d_decision_latency_ms = round_digits 3 (elapsed_ms t0 t1),
          d_fallback_chain = chain,
          d_filtered_out_nodes = [(''system'', Text why)],
          d_used_fallback_policy = True\<rparr>)"

text \<open>Keeping the incumbent unless the challenger beats it by the margin.\<close>

definition apply_hysteresis ::
    "pyfloat \<Rightarrow> str option \<Rightarrow> (str \<times> pyfloat) list \<Rightarrow> str \<times> pyfloat \<Rightarrow> str \<times> pyfloat" where
  "apply_hysteresis margin incumbent ranked chosen =
     (if truthy incumbent \<and> the incumbent \<noteq> fst chosen then
        (case find (\<lambda>(nid, score). nid = the incumbent) ranked of
           None \<Rightarrow> chosen
         | Some (nid, incumbent_score) \<Rightarrow>
             if snd chosen > fmul incumbent_score (fsub 1 margin)
             then (the incumbent, incumbent_score) else chosen)
      else chosen)"

definition ema_step :: "pyfloat \<Rightarrow> str \<times> pyfloat \<Rightarrow> (str, pyfloat) dict \<Rightarrow> (str, pyfloat) dict" where
  "ema_step alpha item ema =
     (case item of (nid, score) \<Rightarrow>
        (case dget ema nid of
           None \<Rightarrow> dset nid score ema
         | Some old \<Rightarrow> dset nid (fadd (fmul alpha score) (fmul (fsub 1 alpha) old)) ema))"

definition evaluate_placement ::
    "TaskRequest \<Rightarrow> NodeTelemetrySnapshot list \<Rightarrow> str option \<Rightarrow> pyfloat \<Rightarrow> pyfloat \<Rightarrow> DecisionEngine \<Rightarrow>
     exc + (PlacementDecision \<times> DecisionEngine)" where
  "evaluate_placement t candidates incumbent_node_id t0 t1 en =
     (case filter_candidates (filter_engine en) t candidates of (surviving, rejected) \<Rightarrow>
        if surviving = [] then
          Inr (get_static_fallback_decision en t ''all_candidates_failed_hard_constraints'' t0 t1, en)
        else
          (let weights = get_sla_weights (t_sla_class t) (Some (custom_sla_profiles en)) in
           rbind (normalize_candidates surviving) (\<lambda>normalized_pool.
           rbind (rank_candidates normalized_pool weights) (\<lambda>ranked_scores.
             (let chosen = apply_hysteresis (challenger_margin en) incumbent_node_id ranked_scores (ranked_scores ! 0);
                  en1 = en\<lparr>node_ema_scores := fold (ema_step (ema_alpha en)) ranked_scores (node_ema_scores en)\<rparr>;
                  runner_up = (if length ranked_scores > 1 then Some (ranked_scores ! 1) else None)
              in Inr
                (\<lparr>d_task_id = t_task_id t, d_chosen_node = fst chosen, d_chosen_score = snd chosen,
                  d_runner_up_node = map_option fst runner_up,
                  d_runner_up_score = map_option snd runner_up,
                  d_weights_used = to_dict weights,
                  d_decision_latency_ms = round_digits 3 (elapsed_ms t0 t1),
                  d_fallback_chain = map fst (take 3 ranked_scores),
                  d_filtered_out_nodes = rejected,
                  d_used_fallback_policy = False\<rparr>, en1))))))"

section \<open>The pipeline never raises\<close>

text \<open>The value of a metric on the scale of the pool's values.\<close>

definition scale :: "pyfloat list \<Rightarrow> pyfloat \<Rightarrow> pyfloat" where
  "scale vs x =
     (if fsub (Max (set vs)) (Min (set vs)) \<le> fl (1 / 10 ^ 9) then 0
      else fdiv (fsub x (Min (set vs))) (fsub (Max (set vs)) (Min (set vs))))"

lemma normalize_metric_eq:
  "normalize_metric vals = map (\<lambda>(k, v). (k, scale (dvalues vals) v)) vals"
  by (auto simp: normalize_metric_def scale_def Let_def)

lemma map_of_normalize_metric:
  "map_of (normalize_metric vals) k = map_option (scale (dvalues vals)) (map_of vals k)"
  by (simp add: normalize_metric_eq map_of_map [unfolded comp_def] case_prod_beta)

lemma scale_unit: "x \<in> set vs \<Longrightarrow> unit_range (scale vs x)"
proof -
  assume x: "x \<in> set vs"
  have p: "0 < fl (1 / 10 ^ 9)" by code_simp
  show ?thesis
  proof (cases "fsub (Max (set vs)) (Min (set vs)) \<le> fl (1 / 10 ^ 9)")
    case True
    then show ?thesis by (simp add: scale_def unit_range_def)
  next
    case False
    then have "0 < fl (Max (set vs) - Min (set vs))" using p by (simp add: fsub_def)
    then show ?thesis
      using fl.min_max_unit [of "Min (set vs)" x "Max (set vs)"] x False
      by (simp add: scale_def unit_range_def fdiv_def fsub_def)
  qed
qed

lemma scale_mono: "x \<le> y \<Longrightarrow> scale vs x \<le> scale vs y"
proof (cases "fsub (Max (set vs)) (Min (set vs)) \<le> fl (1 / 10 ^ 9)")
  case True
  then show ?thesis by (simp add: scale_def)
next
  case False
  assume "x \<le> y"
  moreover have "0 < fl (1 / 10 ^ 9)" by code_simp
  then have "0 < fl (Max (set vs) - Min (set vs))" using False by (simp add: fsub_def)
  ultimately show ?thesis
    using fl.min_max_mono [of x y "Max (set vs)" "Min (set vs)"] False
    by (simp add: scale_def fdiv_def fsub_def)
qed

text \<open>The metric \<open>g\<close> of the node \<open>n\<close>, normalised over the pool.\<close>

definition metric_of :: "(NodeTelemetrySnapshot \<Rightarrow> pyfloat) \<Rightarrow> NodeTelemetrySnapshot list \<Rightarrow> str \<Rightarrow> pyfloat" where
  "metric_of g cs n =
     (let d = dict_of s_node_id g cs in scale (dvalues d) (the (map_of d n)))"

definition row_of :: "NodeTelemetrySnapshot list \<Rightarrow> str \<Rightarrow> (str, pyfloat) dict" where
  "row_of cs n =
     [(''latency'', metric_of s_rtt_ms cs n), (''bandwidth'', metric_of inv_bandwidth cs n),
      (''compute'', metric_of compute_utilization cs n), (''queue'', metric_of queue_load cs n),
      (''cost'', metric_of s_cost_per_1k_inferences_usd cs n)]"

lemma map_of_dict_of_member: "c \<in> set cs \<Longrightarrow> \<exists>v. map_of (dict_of s_node_id g cs) (s_node_id c) = Some v"
  by (metis domIff dom_map_of_conv_image_fst image_eqI keys_dict_of option.exhaust)

lemma getitem_normalized:
  assumes "c \<in> set cs"
  shows "getitem e (normalize_metric (dict_of s_node_id g cs)) (s_node_id c) = Inr (metric_of g cs (s_node_id c))"
  using map_of_dict_of_member [OF assms, of g]
  by (auto simp: map_of_normalize_metric metric_of_def Let_def)

lemma pool_loop_Inr:
  "(\<And>c. c \<in> set cs \<Longrightarrow> row (s_node_id c) = Inr (g c)) \<Longrightarrow>
    pool_loop row cs acc = Inr (fold (\<lambda>c d. dset (s_node_id c) (g c) d) cs acc)"
  by (induction cs arbitrary: acc) auto

lemma normalize_candidates_eq:
  "normalize_candidates cs = Inr (dict_of s_node_id (\<lambda>c. row_of cs (s_node_id c)) cs)"
proof (cases "cs = []")
  case True
  then show ?thesis by (simp add: normalize_candidates_def dict_of_def)
next
  case False
  let ?row = "normalized_row (normalize_metric (dict_of s_node_id s_rtt_ms cs))
    (normalize_metric (dict_of s_node_id inv_bandwidth cs))
    (normalize_metric (dict_of s_node_id compute_utilization cs))
    (normalize_metric (dict_of s_node_id queue_load cs))
    (normalize_metric (dict_of s_node_id s_cost_per_1k_inferences_usd cs))"
  have "?row (s_node_id c) = Inr (row_of cs (s_node_id c))" if "c \<in> set cs" for c
    using that by (simp add: normalized_row_def getitem_normalized row_of_def)
  then have "pool_loop ?row cs [] = Inr (fold (\<lambda>c d. dset (s_node_id c) (row_of cs (s_node_id c)) d) cs [])"
    by (rule pool_loop_Inr)
  then show ?thesis using False by (simp add: normalize_candidates_def Let_def dict_of_def)
qed

lemma metric_of_unit:
  assumes "c \<in> set cs"
  shows "unit_range (metric_of g cs (s_node_id c))"
proof -
  obtain v where v: "map_of (dict_of s_node_id g cs) (s_node_id c) = Some v"
    using map_of_dict_of_member [OF assms, of g] by blast
  then have "v \<in> set (dvalues (dict_of s_node_id g cs))"
    by (auto simp: dvalues_def dest: map_of_SomeD intro: rev_image_eqI)
  then show ?thesis using v by (simp add: metric_of_def Let_def scale_unit)
qed

definition score5 :: "SLAWeights \<Rightarrow> pyfloat \<Rightarrow> pyfloat \<Rightarrow> pyfloat \<Rightarrow> pyfloat \<Rightarrow> pyfloat \<Rightarrow> pyfloat" where
  "score5 w lat bw cmp queue cost = round_digits 6
     (fadd (fadd (fadd (fadd (fmul (w_lat w) lat) (fmul (w_bw w) bw)) (fmul (w_cmp w) cmp))
       (fmul (w_queue w) queue)) (fmul (w_cost w) cost))"

definition composite :: "SLAWeights \<Rightarrow> NodeTelemetrySnapshot list \<Rightarrow> str \<Rightarrow> pyfloat" where
  "composite w cs n = score5 w (metric_of s_rtt_ms cs n) (metric_of inv_bandwidth cs n)
     (metric_of compute_utilization cs n) (metric_of queue_load cs n)
     (metric_of s_cost_per_1k_inferences_usd cs n)"

lemma calculate_score_row: "calculate_score (row_of cs n) w = Inr (composite w cs n)"
  by (simp add: calculate_score_def row_of_def getitem_def composite_def score5_def Let_def)

definition ranking :: "SLAWeights \<Rightarrow> NodeTelemetrySnapshot list \<Rightarrow> (str \<times> pyfloat) list" where
  "ranking w cs = sort_key (\<lambda>i. (snd i, fst i))
     (map (\<lambda>(n, m). (n, composite w cs n)) (dict_of s_node_id (\<lambda>c. row_of cs (s_node_id c)) cs))"

lemma rank_normalized:
  "rank_candidates (dict_of s_node_id (\<lambda>c. row_of cs (s_node_id c)) cs) w = Inr (ranking w cs)"
proof -
  let ?p = "dict_of s_node_id (\<lambda>c. row_of cs (s_node_id c)) cs"
  have "rmap (\<lambda>(n, m). rbind (calculate_score m w) (\<lambda>score. Inr (n, score))) ?p =
      Inr (map (\<lambda>(n, m). (n, composite w cs n)) ?p)"
    by (rule rmap_Inr) (auto dest!: dict_of_valsD simp: calculate_score_row)
  then show ?thesis by (simp add: rank_candidates_def ranking_def)
qed

lemma set_ranking: "set (ranking w cs) = (\<lambda>c. (s_node_id c, composite w cs (s_node_id c))) ` set cs"
proof -
  let ?p = "dict_of s_node_id (\<lambda>c. row_of cs (s_node_id c)) cs"
  have "set (ranking w cs) = (\<lambda>n. (n, composite w cs n)) ` fst ` set ?p"
    unfolding ranking_def set_sort set_map image_image by (rule image_cong) auto
  then show ?thesis by (simp only: keys_dict_of image_image)
qed

lemma distinct_ranking: "distinct (map fst (ranking w cs))"
proof -
  let ?p = "dict_of s_node_id (\<lambda>c. row_of cs (s_node_id c)) cs"
  have "distinct (map fst (map (\<lambda>(n, m). (n, composite w cs n)) ?p))"
    by (simp add: case_prod_beta comp_def)
  then show ?thesis unfolding ranking_def distinct_map by (simp add: distinct_map)
qed

lemma sorted_ranking: "sorted (map (\<lambda>i. (snd i, fst i)) (ranking w cs))"
  by (simp add: ranking_def)

lemma ranking_Nil_iff [simp]: "ranking w cs = [] \<longleftrightarrow> cs = []"
  using set_ranking [of w cs] by (metis image_is_empty set_empty)

text \<open>The engine without the error plumbing.\<close>

definition en_weights :: "DecisionEngine \<Rightarrow> TaskRequest \<Rightarrow> SLAWeights" where
  "en_weights en t = get_sla_weights (t_sla_class t) (Some (custom_sla_profiles en))"

definition survivors :: "DecisionEngine \<Rightarrow> TaskRequest \<Rightarrow> NodeTelemetrySnapshot list \<Rightarrow> NodeTelemetrySnapshot list" where
  "survivors en t cs = filter (admissible (filter_engine en) t) cs"

definition ranked :: "DecisionEngine \<Rightarrow> TaskRequest \<Rightarrow> NodeTelemetrySnapshot list \<Rightarrow> (str \<times> pyfloat) list" where
  "ranked en t cs = ranking (en_weights en t) (survivors en t cs)"

lemma evaluate_placement_none:
  "survivors en t cs = [] \<Longrightarrow> evaluate_placement t cs inc t0 t1 en =
     Inr (get_static_fallback_decision en t ''all_candidates_failed_hard_constraints'' t0 t1, en)"
  by (simp add: evaluate_placement_def filter_candidates_eq survivors_def)

lemma evaluate_placement_some:
  assumes "survivors en t cs \<noteq> []"
  shows "\<exists>d. evaluate_placement t cs inc t0 t1 en =
      Inr (d, en\<lparr>node_ema_scores := fold (ema_step (ema_alpha en)) (ranked en t cs) (node_ema_scores en)\<rparr>) \<and>
    (d_chosen_node d, d_chosen_score d) =
      apply_hysteresis (challenger_margin en) inc (ranked en t cs) (ranked en t cs ! 0) \<and>
    d_fallback_chain d = map fst (take 3 (ranked en t cs)) \<and>
    d_runner_up_node d = (if 1 < length (ranked en t cs) then Some (fst (ranked en t cs ! 1)) else None) \<and>
    d_runner_up_score d = (if 1 < length (ranked en t cs) then Some (snd (ranked en t cs ! 1)) else None) \<and>
    d_task_id d = t_task_id t \<and> \<not> d_used_fallback_policy d \<and>
    d_weights_used d = to_dict (en_weights en t) \<and>
    d_filtered_out_nodes d = snd (filter_candidates (filter_engine en) t cs)"
  using assms
  by (simp add: evaluate_placement_def filter_candidates_eq survivors_def normalize_candidates_eq
      rank_normalized ranked_def en_weights_def Let_def)

section \<open>Order, bounds, domination\<close>

lemma ranking_head_least:
  assumes "cs \<noteq> []" "c \<in> set cs"
  shows "(snd (ranking w cs ! 0), fst (ranking w cs ! 0)) \<le> (composite w cs (s_node_id c), s_node_id c)"
proof -
  obtain x xs where r: "ranking w cs = x # xs"
    using assms(1) by (metis list.exhaust ranking_Nil_iff)
  have "(s_node_id c, composite w cs (s_node_id c)) \<in> set (ranking w cs)"
    using assms(2) by (auto simp: set_ranking)
  then show ?thesis using sorted_ranking [of w cs] by (auto simp: r)
qed

lemma ranking_head:
  assumes "cs \<noteq> []"
  shows "\<exists>c\<in>set cs. ranking w cs ! 0 = (s_node_id c, composite w cs (s_node_id c))"
proof -
  have "ranking w cs ! 0 \<in> set (ranking w cs)" using assms by (intro nth_mem) (simp only: length_greater_0_conv ranking_Nil_iff not_False_eq_True)
  then show ?thesis by (auto simp: set_ranking)
qed

lemma score5_mono:
  assumes "weights_ok w" "a \<le> a'" "b \<le> b'" "c \<le> c'" "d \<le> d'" "e \<le> e'"
  shows "score5 w a b c d e \<le> score5 w a' b' c' d' e'"
  unfolding score5_def fadd_def fmul_def
  using assms by (intro round_digits_mono fl.add_mono' fl.mono mult_left_mono)
    (simp_all add: weights_ok_def unit_range_def)

lemma score5_unit:
  assumes "weights_ok w" and u: "unit_range a" "unit_range b" "unit_range c" "unit_range d" "unit_range e"
  shows "0 \<le> score5 w a b c d e" "score5 w a b c d e \<le> round_digits 6 (weights_total w)"
proof -
  have "score5 w 0 0 0 0 0 = 0" by (simp add: score5_def fadd_def fmul_def)
  then show "0 \<le> score5 w a b c d e"
    using score5_mono [OF assms(1), of 0 a 0 b 0 c 0 d 0 e] u by (simp add: unit_range_def)
  have "score5 w 1 1 1 1 1 = round_digits 6 (weights_total w)"
    using assms(1) by (simp add: score5_def fmul_def weights_total_def weights_ok_def is_float_def)
  then show "score5 w a b c d e \<le> round_digits 6 (weights_total w)"
    using score5_mono [OF assms(1), of a 1 b 1 c 1 d 1 e 1] u by (simp add: unit_range_def)
qed

lemma composite_bounds:
  "weights_ok w \<Longrightarrow> c \<in> set cs \<Longrightarrow>
    0 \<le> composite w cs (s_node_id c) \<and> composite w cs (s_node_id c) \<le> round_digits 6 (weights_total w)"
  unfolding composite_def by (intro conjI score5_unit metric_of_unit)

lemma weights_total_le: "weights_ok w \<Longrightarrow> weights_total w < fl (1002 / 1000)"
proof (rule ccontr)
  assume w: "weights_ok w" and "\<not> weights_total w < fl (1002 / 1000)"
  then have "fl (fl (1002 / 1000) - 1) \<le> fsub (weights_total w) 1"
    unfolding fsub_def by (intro fl.mono) simp
  also have "\<dots> \<le> \<bar>fsub (weights_total w) 1\<bar>" by simp
  also have "\<dots> \<le> fl (1 / 1000)" using w by (simp add: weights_ok_def)
  finally have "fl (fl (1002 / 1000) - 1) \<le> fl (1 / 1000)" .
  moreover have "\<not> fl (fl (1002 / 1000) - 1) \<le> fl (1 / 1000)" by code_simp
  ultimately show False by blast
qed

lemma round_total_le: "weights_ok w \<Longrightarrow> round_digits 6 (weights_total w) \<le> fl (1002 / 1000)"
proof -
  assume "weights_ok w"
  then have "round_digits 6 (weights_total w) \<le> round_digits 6 (fl (1002 / 1000))"
    by (intro round_digits_mono less_imp_le weights_total_le)
  also have "\<dots> = fl (1002 / 1000)" by code_simp
  finally show ?thesis .
qed

text \<open>In a pool with distinct identifiers every node is measured by its own report.\<close>

lemma metric_of_distinct:
  "distinct (map s_node_id cs) \<Longrightarrow> c \<in> set cs \<Longrightarrow> metric_of g cs (s_node_id c) = scale (map g cs) (g c)"
proof -
  assume d: "distinct (map s_node_id cs)" and c: "c \<in> set cs"
  have "is_dict (map (\<lambda>x. (s_node_id x, g x)) cs)" using d by (simp add: comp_def)
  then have "map_of (map (\<lambda>x. (s_node_id x, g x)) cs) (s_node_id c) = Some (g c)"
    using c by (intro map_of_is_SomeI) auto
  then show ?thesis using d by (simp add: metric_of_def dict_of_distinct Let_def dvalues_def comp_def)
qed

text \<open>The node \<open>c\<close> is at least as good as \<open>c'\<close> on every raw measure.\<close>

definition dominates :: "NodeTelemetrySnapshot \<Rightarrow> NodeTelemetrySnapshot \<Rightarrow> bool" where
  "dominates c c' \<longleftrightarrow> s_rtt_ms c \<le> s_rtt_ms c' \<and>
     s_bandwidth_available_mbps c' \<le> s_bandwidth_available_mbps c \<and>
     s_cpu_util_pct c \<le> s_cpu_util_pct c' \<and> s_gpu_util_pct c \<le> s_gpu_util_pct c' \<and>
     s_queue_depth c \<le> s_queue_depth c' \<and>
     s_cost_per_1k_inferences_usd c \<le> s_cost_per_1k_inferences_usd c'"

lemma inv_bandwidth_antimono:
  assumes "s_bandwidth_available_mbps c' \<le> s_bandwidth_available_mbps c"
  shows "inv_bandwidth c \<le> inv_bandwidth c'"
proof -
  have p: "0 < fl (1 / 1000)" by code_simp
  let ?m = "\<lambda>c. max (s_bandwidth_available_mbps c) (fl (1 / 1000))"
  have "0 < ?m c'" "?m c' \<le> ?m c" using p assms by (auto simp: max_def)
  then have "1 / ?m c \<le> 1 / ?m c'" by (simp add: frac_le)
  then show ?thesis unfolding inv_bandwidth_def fdiv_def by (rule fl.mono)
qed

lemma composite_dominates:
  assumes "weights_ok w" "distinct (map s_node_id cs)" "c \<in> set cs" "c' \<in> set cs" "dominates c c'"
  shows "composite w cs (s_node_id c) \<le> composite w cs (s_node_id c')"
proof -
  have i: "inv_bandwidth c \<le> inv_bandwidth c'"
    using assms(5) by (intro inv_bandwidth_antimono) (simp add: dominates_def)
  have q: "queue_load c \<le> queue_load c'"
    using assms(5) by (auto simp: queue_load_def dominates_def intro: fl.mono)
  have m: "metric_of g cs (s_node_id c) \<le> metric_of g cs (s_node_id c')" if "g c \<le> g c'" for g
    using that by (simp add: metric_of_distinct assms(2-4) scale_mono)
  show ?thesis unfolding composite_def
    using assms(5) i q by (intro score5_mono assms(1) m)
      (auto simp: dominates_def compute_utilization_def)
qed

text \<open>The ranking is a function of the set of reports, not of their order.\<close>

lemma ranking_perm:
  assumes "distinct (map s_node_id cs)" "mset cs = mset cs'"
  shows "ranking w cs = ranking w cs'"
proof -
  have d': "distinct (map s_node_id cs')"
    using assms by (metis mset_map mset_eq_imp_distinct_iff)
  have s: "set cs' = set cs" using assms(2) by (metis set_mset_mset)
  have m: "metric_of g cs (s_node_id c) = metric_of g cs' (s_node_id c)" if "c \<in> set cs" for c g
    using that s by (simp add: metric_of_distinct assms(1) d' scale_def)
  have c: "composite w cs (s_node_id c) = composite w cs' (s_node_id c)" if "c \<in> set cs" for c
    unfolding composite_def using m [OF that] by simp
  have k: "inj_on (\<lambda>i. (snd i, fst i)) A" for A :: "(str \<times> pyfloat) set"
    by (auto simp: inj_on_def)
  have "distinct (map (\<lambda>i. (snd i, fst i)) (ranking w xs))" for xs
    using distinct_ranking [of w xs] k by (simp add: distinct_map)
  moreover have "set (ranking w cs) = set (ranking w cs')"
    unfolding set_ranking s using c by (intro image_cong) auto
  ultimately have "map (\<lambda>i. (snd i, fst i)) (ranking w cs) = map (\<lambda>i. (snd i, fst i)) (ranking w cs')"
    by (intro sorted_distinct_set_unique sorted_ranking) (simp_all only: set_map)
  then show ?thesis using k map_inj_on by (metis inj_on_subset subset_UNIV)
qed

lemma mset_filter_cong: "mset cs = mset cs' \<Longrightarrow> mset (filter P cs) = mset (filter P cs')"
  by (simp add: mset_filter)

lemma ranked_None [simp]: "survivors en t cs = [] \<Longrightarrow> ranked en t cs = []"
  by (simp add: ranked_def)

lemma find_key: "distinct (map fst xs) \<Longrightarrow> (k, v) \<in> set xs \<Longrightarrow> find (\<lambda>(a, b). a = k) xs = Some (k, v)"
  by (induction xs) (auto, force)

lemma find_ranking:
  "c \<in> set cs \<Longrightarrow> find (\<lambda>(nid, score). nid = s_node_id c) (ranking w cs) =
    Some (s_node_id c, composite w cs (s_node_id c))"
  by (rule find_key [OF distinct_ranking]) (auto simp: set_ranking)

lemma hysteresis_absent:
  "the inc \<notin> s_node_id ` set cs \<Longrightarrow> apply_hysteresis m inc (ranking w cs) x = x"
proof -
  assume "the inc \<notin> s_node_id ` set cs"
  then have "find (\<lambda>(nid, score). nid = the inc) (ranking w cs) = None"
    by (auto simp: find_None_iff set_ranking) (metis imageI)
  then show ?thesis by (simp add: apply_hysteresis_def)
qed

lemma hysteresis_present:
  assumes "c \<in> set cs" "s_node_id c \<noteq> []"
  shows "apply_hysteresis m (Some (s_node_id c)) (ranking w cs) (ranking w cs ! 0) =
    (if snd (ranking w cs ! 0) > fmul (composite w cs (s_node_id c)) (fsub 1 m)
     then (s_node_id c, composite w cs (s_node_id c)) else ranking w cs ! 0)"
proof -
  let ?x = "ranking w cs ! 0"
  have "cs \<noteq> []" using assms(1) by auto
  from ranking_head [OF this, of w]
  obtain n where "?x = (n, composite w cs n)" by auto
  then have "fst ?x = s_node_id c \<Longrightarrow> ?x = (s_node_id c, composite w cs (s_node_id c))"
    by (metis fst_conv)
  then show ?thesis using assms(2)
    unfolding apply_hysteresis_def option.sel find_ranking [OF assms(1)] by auto
qed

lemma hysteresis_member:
  "cs \<noteq> [] \<Longrightarrow> apply_hysteresis m inc (ranking w cs) (ranking w cs ! 0) \<in> set (ranking w cs)"
proof -
  assume "cs \<noteq> []"
  then have h: "ranking w cs ! 0 \<in> set (ranking w cs)"
    using ranking_head [of cs w] by (auto simp: set_ranking)
  show ?thesis
  proof (cases "truthy inc \<and> the inc \<in> s_node_id ` set cs")
    case True
    then obtain c where c: "c \<in> set cs" "inc = Some (s_node_id c)" "s_node_id c \<noteq> []"
      by (auto elim: truthyE)
    have "(s_node_id c, composite w cs (s_node_id c)) \<in> set (ranking w cs)"
      using c(1) by (auto simp: set_ranking)
    then show ?thesis using h by (simp add: c(2) hysteresis_present [OF c(1,3)])
  next
    case False
    then have "apply_hysteresis m inc (ranking w cs) x = x" for x
      using hysteresis_absent [of inc cs m w x] by (cases "truthy inc") (auto simp: apply_hysteresis_def)
    then show ?thesis using h by simp
  qed
qed

lemma dget_ema_fold:
  "distinct (map fst rs) \<Longrightarrow> dget (fold (ema_step a) rs ema) n =
    (case map_of rs n of
       None \<Rightarrow> dget ema n
     | Some s \<Rightarrow> Some (case dget ema n of None \<Rightarrow> s
         | Some old \<Rightarrow> fadd (fmul a s) (fmul (fsub 1 a) old)))"
proof (induction rs arbitrary: ema)
  case Nil
  then show ?case by simp
next
  case (Cons r rs)
  obtain k s where r: "r = (k, s)" by fastforce
  have "map_of rs k = None" using Cons.prems by (simp add: r map_of_eq_None_iff)
  then show ?case using Cons by (auto simp: r ema_step_def split: option.splits)
qed

definition engine_ok :: "DecisionEngine \<Rightarrow> bool" where
  "engine_ok en \<longleftrightarrow> profiles_ok (custom_sla_profiles en)"

lemma engine_weights_ok: "engine_ok en \<Longrightarrow> weights_ok (en_weights en t)"
  unfolding en_weights_def engine_ok_def by (intro get_sla_weights_ok) simp

lemma profiles_ok_dupdate: "profiles_ok e \<Longrightarrow> profiles_ok d \<Longrightarrow> profiles_ok (dupdate e d)"
proof (induction e arbitrary: d)
  case (Cons x e)
  have "profiles_ok (dset (fst x) (snd x) d)"
    using Cons.prems by (intro profiles_ok_dset) (simp_all add: profiles_ok_def)
  then have "profiles_ok (dupdate e (dset (fst x) (snd x) d))"
    using Cons.prems(1) by (intro Cons.IH) (simp_all add: profiles_ok_def)
  then show ?case by (simp add: dupdate_def case_prod_beta)
qed (simp add: dupdate_def)

text \<open>A decision that did not fall back: the facts about it, over the ranking.\<close>

lemma scored_decision:
  assumes "evaluate_placement t cs inc t0 t1 en = Inr (d, en')" "\<not> d_used_fallback_policy d"
  shows "survivors en t cs \<noteq> []"
    "(d_chosen_node d, d_chosen_score d) =
      apply_hysteresis (challenger_margin en) inc (ranked en t cs) (ranked en t cs ! 0)"
    "d_fallback_chain d = map fst (take 3 (ranked en t cs))"
    "d_runner_up_node d = (if 1 < length (ranked en t cs) then Some (fst (ranked en t cs ! 1)) else None)"
proof -
  show s: "survivors en t cs \<noteq> []"
    using assms evaluate_placement_none [of en t cs inc t0 t1]
    by (auto simp: get_static_fallback_decision_def Let_def)
  show "(d_chosen_node d, d_chosen_score d) =
      apply_hysteresis (challenger_margin en) inc (ranked en t cs) (ranked en t cs ! 0)"
    "d_fallback_chain d = map fst (take 3 (ranked en t cs))"
    "d_runner_up_node d = (if 1 < length (ranked en t cs) then Some (fst (ranked en t cs ! 1)) else None)"
    using evaluate_placement_some [OF s, of inc t0 t1] assms(1) by auto
qed

lemma ranked_members: "fst ` set (ranked en t cs) = s_node_id ` set (survivors en t cs)"
  by (simp add: ranked_def set_ranking image_image)

section \<open>Sample values\<close>

definition sample_node :: "str \<Rightarrow> pyfloat \<Rightarrow> NodeTelemetrySnapshot" where
  "sample_node n rtt = \<lparr>s_node_id = n, s_node_class = EDGE, s_timestamp = 0, s_rtt_ms = rtt,
     s_bandwidth_available_mbps = 100, s_cpu_util_pct = 20, s_gpu_util_pct = 30, s_queue_depth = 2,
     s_cost_per_1k_inferences_usd = 1 / 4, s_health = HEALTHY, s_last_heartbeat_age_ms = 100,
     s_data_residency_zones = [''EU-only''], s_gateway_observed_rtt_ms = None,
     s_assurance_level = STANDARD\<rparr>"

definition sample_task :: "str option \<Rightarrow> TaskRequest" where
  "sample_task residency = \<lparr>t_task_id = ''task-1'', t_workload_type = INFERENCE, t_model_id = ''resnet50'',
     t_model_digest = None, t_sla_class = BATCH, t_payload_ref = ''s3://in'', t_max_latency_ms = 100,
     t_data_residency = residency, t_idempotency_key = ''k1'', t_required_assurance_level = STANDARD\<rparr>"

text \<open>An engine with the repository's \<open>config/static_routing.yaml\<close> and the default profiles.\<close>

definition sample_engine :: DecisionEngine where
  "sample_engine = \<lparr>custom_sla_profiles = [], filter_engine = new_ConstraintFilter, ema_alpha = 1 / 2,
     challenger_margin = fl (1 / 10), node_ema_scores = [],
     static_policy = load_static_routing_policy
       (Some [''edge-frankfurt-1'', ''edge-london-1'', ''cloud-aws-eu-central''])
       (Some [(''eu-only'', [''edge-frankfurt-1'', ''cloud-aws-eu-central'']),
              (''us-only'', [''cloud-aws-us-east''])])\<rparr>"

lemma engine_ok_sample: "engine_ok sample_engine"
  by (simp add: engine_ok_def sample_engine_def profiles_ok_def)

lemma sample_residency: "lower ''eu-ONLY'' = ''eu-only''" "lower ''EU-only'' = ''eu-only''"
  by code_simp+

lemma sample_survives:
  "survivors sample_engine (sample_task (Some ''eu-ONLY'')) [sample_node n x] = [sample_node n x]"
  unfolding survivors_def sample_engine_def new_ConstraintFilter_def
  by (simp add: admissible_def sample_node_def sample_task_def rtt_plausible_def wants_residency_def
      offers_residency_def cost_ceiling_def COST_CEILINGS_USD_def dget_or_def sample_residency
      is_stale_def compute_utilization_def)

lemma scored_admissible:
  assumes "evaluate_placement t cs inc t0 t1 en = Inr (d, en')" and "\<not> d_used_fallback_policy d"
  shows "insert (d_chosen_node d) (set_option (d_runner_up_node d) \<union> set (d_fallback_chain d))
      \<subseteq> s_node_id ` {c \<in> set cs. admissible (filter_engine en) t c} \<and>
    distinct (d_fallback_chain d) \<and> length (d_fallback_chain d) \<le> 3 \<and> d_fallback_chain d \<noteq> []"
proof -
  note d = scored_decision [OF assms]
  let ?A = "s_node_id ` {c \<in> set cs. admissible (filter_engine en) t c}"
  have A: "fst ` set (ranked en t cs) = ?A"
    by (simp add: ranked_members survivors_def)
  have ne: "ranked en t cs \<noteq> []" using d(1) by (simp add: ranked_def)
  have "(d_chosen_node d, d_chosen_score d) \<in> set (ranked en t cs)"
    using d(1,2) hysteresis_member by (simp add: ranked_def)
  then have "d_chosen_node d \<in> ?A" unfolding A [symmetric] by force
  moreover have "set_option (d_runner_up_node d) \<subseteq> ?A"
    unfolding d(4) A [symmetric] by (auto intro: imageI nth_mem)
  moreover have "set (d_fallback_chain d) \<subseteq> ?A"
    unfolding d(3) A [symmetric] by (auto dest: in_set_takeD)
  moreover have "distinct (d_fallback_chain d)"
    unfolding d(3) using distinct_ranking [of "en_weights en t" "survivors en t cs"]
    by (simp add: ranked_def flip: take_map)
  ultimately show ?thesis using ne d(3) by simp
qed

section \<open>Properties\<close>

text \<open>
  C2: the hard constraints are enforced exactly. \<open>filter_candidates\<close> passes, in order, the
  candidates that satisfy every constraint and no others; the rejected dictionary has one
  entry per node with a rejected report, and its value is the reason of the first constraint
  in the order of \<open>hard_constraints\<close> that the node's last rejected report violates, with the
  measured value and the limit.
\<close>

theorem filter_candidates_exact:
  "fst (filter_candidates f t cs) = filter (admissible f t) cs \<and>
   fst ` set (snd (filter_candidates f t cs)) = s_node_id ` {s \<in> set cs. \<not> admissible f t s} \<and>
   is_dict (snd (filter_candidates f t cs)) \<and>
   dget (snd (filter_candidates f t cs)) n =
     (case find (\<lambda>s. s_node_id s = n) (rev (filter (\<lambda>s. \<not> admissible f t s) cs)) of
        None \<Rightarrow> None | Some s \<Rightarrow> first_failed (hard_constraints f t s))"
proof -
  let ?find = "find (\<lambda>s. s_node_id s = n) (rev (filter (\<lambda>s. \<not> admissible f t s) cs))"
  have "map_option (why_not f t) ?find = (case ?find of None \<Rightarrow> None | Some s \<Rightarrow> check_node f t s)"
  proof (cases ?find)
    case (Some s)
    then obtain i where "i < length (rev (filter (\<lambda>s. \<not> admissible f t s) cs))"
        "s = rev (filter (\<lambda>s. \<not> admissible f t s) cs) ! i"
      by (auto simp: find_Some_iff)
    then have "s \<in> set (rev (filter (\<lambda>s. \<not> admissible f t s) cs))" by (metis nth_mem)
    then have "\<not> admissible f t s" by simp
    then show ?thesis using Some check_node_None_iff [of f t s] by (auto simp: why_not_def)
  qed simp
  then show ?thesis unfolding check_node_first [symmetric] by (simp add: filter_candidates_eq dget_dict_of)
qed

text \<open>
  Normalisation never raises and stays in the unit interval. Every candidate has a row in
  the pool with the five metrics of the scorer, and each value is between 0 and 1 although
  the subtraction and the division round.
\<close>

lemma normalized_pool_unit:
  assumes "c \<in> set cs"
  shows "\<exists>pool lat bw cmp queue cost. normalize_candidates cs = Inr pool \<and>
    dget pool (s_node_id c) = Some [(''latency'', lat), (''bandwidth'', bw), (''compute'', cmp),
      (''queue'', queue), (''cost'', cost)] \<and>
    unit_range lat \<and> unit_range bw \<and> unit_range cmp \<and> unit_range queue \<and> unit_range cost"
proof -
  let ?p = "dict_of s_node_id (\<lambda>c. row_of cs (s_node_id c)) cs"
  obtain r where r: "map_of ?p (s_node_id c) = Some r"
    using map_of_dict_of_member [OF assms, of "\<lambda>c. row_of cs (s_node_id c)"] by (elim exE)
  then have "r = row_of cs (s_node_id c)"
    by (auto dest!: map_of_SomeD dict_of_valsD)
  then show ?thesis
    using r normalize_candidates_eq [of cs] metric_of_unit [OF assms] unfolding row_of_def by blast
qed

text \<open>
  C23: a placement is always decided. \<open>evaluate_placement\<close> raises no exception, its decision
  is for the task asked about, and it falls back to the static policy exactly when no
  candidate satisfies the hard constraints.
\<close>

theorem placement_always_decided:
  "case evaluate_placement t cs inc t0 t1 en of
     Inl e \<Rightarrow> False
   | Inr (d, en') \<Rightarrow> d_task_id d = t_task_id t \<and>
       (d_used_fallback_policy d \<longleftrightarrow> filter (admissible (filter_engine en) t) cs = []) \<and>
       custom_sla_profiles en' = custom_sla_profiles en \<and> filter_engine en' = filter_engine en \<and>
       static_policy en' = static_policy en"
proof (cases "survivors en t cs = []")
  case True
  then show ?thesis
    using evaluate_placement_none [OF True, of inc t0 t1]
    by (simp add: get_static_fallback_decision_def Let_def survivors_def)
next
  case False
  then show ?thesis
    using evaluate_placement_some [OF False, of inc t0 t1] by (auto simp: survivors_def)
qed

text \<open>
  C1: a scored decision only names admissible nodes. When the decision did not fall back, the
  chosen node, the runner-up and every entry of the fallback chain are candidates that
  satisfy all hard constraints (residency, freshness, assurance, cost and the others); the
  chain has no repetition and at most three entries.
\<close>

theorem scored_nodes_admissible:
  assumes "evaluate_placement t cs inc t0 t1 en = Inr (d, en')" and "\<not> d_used_fallback_policy d"
  shows "insert (d_chosen_node d) (set_option (d_runner_up_node d) \<union> set (d_fallback_chain d))
      \<subseteq> s_node_id ` {c \<in> set cs. admissible (filter_engine en) t c} \<and>
    distinct (d_fallback_chain d) \<and> length (d_fallback_chain d) \<le> 3 \<and> d_fallback_chain d \<noteq> []"
  by (rule scored_admissible [OF assms])

theorem scored_nodes_admissible_witness:
  "\<exists>d en'. evaluate_placement (sample_task (Some ''eu-ONLY'')) [sample_node ''a'' 10] None 0 0 sample_engine = Inr (d, en') \<and>
     d_chosen_node d = ''a''"
proof -
  note s = sample_survives [of "''a''" 10]
  obtain d en' where d: "evaluate_placement (sample_task (Some ''eu-ONLY'')) [sample_node ''a'' 10] None 0 0 sample_engine
      = Inr (d, en')" "\<not> d_used_fallback_policy d"
    using evaluate_placement_some [of sample_engine "sample_task (Some ''eu-ONLY'')" "[sample_node ''a'' 10]" None 0 0]
    by (auto simp: s)
  have "d_chosen_node d = ''a''"
    using scored_nodes_admissible [OF d] by (auto simp: sample_node_def)
  then show ?thesis using d(1) by blast
qed

text \<open>
  C21: the best node, and anti-flapping. Over the surviving candidates with their composite
  scores, let the best be the least in the order (score, node identifier). With no incumbent,
  or one that did not survive, the best is chosen. A surviving incumbent is chosen exactly
  when the best score exceeds the incumbent's score times one minus the margin (or the
  incumbent is the best); otherwise the best is.
\<close>

theorem placement_choice_exact:
  assumes "evaluate_placement t cs inc t0 t1 en = Inr (d, en')"
    and "surv = filter (admissible (filter_engine en) t) cs" "surv \<noteq> []"
    and "w = get_sla_weights (t_sla_class t) (Some (custom_sla_profiles en))"
  shows "\<exists>b\<in>set surv. (\<forall>c\<in>set surv. (composite w surv (s_node_id b), s_node_id b)
          \<le> (composite w surv (s_node_id c), s_node_id c)) \<and>
    d_chosen_node d = (if truthy inc \<and> the inc \<in> s_node_id ` set surv \<and>
        composite w surv (s_node_id b) > fmul (composite w surv (the inc)) (fsub 1 (challenger_margin en))
      then the inc else s_node_id b) \<and>
    d_chosen_score d = composite w surv (d_chosen_node d) \<and>
    d_fallback_chain d ! 0 = s_node_id b"
proof -
  have s: "survivors en t cs = surv" "survivors en t cs \<noteq> []" using assms by (simp_all add: survivors_def)
  have r: "ranked en t cs = ranking w surv" using s assms(4) by (simp add: ranked_def en_weights_def)
  obtain d' where e: "evaluate_placement t cs inc t0 t1 en = Inr (d', en')"
    and h: "(d_chosen_node d', d_chosen_score d') =
      apply_hysteresis (challenger_margin en) inc (ranking w surv) (ranking w surv ! 0)"
    and f: "d_fallback_chain d' = map fst (take 3 (ranking w surv))"
    using evaluate_placement_some [OF s(2), of inc t0 t1] assms(1) unfolding r by auto
  then have dd: "d' = d" using assms(1) by simp
  obtain b where b: "b \<in> set surv" "ranking w surv ! 0 = (s_node_id b, composite w surv (s_node_id b))"
    using ranking_head [OF assms(3), of w] by (elim bexE)
  have least: "\<forall>c\<in>set surv. (composite w surv (s_node_id b), s_node_id b)
          \<le> (composite w surv (s_node_id c), s_node_id c)"
    using ranking_head_least [OF assms(3), of _ w] unfolding b(2) fst_conv snd_conv by blast
  have chain: "d_fallback_chain d ! 0 = s_node_id b"
    using f b(2) assms(3) by (cases "ranking w surv") (auto simp: dd)
  show ?thesis
  proof (intro bexI [OF _ b(1)] conjI least chain, goal_cases)
    case 1
    show ?case
    proof (cases "truthy inc \<and> the inc \<in> s_node_id ` set surv")
      case True
      then obtain c where c: "c \<in> set surv" "inc = Some (s_node_id c)" "s_node_id c \<noteq> []"
        by (auto elim: truthyE)
      then show ?thesis using h hysteresis_present [OF c(1,3), of "challenger_margin en" w]
        by (auto simp: b(2) dd)
    next
      case False
      then have "apply_hysteresis (challenger_margin en) inc (ranking w surv) x = x" for x
        using hysteresis_absent [of inc surv "challenger_margin en" w x]
        by (cases "truthy inc") (auto simp: apply_hysteresis_def)
      then show ?thesis using h False by (auto simp: b(2) dd)
    qed
  next
    case 2
    have "(d_chosen_node d, d_chosen_score d) \<in> set (ranking w surv)"
      using h hysteresis_member [OF assms(3)] by (simp add: dd)
    then show ?case by (auto simp: set_ranking)
  qed
qed

theorem placement_choice_exact_witness:
  "\<exists>d en'. evaluate_placement (sample_task (Some ''eu-ONLY'')) [sample_node ''a'' 10] (Some ''gone'') 0 0 sample_engine = Inr (d, en') \<and>
     d_chosen_node d = ''a''"
proof -
  note s = sample_survives [of "''a''" 10]
  obtain d en' where d: "evaluate_placement (sample_task (Some ''eu-ONLY'')) [sample_node ''a'' 10] (Some ''gone'') 0 0 sample_engine
      = Inr (d, en')"
    using evaluate_placement_some [of sample_engine "sample_task (Some ''eu-ONLY'')" "[sample_node ''a'' 10]" "Some ''gone''" 0 0]
    by (auto simp: s)
  have "d_chosen_node d = ''a''"
    using placement_choice_exact [OF d s [unfolded survivors_def, symmetric] _ refl]
    by (auto simp: sample_node_def)
  then show ?thesis using d by blast
qed

text \<open>
  C22: the composite score respects domination. With validated weights, a candidate that is no
  worse than another on every raw measure (round-trip time, bandwidth, processor and GPU
  load, queue, cost) never gets a higher score, in whatever pool of distinct nodes both are
  scored; no rounding step of the normalisation or the scoring breaks this.
\<close>

theorem score_respects_domination:
  assumes "engine_ok en" "distinct (map s_node_id cs)" "c \<in> set cs" "c' \<in> set cs" "dominates c c'"
  shows "\<exists>pool m m' s s'. normalize_candidates cs = Inr pool \<and>
    dget pool (s_node_id c) = Some m \<and> dget pool (s_node_id c') = Some m' \<and>
    calculate_score m (get_sla_weights (t_sla_class (t :: TaskRequest)) (Some (custom_sla_profiles en))) = Inr s \<and>
    calculate_score m' (get_sla_weights (t_sla_class t) (Some (custom_sla_profiles en))) = Inr s' \<and>
    s \<le> s'"
proof -
  let ?p = "dict_of s_node_id (\<lambda>c. row_of cs (s_node_id c)) cs"
  have "map_of ?p (s_node_id x) = Some (row_of cs (s_node_id x))" if "x \<in> set cs" for x
    using that assms(2) by (auto simp: dict_of_distinct comp_def intro!: map_of_is_SomeI)
  note p = this
  show ?thesis
  proof (intro exI conjI)
    show "normalize_candidates cs = Inr ?p" by (rule normalize_candidates_eq)
    show "dget ?p (s_node_id c) = Some (row_of cs (s_node_id c))" by (rule p [OF assms(3)])
    show "dget ?p (s_node_id c') = Some (row_of cs (s_node_id c'))" by (rule p [OF assms(4)])
    show "composite (en_weights en t) cs (s_node_id c) \<le> composite (en_weights en t) cs (s_node_id c')"
      using composite_dominates [OF engine_weights_ok [OF assms(1), of t] assms(2-5)] .
  qed (simp_all add: calculate_score_row en_weights_def)
qed

theorem score_respects_domination_witness:
  "\<exists>pool. normalize_candidates [sample_node ''a'' 10, sample_node ''b'' 20] = Inr pool \<and>
     (\<exists>m m' s s'. dget pool ''a'' = Some m \<and> dget pool ''b'' = Some m' \<and>
       calculate_score m (get_sla_weights BATCH (Some [])) = Inr s \<and>
       calculate_score m' (get_sla_weights BATCH (Some [])) = Inr s' \<and> s \<le> s')"
  using score_respects_domination [of sample_engine "[sample_node ''a'' 10, sample_node ''b'' 20]"
      "sample_node ''a'' 10" "sample_node ''b'' 20" "sample_task None"] engine_ok_sample
  by (simp add: sample_node_def dominates_def sample_engine_def sample_task_def)

text \<open>
  Scores are bounded and the weights stay validated. In an engine whose custom profiles
  passed the weight validation, the chosen score of every decision lies between 0 and
  1.002 (the tolerance of the sum check), and both hot-reloading validated profiles and
  deciding a placement keep the engine in this condition.
\<close>

lemma chosen_score_bounded:
  assumes "engine_ok en" and "profiles_ok profiles"
    and "evaluate_placement t cs inc t0 t1 (update_sla_profiles profiles en) = Inr (d, en')"
  shows "engine_ok en' \<and> 0 \<le> d_chosen_score d \<and> d_chosen_score d \<le> fl (1002 / 1000)"
proof -
  let ?en = "update_sla_profiles profiles en"
  have ok: "engine_ok ?en"
    using assms(1,2) by (simp add: engine_ok_def update_sla_profiles_def profiles_ok_dupdate)
  have one: "1 \<le> fl (1002 / 1000)" by code_simp
  show ?thesis
  proof (cases "survivors ?en t cs = []")
    case True
    have "engine_ok en' \<and> d_chosen_score d = 1"
      using evaluate_placement_none [OF True, of inc t0 t1] assms(3) ok
      by (auto simp: get_static_fallback_decision_def Let_def)
    then show ?thesis using one by simp
  next
    case False
    let ?w = "en_weights ?en t"
    have "(d_chosen_node d, d_chosen_score d) \<in> set (ranked ?en t cs)"
      "en' = ?en\<lparr>node_ema_scores := fold (ema_step (ema_alpha ?en)) (ranked ?en t cs) (node_ema_scores ?en)\<rparr>"
      using evaluate_placement_some [OF False, of inc t0 t1] assms(3) hysteresis_member [OF False]
      by (auto simp: ranked_def)
    moreover have "engine_ok (?en\<lparr>node_ema_scores := x\<rparr>)" for x
      using ok by (simp add: engine_ok_def)
    ultimately show ?thesis
      using composite_bounds [OF engine_weights_ok [OF ok, of t]] round_total_le [OF engine_weights_ok [OF ok, of t]]
      by (fastforce simp: ranked_def set_ranking)
  qed
qed

lemma placement_decided: "\<exists>d en'. evaluate_placement t cs inc t0 t1 en = Inr (d, en')"
proof (cases "survivors en t cs = []")
  case True
  then show ?thesis unfolding evaluate_placement_none [OF True] by blast
next
  case False
  then show ?thesis
    using evaluate_placement_some [OF False, of inc t0 t1] by (elim exE conjE) (rule exI, rule exI)
qed

text \<open>
  C32: the decision does not depend on the order of the candidates. Two runs on the same
  reports in different orders, from the same engine state, choose the same node with the same
  score, runner-up and fallback chain, and leave the same engine state.
\<close>

theorem placement_order_independent:
  assumes "distinct (map s_node_id cs)" "mset cs = mset cs'"
    and "evaluate_placement t cs inc t0 t1 en = Inr (d, en1)"
    and "evaluate_placement t cs' inc t0 t1 en = Inr (d', en1')"
  shows "d'\<lparr>d_filtered_out_nodes := r\<rparr> = d\<lparr>d_filtered_out_nodes := r\<rparr> \<and> en1' = en1"
proof -
  let ?adm = "admissible (filter_engine en) t"
  have m: "mset (survivors en t cs) = mset (survivors en t cs')"
    using assms(2) by (simp add: survivors_def)
  have "distinct (map s_node_id (survivors en t cs))"
    using assms(1) by (simp add: survivors_def distinct_map_filter)
  then have r: "ranked en t cs' = ranked en t cs"
    unfolding ranked_def using ranking_perm [OF _ m] by simp
  show ?thesis
  proof (cases "survivors en t cs = []")
    case True
    moreover have "survivors en t cs' = []" using True m by simp
    ultimately show ?thesis using assms(3,4) by (auto simp: evaluate_placement_none)
  next
    case False
    have "survivors en t cs' \<noteq> []" using False m by (metis mset_zero_iff)
    then show ?thesis using False assms(3,4) r
      by (auto simp: evaluate_placement_def filter_candidates_eq normalize_candidates_eq rank_normalized
          Let_def simp flip: survivors_def en_weights_def ranked_def)
  qed
qed

theorem placement_order_independent_witness:
  "\<exists>d en1 d' en1'. evaluate_placement (sample_task None) [sample_node ''a'' 10, sample_node ''b'' 20] None 0 0 sample_engine = Inr (d, en1) \<and>
     evaluate_placement (sample_task None) [sample_node ''b'' 20, sample_node ''a'' 10] None 0 0 sample_engine = Inr (d', en1') \<and>
     d_chosen_node d' = d_chosen_node d"
proof -
  let ?a = "sample_node ''a'' 10" and ?b = "sample_node ''b'' 20"
  obtain d en1 d' en1' where e: "evaluate_placement (sample_task None) [?a, ?b] None 0 0 sample_engine = Inr (d, en1)"
    "evaluate_placement (sample_task None) [?b, ?a] None 0 0 sample_engine = Inr (d', en1')"
    using placement_decided by metis
  have "distinct (map s_node_id [?a, ?b])" "mset [?a, ?b] = mset [?b, ?a]"
    by (simp_all add: sample_node_def)
  from placement_order_independent [OF this e, of "[]"]
  have "d_chosen_node (d'\<lparr>d_filtered_out_nodes := []\<rparr>) = d_chosen_node (d\<lparr>d_filtered_out_nodes := []\<rparr>)"
    by simp
  then have "d_chosen_node d' = d_chosen_node d" by simp
  then show ?thesis using e by blast
qed

text \<open>
  The smoothed scores. A decision updates the exponential moving average of exactly the
  nodes that survived the filter: a first score is stored as it is, a later one is mixed with
  the old average by the factor alpha; all other averages stay.
\<close>

lemma ema_scores_updated:
  "case evaluate_placement t cs inc t0 t1 en of
     Inl e \<Rightarrow> False
   | Inr (d, en') \<Rightarrow>
       dget (node_ema_scores en') n =
         (if n \<in> s_node_id ` {c \<in> set cs. admissible (filter_engine en) t c} then
            (let s = composite (get_sla_weights (t_sla_class t) (Some (custom_sla_profiles en)))
                       (filter (admissible (filter_engine en) t) cs) n
             in Some (case dget (node_ema_scores en) n of None \<Rightarrow> s
                 | Some old \<Rightarrow> fadd (fmul (ema_alpha en) s) (fmul (fsub 1 (ema_alpha en)) old)))
          else dget (node_ema_scores en) n)"
proof (cases "survivors en t cs = []")
  case True
  then have "n \<notin> s_node_id ` {c \<in> set cs. admissible (filter_engine en) t c}"
    by (auto simp: survivors_def filter_empty_conv)
  then show ?thesis
    unfolding evaluate_placement_none [OF True, of inc t0 t1] by (simp only: sum.case prod.case if_False)
next
  case False
  let ?s = "survivors en t cs" and ?w = "en_weights en t"
  have d: "distinct (map fst (ranked en t cs))" by (simp add: ranked_def distinct_ranking)
  have m: "map_of (ranked en t cs) n = (if n \<in> s_node_id ` set ?s then Some (composite ?w ?s n) else None)"
  proof (cases "n \<in> s_node_id ` set ?s")
    case True
    then have "(n, composite ?w ?s n) \<in> set (ranked en t cs)" by (auto simp: ranked_def set_ranking)
    then show ?thesis using True d by (simp add: map_of_is_SomeI)
  next
    case False
    then show ?thesis using ranked_members [of en t cs] by (simp add: map_of_eq_None_iff)
  qed
  have s: "s_node_id ` {c \<in> set cs. admissible (filter_engine en) t c} = s_node_id ` set ?s"
    by (simp add: survivors_def)
  obtain dec where e: "evaluate_placement t cs inc t0 t1 en =
      Inr (dec, en\<lparr>node_ema_scores := fold (ema_step (ema_alpha en)) (ranked en t cs) (node_ema_scores en)\<rparr>)"
    using evaluate_placement_some [OF False, of inc t0 t1] by (elim exE conjE) (rule that)
  show ?thesis
    unfolding s e by (simp add: dget_ema_fold [OF d] m Let_def survivors_def en_weights_def)
qed

text \<open>
  Only validated weight profiles are loaded. From any parsed file
  \<open>load_sla_weights_from_file\<close> returns profiles that pass the range and sum checks; an entry
  with an unknown class or rejected weights is skipped and the others are kept.
\<close>

lemma loaded_profiles_valid:
  assumes "\<forall>(k, ws)\<in>set entries. \<forall>(a, b, c, d, e)\<in>set_option ws.
      is_float a \<and> is_float b \<and> is_float c \<and> is_float d \<and> is_float e"
  shows "profiles_ok (load_sla_weights entries [])"
proof -
  have "profiles_ok acc \<Longrightarrow> profiles_ok (load_sla_weights entries acc)" for acc
    using assms
  proof (induction entries arbitrary: acc)
    case (Cons entry entries)
    have ok: "profiles_ok (dset c w acc)"
      if "entry = (k, Some (a, b, d, e, f))" "mk_SLAWeights a b d e f = Inr w" for k a b c d e f w
      using Cons.prems that mk_SLAWeights_ok [OF that(2)] by (intro profiles_ok_dset) simp_all
    show ?case using Cons ok by (cases entry) (auto split: option.splits sum.splits)
  qed simp
  from this [of "[]"] show ?thesis by (simp add: profiles_ok_def)
qed

text \<open>
  The static fallback. It is decided by the policy and the task's residency alone: the
  chain is the override of the lower-cased residency when there is one and the default chain
  otherwise, the chosen node is the head of the chain (a fixed cloud node for an empty
  chain), the score is 1.
\<close>

lemma static_fallback_exact:
  "case get_static_fallback_decision en t why t0 t1 of d \<Rightarrow>
     d_fallback_chain d =
       (case t_data_residency t of
          None \<Rightarrow> default_fallback_chain (static_policy en)
        | Some r \<Rightarrow>
            (case dget (residency_overrides (static_policy en)) (lower r) of
               Some chain \<Rightarrow> if r = [] then default_fallback_chain (static_policy en) else chain
             | None \<Rightarrow> default_fallback_chain (static_policy en))) \<and>
     d_chosen_node d = (case d_fallback_chain d of [] \<Rightarrow> ''cloud-default-fallback'' | n # _ \<Rightarrow> n) \<and>
     d_runner_up_node d = (case d_fallback_chain d of _ # n # _ \<Rightarrow> Some n | _ \<Rightarrow> None) \<and>
     d_chosen_score d = 1 \<and> d_used_fallback_policy d"
proof -
  let ?d = "get_static_fallback_decision en t why t0 t1"
  have "d_fallback_chain ?d = fallback_chain_for en t" "d_chosen_score ?d = 1" "d_used_fallback_policy ?d"
    "d_chosen_node ?d = (case fallback_chain_for en t of [] \<Rightarrow> ''cloud-default-fallback'' | n # _ \<Rightarrow> n)"
    "d_runner_up_node ?d = (case fallback_chain_for en t of _ # n # _ \<Rightarrow> Some n | _ \<Rightarrow> None)"
    by (auto simp: get_static_fallback_decision_def Let_def split: list.split)
  moreover have "fallback_chain_for en t =
      (case t_data_residency t of
         None \<Rightarrow> default_fallback_chain (static_policy en)
       | Some r \<Rightarrow>
           (case dget (residency_overrides (static_policy en)) (lower r) of
              Some chain \<Rightarrow> if r = [] then default_fallback_chain (static_policy en) else chain
            | None \<Rightarrow> default_fallback_chain (static_policy en)))"
    by (cases "t_data_residency t") (auto simp: fallback_chain_for_def dget_or_def Let_def split: option.split)
  ultimately show ?thesis by simp
qed

text \<open>
  The static fallback may break a hard constraint. With the shipped routing policy, a
  task that requires the residency \<open>ch-only\<close> (which has no override) and a candidate that is
  unreachable and offers another residency, the decision chooses that very candidate.
\<close>

lemma fallback_breaks_residency:
  "case evaluate_placement (sample_task (Some ''ch-only''))
       [(sample_node ''edge-frankfurt-1'' 10)\<lparr>s_health := UNREACHABLE\<rparr>] None 0 0 sample_engine of
     Inl e \<Rightarrow> False
   | Inr (d, en') \<Rightarrow> d_chosen_node d = ''edge-frankfurt-1'' \<and>
       check_node new_ConstraintFilter (sample_task (Some ''ch-only''))
         ((sample_node ''edge-frankfurt-1'' 10)\<lparr>s_health := UNREACHABLE\<rparr>) = Some Node_unreachable"
proof -
  let ?n = "(sample_node ''edge-frankfurt-1'' 10)\<lparr>s_health := UNREACHABLE\<rparr>"
  have l: "lower ''ch-only'' = ''ch-only''" by code_simp
  have "survivors sample_engine (sample_task (Some ''ch-only'')) [?n] = []"
    by (simp add: survivors_def admissible_def)
  from evaluate_placement_none [OF this, of None 0 0] show ?thesis
    by (simp add: get_static_fallback_decision_def fallback_chain_for_def sample_engine_def sample_task_def
        load_static_routing_policy_def dget_or_def l check_node_def)
qed

end
