(* ===== verification/Scheduler.thy ===== *)
theory Scheduler
  imports NodeAgent DecisionEngine
begin

text \<open>
  The scheduler: \<open>TaskScheduler\<close> of \<open>scheduler/dispatcher.py\<close>: leader election through the
  lease and compare-and-swap of the authoritative state, registration of workers, and the
  dispatch of a task along its fallback chain.

  The network is a parameter: \<open>rpc target timeout envelope (e, w)\<close> is what the call of
  \<open>ExecuteTask\<close> on a target answers and what it does to the shared registry \<open>e\<close> and to the
  rest of the world \<open>w\<close> (the nodes); \<open>Inl\<close> is an \<open>RpcError\<close>. Clock readings and random bytes
  of the n-th attempt are the functions of a record \<open>dispatch_inputs\<close>.
\<close>

section \<open>State\<close>

definition key_leader :: str where
  "key_leader = ''/distributed-ai/scheduler/leader''"

record TaskScheduler =
  sc_node_targets :: "(str, str) dict"
  sc_scheduler_id :: str
  sc_channels :: "(str, str) dict"
  sc_lease_id :: int
  sc_is_leader :: bool
  sc_signing_key :: bytes
  sc_public_key_pem :: str
  sc_dual_required :: bool
  sc_pq_key :: "bytes option"

text \<open>
  The constructor: the two clock readings are those of the grant and of the lease check. The grant,
  the comparison on the leader key and the publication of the public key are one step here; the
  authoritative state makes each of them atomic, and only the comparison decides who leads.
\<close>

definition new_TaskScheduler ::
    "platform \<Rightarrow> (str, str) dict \<Rightarrow> str \<Rightarrow> bytes \<Rightarrow> bytes \<Rightarrow> pyfloat \<Rightarrow> pyfloat \<Rightarrow> etcd \<Rightarrow> TaskScheduler \<times> etcd" where
  "new_TaskScheduler pl targets scheduler_id sk pq_sk now_grant now_check e =
     (case grant_lease 30 now_grant e of (lease_id, e1) \<Rightarrow>
      (case compare_and_swap key_leader None scheduler_id (Some lease_id) now_check e1 of (is_leader, e2) \<Rightarrow>
        (let pem = ed_pem (pl_crypto pl) sk;
             e3 = etcd_put (key_scheduler scheduler_id) pem e2;
             dual = pl_dual pl
         in (\<lparr>sc_node_targets = targets, sc_scheduler_id = scheduler_id, sc_channels = [],
              sc_lease_id = lease_id, sc_is_leader = is_leader, sc_signing_key = sk,
              sc_public_key_pem = pem, sc_dual_required = dual,
              sc_pq_key = (if dual \<and> pl_oqs pl then Some pq_sk else None)\<rparr>, e3))))"

definition register_worker :: "str \<Rightarrow> str \<Rightarrow> TaskScheduler \<Rightarrow> TaskScheduler" where
  "register_worker node_id grpc_target s =
     (let s1 = s\<lparr>sc_node_targets := dset node_id grpc_target (sc_node_targets s)\<rparr> in
      if dget (sc_channels s1) node_id \<noteq> None
      then s1\<lparr>sc_channels := ddel node_id (sc_channels s1)\<rparr> else s1)"

text \<open>A channel is the target it was opened to.\<close>

definition get_stub :: "str \<Rightarrow> TaskScheduler \<Rightarrow> exc + (str \<times> TaskScheduler)" where
  "get_stub node_id s =
     (case dget (sc_channels s) node_id of
        Some channel \<Rightarrow> Inr (channel, s)
      | None \<Rightarrow>
          (let target = dget (sc_node_targets s) node_id in
           if \<not> truthy target then
             Inl (NodeUnavailableError (''No gRPC target registered for '' @ node_id) node_id [])
           else Inr (the target, s\<lparr>sc_channels := dset node_id (the target) (sc_channels s)\<rparr>)))"

section \<open>One attempt\<close>

record dispatch_inputs =
  di_now :: "nat \<Rightarrow> pyfloat"
  di_random :: "nat \<Rightarrow> dek_random"

text \<open>\<open>Optional[str]\<close> digests travel as JSON values; a missing one is looked up in the registry.\<close>

definition resolve_digest :: "float_text \<Rightarrow> TaskRequest \<Rightarrow> etcd \<Rightarrow> json" where
  "resolve_digest ft t e =
     (if truthy (t_model_digest t) then json_of_opt (t_model_digest t)
      else
        (let approved_raw = etcd_get (key_model (t_model_id t)) e;
             unresolved = json_of_opt (t_model_digest t)
         in if truthy approved_raw then
              (case loads ft (the approved_raw) of
                 Some (JObj record_data) \<Rightarrow>
                   (case dget record_data ''digest'' of Some j \<Rightarrow> j | None \<Rightarrow> JNull)
               | _ \<Rightarrow> unresolved)
            else unresolved))"

definition task_payload :: "TaskRequest \<Rightarrow> json \<Rightarrow> jobj" where
  "task_payload t model_digest =
     [(''model_id'', JStr (t_model_id t)), (''model_digest'', model_digest),
      (''payload_ref'', JStr (t_payload_ref t)), (''idempotency_key'', JStr (t_idempotency_key t)),
      (''timeout_ms'', JFloat (t_max_latency_ms t))]"

definition sign_envelope ::
    "platform \<Rightarrow> TaskScheduler \<Rightarrow> TaskRequest \<Rightarrow> str \<Rightarrow> json \<Rightarrow> pyfloat \<Rightarrow> dek_random \<Rightarrow> SignedTaskEnvelope" where
  "sign_envelope pl s t candidate_id model_digest now rnd =
     (let expires_at = fadd (fadd now (fdiv (t_max_latency_ms t) 1000)) 10;
          (encrypted_payload, wrapped_dek) =
            encrypt_envelope (pl_crypto pl) (task_payload t model_digest) get_master_kek rnd;
          canonical_bytes = encrypted_payload @ wrapped_dek;
          pq = sc_dual_required s \<and> sc_pq_key s \<noteq> None;
          pq_alg = PQC_SIGNATURE (load_PqcConfig (pl_environ pl))
      in \<lparr>te_task_id = t_task_id t, te_node_id = candidate_id, te_cluster_epoch = 1,
          te_leader_lease_id = sc_lease_id s, te_issue_time = now, te_expires_at = expires_at,
          te_encrypted_payload = encrypted_payload, te_encrypted_dek = wrapped_dek,
          te_signature_algorithm = ''Ed25519'', te_key_id = sc_scheduler_id s,
          te_signature = ed_sign (pl_crypto pl) (sc_signing_key s) canonical_bytes,
          te_schema_version = ''1.1'',
          te_pq_signature_algorithm = (if pq then pq_alg else []),
          te_pq_signature = (if pq then pq_sign (pl_crypto pl) pq_alg (the (sc_pq_key s)) canonical_bytes else [])\<rparr>)"

text \<open>The field checks of \<open>ExecutionResult\<close> and of the two enumerations.\<close>

definition as_opt_str :: "json \<Rightarrow> exc + str option" where
  "as_opt_str j = (case j of JNull \<Rightarrow> Inr None | JStr s \<Rightarrow> Inr (Some s) | _ \<Rightarrow> Inl (py_exc ValidationErrorClass []))"

definition as_str :: "json \<Rightarrow> exc + str" where
  "as_str j = (case j of JStr s \<Rightarrow> Inr s | _ \<Rightarrow> Inl (py_exc ValidationErrorClass []))"

definition as_float :: "json \<Rightarrow> exc + pyfloat" where
  "as_float j = (case j of JFloat x \<Rightarrow> Inr x | JInt i \<Rightarrow> Inr (fl (of_int i)) | _ \<Rightarrow> Inl (py_exc ValidationErrorClass []))"

definition as_bool :: "json \<Rightarrow> exc + bool" where
  "as_bool j = (case j of JBool b \<Rightarrow> Inr b | _ \<Rightarrow> Inl (py_exc ValidationErrorClass []))"

definition as_node_class :: "json \<Rightarrow> exc + NodeClass" where
  "as_node_class j = (case j of
     JStr s \<Rightarrow> (case node_class_of s of Some c \<Rightarrow> Inr c | None \<Rightarrow> Inl (py_exc ValueErrorClass s))
   | _ \<Rightarrow> Inl (py_exc ValueErrorClass []))"

definition as_status :: "json \<Rightarrow> exc + ExecutionStatus" where
  "as_status j = (case j of
     JStr s \<Rightarrow> (case status_of s of Some c \<Rightarrow> Inr c | None \<Rightarrow> Inl (py_exc ValueErrorClass s))
   | _ \<Rightarrow> Inl (py_exc ValueErrorClass []))"

definition read_output :: "float_text \<Rightarrow> jobj \<Rightarrow> exc + jobj option" where
  "read_output ft d =
     (let j = get_or d ''output_json'' JNull in
      if \<not> json_truthy j then Inr None
      else (case j of
          JStr s \<Rightarrow> (case loads ft s of
              None \<Rightarrow> Inl (py_exc JSONDecodeErrorClass [])
            | Some (JObj out) \<Rightarrow> Inr (Some out)
            | Some JNull \<Rightarrow> Inr None
            | Some _ \<Rightarrow> Inl (py_exc ValidationErrorClass []))
        | _ \<Rightarrow> Inl (py_exc TypeErrorClass [])))"

definition read_result ::
    "float_text \<Rightarrow> SignedResultEnvelope \<Rightarrow> jobj \<Rightarrow> json \<Rightarrow> exc + ExecutionResult" where
  "read_result ft resp d model_digest =
     rbind (as_node_class (get_or d ''node_class'' (JStr ''edge''))) (\<lambda>node_class.
     rbind (as_status (get_or d ''status'' (JStr ''success''))) (\<lambda>status.
     rbind (as_float (get_or d ''execution_time_ms'' (JFloat 0))) (\<lambda>execution_time_ms.
     rbind (as_opt_str (let j = get_or d ''model_digest'' JNull in if json_truthy j then j else model_digest)) (\<lambda>digest.
     rbind (read_output ft d) (\<lambda>output.
     rbind (as_opt_str (get_or d ''error'' JNull)) (\<lambda>error.
     rbind (as_bool (get_or d ''cached'' (JBool False))) (\<lambda>cached.
     rbind (as_str (get_or d ''idempotency_key'' (JStr []))) (\<lambda>idempotency_key.
       Inr \<lparr>x_task_id = re_task_id resp, x_node_id = re_node_id resp, x_node_class = node_class,
         x_status = status, x_execution_time_ms = execution_time_ms, x_model_digest = digest,
         x_output = output, x_error = error, x_cached = cached, x_idempotency_key = idempotency_key\<rparr>))))))))"

text \<open>The handling of a response. \<open>SecurityError\<close> is not imported here either.\<close>

definition process_response ::
    "platform \<Rightarrow> TaskScheduler \<Rightarrow> str \<Rightarrow> json \<Rightarrow> SignedResultEnvelope \<Rightarrow> exc + ExecutionResult" where
  "process_response pl s candidate_id model_digest resp =
     rbind (validate_signature_algorithm (pl_environ pl) (pl_oqs pl) (re_signature_algorithm resp)) (\<lambda>_.
     rbind (if sc_dual_required s then
              (if re_pq_signature resp = [] then Inl (py_exc NameErrorClass ''SecurityError'')
               else validate_signature_algorithm (pl_environ pl) (pl_oqs pl) (re_pq_signature_algorithm resp))
            else Inr ()) (\<lambda>_.
     rbind (decrypt_envelope (pl_crypto pl) (re_encrypted_result resp) (re_encrypted_dek resp) get_master_kek) (\<lambda>j.
       (case j of
          JObj d \<Rightarrow>
            if dget d ''status'' = Some (JStr ''failed'') \<or> dget d ''status'' = Some (JStr ''rejected'') then
              Inl (NodeUnavailableError ''Execution failed on node'' candidate_id [])
            else read_result (ftext (pl_crypto pl)) resp d model_digest
        | _ \<Rightarrow> Inl (py_exc AttributeErrorClass ''get'')))))"

type_synonym 'w network =
  "str \<Rightarrow> pyfloat \<Rightarrow> SignedTaskEnvelope \<Rightarrow> etcd \<times> 'w \<Rightarrow> (exc + SignedResultEnvelope) \<times> etcd \<times> 'w"

text \<open>The body of the loop for the \<open>n\<close>-th candidate; every exception moves on to the next one.\<close>

definition attempt ::
    "platform \<Rightarrow> 'w network \<Rightarrow> dispatch_inputs \<Rightarrow> TaskRequest \<Rightarrow> nat \<Rightarrow> str \<Rightarrow> TaskScheduler \<times> etcd \<times> 'w \<Rightarrow>
     (exc + ExecutionResult) \<times> TaskScheduler \<times> etcd \<times> 'w" where
  "attempt pl rpc di t n candidate_id st =
     (case st of (s, e, w) \<Rightarrow>
       (case get_stub candidate_id s of
          Inl err \<Rightarrow> (Inl err, s, e, w)
        | Inr (target, s1) \<Rightarrow>
            (let model_digest = resolve_digest (ftext (pl_crypto pl)) t e;
                 req = sign_envelope pl s1 t candidate_id model_digest (di_now di n) (di_random di n)
             in (case rpc target (fdiv (t_max_latency_ms t) 1000) req (e, w) of
                   (Inl err, e1, w1) \<Rightarrow> (Inl err, s1, e1, w1)
                 | (Inr resp, e1, w1) \<Rightarrow> (process_response pl s1 candidate_id model_digest resp, s1, e1, w1)))))"

section \<open>Dispatch\<close>

definition dispatch_chain :: "PlacementDecision \<Rightarrow> str list" where
  "dispatch_chain d =
     fold (\<lambda>n chain. if n \<notin> set chain then chain @ [n] else chain) (d_fallback_chain d)
       (if d_chosen_node d \<noteq> [] then [d_chosen_node d] else [])"

fun try_candidates ::
    "platform \<Rightarrow> 'w network \<Rightarrow> dispatch_inputs \<Rightarrow> TaskRequest \<Rightarrow> str list \<Rightarrow> str list \<Rightarrow> nat \<Rightarrow>
     TaskScheduler \<times> etcd \<times> 'w \<Rightarrow>
     (exc + (ExecutionResult \<times> bool \<times> nat)) \<times> TaskScheduler \<times> etcd \<times> 'w" where
  "try_candidates pl rpc di t chain [] attempts st =
     (Inl (FallbackExhaustionError (''All '' @ show_int (int (length chain)) @
        '' candidate nodes in fallback chain failed for task '' @ t_task_id t) chain []), st)"
| "try_candidates pl rpc di t chain (c # cs) attempts st =
     (let attempts1 = attempts + 1; fallback_activated = attempts1 > 1 in
      (case attempt pl rpc di t attempts1 c st of
         (Inr result, st1) \<Rightarrow> (Inr (result, fallback_activated, attempts1), st1)
       | (Inl err, st1) \<Rightarrow> try_candidates pl rpc di t chain cs attempts1 st1))"

definition check_leadership :: "pyfloat \<Rightarrow> TaskScheduler \<Rightarrow> etcd \<Rightarrow> TaskScheduler \<times> etcd" where
  "check_leadership now s e =
     (if sc_is_leader s then
        (case is_lease_valid (sc_lease_id s) now e of
           (False, e1) \<Rightarrow> (s\<lparr>sc_is_leader := False\<rparr>, e1)
         | (True, e1) \<Rightarrow> (s, e1))
      else (s, e))"

definition dispatch ::
    "platform \<Rightarrow> 'w network \<Rightarrow> dispatch_inputs \<Rightarrow> pyfloat \<Rightarrow> TaskRequest \<Rightarrow> PlacementDecision \<Rightarrow>
     TaskScheduler \<times> etcd \<times> 'w \<Rightarrow>
     (exc + (ExecutionResult \<times> bool \<times> nat)) \<times> TaskScheduler \<times> etcd \<times> 'w" where
  "dispatch pl rpc di now t decision st =
     (case st of (s, e, w) \<Rightarrow>
       (case check_leadership now s e of (s1, e1) \<Rightarrow>
          if \<not> sc_is_leader s1 then
            (Inl (NodeUnavailableError (''Scheduler '' @ sc_scheduler_id s1 @
               '' is not the leader. Cannot authorize work.'') ''scheduler'' []), s1, e1, w)
          else
            (let chain = dispatch_chain decision in
             if chain = [] then
               (Inl (FallbackExhaustionError (''No candidates available in fallback chain for task '' @
                  t_task_id t) [] []), s1, e1, w)
             else try_candidates pl rpc di t chain chain 0 (s1, e1, w))))"

section \<open>Leadership\<close>

lemma key_scheduler_not_leader [simp]: "key_scheduler x \<noteq> key_leader" "key_leader \<noteq> key_scheduler x"
proof -
  have "x @ ''/identity'' \<noteq> ''leader''"
  proof
    assume "x @ ''/identity'' = ''leader''"
    then have "length (x @ ''/identity'') = length ''leader''" by (simp only:)
    then show False by simp
  qed
  then show "key_scheduler x \<noteq> key_leader" "key_leader \<noteq> key_scheduler x"
    by (auto simp: key_scheduler_def key_leader_def)
qed

text \<open>The constructor is a sequence of atomic steps of the authoritative state.\<close>

lemma etcd_steps_append: "etcd_steps (xs @ ys) e = etcd_steps ys (etcd_steps xs e)"
  by (induction xs arbitrary: e) auto

lemma new_scheduler_steps:
  "snd (new_TaskScheduler pl tg i sk pq t1 t2 e) =
     etcd_steps [(t1, Grant 30), (t2, CAS key_leader None i (Some (lease_id_counter e))),
       (t2, Put (key_scheduler i) (ed_pem (pl_crypto pl) sk))] e"
  by (simp add: new_TaskScheduler_def grant_lease_def Let_def split: prod.split)

lemma new_scheduler_leaderD:
  assumes "new_TaskScheduler pl tg i sk pq t1 t2 e = (s, e')"
  shows "sc_is_leader s \<Longrightarrow> etcd_get key_leader e = None \<and> etcd_get key_leader e' = Some i"
    and "etcd_get key_leader e = Some x \<Longrightarrow> etcd_get key_leader e' = Some x"
    and "sc_lease_id s = lease_id_counter e" "lease_id_counter e' = lease_id_counter e + 1"
    and "sc_scheduler_id s = i" "sc_signing_key s = sk" "sc_dual_required s \<longleftrightarrow> pl_dual pl"
    and "etcd_get (key_scheduler i) e' = Some (ed_pem (pl_crypto pl) sk)" "sc_node_targets s = tg" "sc_channels s = []"
proof -
  obtain l e1 where g: "grant_lease 30 t1 e = (l, e1)" by fastforce
  obtain b e2 where c: "compare_and_swap key_leader None i (Some l) t2 e1 = (b, e2)" by fastforce
  have l: "l = lease_id_counter e" "lease_id_counter e1 = lease_id_counter e + 1" "\<And>k. etcd_get k e1 = etcd_get k e"
    using g by (auto simp: grant_lease_def Let_def etcd_get_def)
  have s: "s = \<lparr>sc_node_targets = tg, sc_scheduler_id = i, sc_channels = [],
              sc_lease_id = l, sc_is_leader = b, sc_signing_key = sk,
              sc_public_key_pem = ed_pem (pl_crypto pl) sk, sc_dual_required = pl_dual pl,
              sc_pq_key = (if pl_dual pl \<and> pl_oqs pl then Some pq else None)\<rparr>"
    "e' = etcd_put (key_scheduler i) (ed_pem (pl_crypto pl) sk) e2"
    using assms by (auto simp: new_TaskScheduler_def g c Let_def)
  have k: "etcd_get k e2 = (if b \<and> k = key_leader then Some i else etcd_get k e)" for k
    using get_compare_and_swap [of k key_leader None i "Some l" t2 e1] by (simp add: c l(3))
  show "etcd_get key_leader e = None \<and> etcd_get key_leader e' = Some i" if "sc_is_leader s"
    using that compare_and_swap_TrueD [of key_leader None i "Some l" t2 e1 e2] c k [of key_leader] l(3)
    by (auto simp: s etcd_kv.get_put)
  show "etcd_get key_leader e' = Some x" if "etcd_get key_leader e = Some x"
    using that compare_and_swap_TrueD [of key_leader None i "Some l" t2 e1 e2] c k [of key_leader] l(3)
    by (auto simp: s etcd_kv.get_put)
  have "lease_id_counter e2 = lease_id_counter e1"
    using counter_compare_and_swap [of key_leader None i "Some l" t2 e1] by (simp add: c)
  then show "lease_id_counter e' = lease_id_counter e + 1" by (simp add: s l)
  show "sc_lease_id s = lease_id_counter e" "sc_scheduler_id s = i" "sc_signing_key s = sk"
    "sc_dual_required s \<longleftrightarrow> pl_dual pl" "sc_node_targets s = tg" "sc_channels s = []"
    by (simp_all add: s l)
  show "etcd_get (key_scheduler i) e' = Some (ed_pem (pl_crypto pl) sk)" by (simp add: s)
qed

text \<open>
  A history of the control plane: schedulers start (with their constructor arguments and the
  two clock readings) between other atomic steps on the shared state.
\<close>

datatype event =
    Step pyfloat etcd_op
  | Start "(str, str) dict" str bytes bytes pyfloat pyfloat

fun start_all :: "platform \<Rightarrow> event list \<Rightarrow> etcd \<Rightarrow> TaskScheduler list \<times> etcd" where
  "start_all pl [] e = ([], e)"
| "start_all pl (Step now op # evs) e = start_all pl evs (etcd_step now op e)"
| "start_all pl (Start tg i sk pq t1 t2 # evs) e =
     (case new_TaskScheduler pl tg i sk pq t1 t2 e of (s, e1) \<Rightarrow>
        (case start_all pl evs e1 of (ss, e2) \<Rightarrow> (s # ss, e2)))"

text \<open>The other steps neither delete nor overwrite the leader key.\<close>

definition leader_key_safe :: "event list \<Rightarrow> bool" where
  "leader_key_safe evs \<longleftrightarrow> (\<forall>now op. Step now op \<in> set evs \<longrightarrow> \<not> writes_key key_leader op)"

lemma leader_key_safe_Cons [simp]:
  "leader_key_safe (Step now op # evs) \<longleftrightarrow> \<not> writes_key key_leader op \<and> leader_key_safe evs"
  "leader_key_safe (Start tg i sk pq t1 t2 # evs) \<longleftrightarrow> leader_key_safe evs"
  by (auto simp: leader_key_safe_def)

lemma no_second_leader:
  "leader_key_safe evs \<Longrightarrow> etcd_get key_leader e = Some x \<Longrightarrow> start_all pl evs e = (ss, e') \<Longrightarrow>
    etcd_get key_leader e' = Some x \<and> (\<forall>s\<in>set ss. \<not> sc_is_leader s)"
proof (induction pl evs e arbitrary: ss rule: start_all.induct)
  case (2 pl now op evs e)
  then show ?case using step_keeps_key [of key_leader op e x now] by simp
next
  case (3 pl tg i sk pq t1 t2 evs e)
  obtain s e1 where n: "new_TaskScheduler pl tg i sk pq t1 t2 e = (s, e1)" by fastforce
  obtain ss1 where s: "start_all pl evs e1 = (ss1, e')" "ss = s # ss1"
    using "3.prems"(3) n by (auto split: prod.splits)
  have x: "etcd_get key_leader e1 = Some x" by (rule new_scheduler_leaderD(2) [OF n "3.prems"(2)])
  have "\<not> sc_is_leader s" using new_scheduler_leaderD(1) [OF n] "3.prems"(2) by auto
  moreover have "etcd_get key_leader e' = Some x \<and> (\<forall>s\<in>set ss1. \<not> sc_is_leader s)"
    using "3.prems"(1) by (intro "3.IH" [OF n [symmetric] _ x s(1)]) simp
  ultimately show ?case by (simp add: s(2))
qed simp

lemma one_leader:
  "leader_key_safe evs \<Longrightarrow> start_all pl evs e = (ss, e') \<Longrightarrow> length (filter sc_is_leader ss) \<le> 1"
proof (induction pl evs e arbitrary: ss rule: start_all.induct)
  case (3 pl tg i sk pq t1 t2 evs e)
  obtain s e1 where n: "new_TaskScheduler pl tg i sk pq t1 t2 e = (s, e1)" by fastforce
  obtain ss1 where s: "start_all pl evs e1 = (ss1, e')" "ss = s # ss1"
    using "3.prems"(2) n by (auto split: prod.splits)
  show ?case
  proof (cases "sc_is_leader s")
    case True
    then have "\<forall>s\<in>set ss1. \<not> sc_is_leader s"
      using no_second_leader [of evs e1 i pl ss1 e'] new_scheduler_leaderD(1) [OF n True] "3.prems"(1) s(1) by auto
    then have "filter sc_is_leader ss1 = []" by (simp add: filter_empty_conv)
    then show ?thesis by (simp add: s(2) True)
  next
    case False
    then show ?thesis using "3.IH" [OF n [symmetric], of ss1] "3.prems"(1) s by simp
  qed
qed simp_all

text \<open>Leases along a history.\<close>

lemma steps_leases:
  "l < lease_id_counter e \<Longrightarrow>
    (leases (etcd_steps ops e) l = leases e l \<or> leases (etcd_steps ops e) l = None) \<and>
    lease_id_counter e \<le> lease_id_counter (etcd_steps ops e)"
proof (induction ops arbitrary: e)
  case (Cons p ops)
  obtain now op where p: "p = (now, op)" by fastforce
  have "l < lease_id_counter (etcd_step now op e)" using Cons.prems step_counter [of e now op] by simp
  from Cons.IH [OF this] step_leases [OF Cons.prems, of now op] step_counter [of e now op]
  show ?case by (auto simp: p)
qed simp

lemma start_all_steps: "\<exists>ops. snd (start_all pl evs e) = etcd_steps ops e"
proof (induction pl evs e rule: start_all.induct)
  case (1 pl e)
  show ?case by (intro exI [of _ "[]"]) simp
next
  case (2 pl now op evs e)
  then obtain ops where "snd (start_all pl evs (etcd_step now op e)) = etcd_steps ops (etcd_step now op e)" by blast
  then show ?case by (intro exI [of _ "(now, op) # ops"]) simp
next
  case (3 pl tg i sk pq t1 t2 evs e)
  obtain s e1 where n: "new_TaskScheduler pl tg i sk pq t1 t2 e = (s, e1)" by fastforce
  obtain ops where o: "snd (start_all pl evs e1) = etcd_steps ops e1" using "3.IH" [OF n [symmetric]] by blast
  obtain ops1 where "e1 = etcd_steps ops1 e" using new_scheduler_steps [of pl tg i sk pq t1 t2 e] n by (metis snd_conv)
  then show ?case using o n
    by (intro exI [of _ "ops1 @ ops"]) (simp add: etcd_steps_append case_prod_beta)
qed

section \<open>The chain and the loop\<close>

lemma chain_fold:
  "distinct c \<Longrightarrow> distinct (fold (\<lambda>n chain. if n \<notin> set chain then chain @ [n] else chain) ns c) \<and>
    set (fold (\<lambda>n chain. if n \<notin> set chain then chain @ [n] else chain) ns c) = set c \<union> set ns \<and>
    (\<exists>ys. fold (\<lambda>n chain. if n \<notin> set chain then chain @ [n] else chain) ns c = c @ ys)"
proof (induction ns arbitrary: c)
  case (Cons n ns)
  show ?case
  proof (cases "n \<in> set c")
    case True
    then show ?thesis using Cons.IH [OF Cons.prems] by auto
  next
    case False
    then have "distinct (c @ [n])" using Cons.prems by simp
    from Cons.IH [OF this] False show ?thesis by auto
  qed
qed simp

text \<open>The state before the \<open>i\<close>-th attempt when the earlier ones are all made, and its outcome.\<close>

fun state_at ::
    "platform \<Rightarrow> 'w network \<Rightarrow> dispatch_inputs \<Rightarrow> TaskRequest \<Rightarrow> str list \<Rightarrow> nat \<Rightarrow> nat \<Rightarrow>
     TaskScheduler \<times> etcd \<times> 'w \<Rightarrow> TaskScheduler \<times> etcd \<times> 'w" where
  "state_at pl rpc di t cs k 0 st = st"
| "state_at pl rpc di t [] k (Suc i) st = st"
| "state_at pl rpc di t (c # cs) k (Suc i) st =
     state_at pl rpc di t cs (k + 1) i (snd (attempt pl rpc di t (k + 1) c st))"

definition attempt_outcome ::
    "platform \<Rightarrow> 'w network \<Rightarrow> dispatch_inputs \<Rightarrow> TaskRequest \<Rightarrow> str list \<Rightarrow> nat \<Rightarrow> nat \<Rightarrow>
     TaskScheduler \<times> etcd \<times> 'w \<Rightarrow> exc + ExecutionResult" where
  "attempt_outcome pl rpc di t cs k i st =
     fst (attempt pl rpc di t (k + i + 1) (cs ! i) (state_at pl rpc di t cs k i st))"

lemma attempt_outcome_0: "attempt_outcome pl rpc di t (c # cs) k 0 st = fst (attempt pl rpc di t (k + 1) c st)"
  by (simp add: attempt_outcome_def)

lemma attempt_outcome_Suc:
  "attempt_outcome pl rpc di t (c # cs) k (Suc i) st =
     attempt_outcome pl rpc di t cs (k + 1) i (snd (attempt pl rpc di t (k + 1) c st))"
  by (simp add: attempt_outcome_def)

lemma try_candidates_spec:
  "case fst (try_candidates pl rpc di t chain cs k st) of
     Inr (res, fb, n) \<Rightarrow> k < n \<and> n \<le> k + length cs \<and> fb = (1 < n) \<and>
       attempt_outcome pl rpc di t cs k (n - k - 1) st = Inr res \<and>
       (\<forall>j < n - k - 1. \<exists>ex. attempt_outcome pl rpc di t cs k j st = Inl ex)
   | Inl ex \<Rightarrow> exc_class ex = FallbackExhaustionErrorClass \<and>
       (\<forall>j < length cs. \<exists>ex. attempt_outcome pl rpc di t cs k j st = Inl ex)"
proof (induction cs arbitrary: k st)
  case Nil
  then show ?case by simp
next
  case (Cons c cs)
  obtain r st1 where a: "attempt pl rpc di t (k + 1) c st = (r, st1)" by (metis surj_pair)
  show ?case
  proof (cases r)
    case (Inr res)
    then show ?thesis using a by (simp add: attempt_outcome_0 Let_def)
  next
    case (Inl ex)
    have t: "try_candidates pl rpc di t chain (c # cs) k st = try_candidates pl rpc di t chain cs (k + 1) st1"
      using a Inl by (simp add: Let_def)
    have o: "attempt_outcome pl rpc di t (c # cs) k (Suc i) st = attempt_outcome pl rpc di t cs (k + 1) i st1" for i
      using a by (simp add: attempt_outcome_Suc)
    have z: "attempt_outcome pl rpc di t (c # cs) k 0 st = Inl ex" using a Inl by (simp add: attempt_outcome_0)
    note ih = Cons.IH [of "k + 1" st1]
    show ?thesis
    proof (cases "fst (try_candidates pl rpc di t chain cs (k + 1) st1)")
      case (Inl e1)
      then show ?thesis using ih unfolding t by (auto simp: less_Suc_eq_0_disj z o)
    next
      case (Inr p)
      obtain res fb n where p: "p = (res, fb, n)" by (cases p) auto
      have i: "k + 1 < n" "n \<le> k + 1 + length cs" "fb = (1 < n)"
        "attempt_outcome pl rpc di t cs (k + 1) (n - (k + 1) - 1) st1 = Inr res"
        "\<forall>j < n - (k + 1) - 1. \<exists>ex. attempt_outcome pl rpc di t cs (k + 1) j st1 = Inl ex"
        using ih Inr p by auto
      define m where "m = n - (k + 1) - 1"
      have m: "n - Suc k = Suc m" using i(1) by (simp add: m_def)
      note i' = i [folded m_def]
      show ?thesis unfolding t using i' Inr p by (auto simp: m less_Suc_eq_0_disj z o)
    qed
  qed
qed

section \<open>A call that reaches a worker\<close>

text \<open>The network that delivers every call to one node's execution service.\<close>

definition node_network :: "platform \<Rightarrow> auth_context \<Rightarrow> node_inputs \<Rightarrow> InferenceWorker network" where
  "node_network pl ctx ni target timeout req st =
     (case st of (e, w) \<Rightarrow>
       (case ExecuteTask pl ctx req ni w e of
          (Inr resp, w1, e1) \<Rightarrow> (Inr resp, e1, w1)
        | (Inl status, w1, e1) \<Rightarrow> (Inl (py_exc RpcErrorClass []), e1, w1)))"

definition request_of :: "TaskRequest \<Rightarrow> str \<Rightarrow> str \<Rightarrow> ExecutionRequest" where
  "request_of t candidate_id digest =
     \<lparr>r_task_id = t_task_id t, r_node_id = candidate_id, r_model_id = t_model_id t,
      r_model_digest = Some digest, r_payload_ref = t_payload_ref t,
      r_idempotency_key = t_idempotency_key t, r_timeout_ms = t_max_latency_ms t\<rparr>"

lemma ed25519_ok [simp]: "validate_signature_algorithm env oqs ''Ed25519'' = Inr ()"
  by (simp add: validate_signature_algorithm_def Let_def SUPPORTED_SIGNATURES_def PQ_SIGNATURES_def)

lemma build_request_payload:
  "build_request req (JObj (task_payload t (JStr digest))) =
    Inr (request_of t (te_node_id req) digest\<lparr>r_task_id := te_task_id req\<rparr>)"
  by (simp add: build_request_def task_payload_def need_str_def get_opt_str_def get_str_or_def
      need_float_def request_of_def)

lemma envelope_accepted:
  assumes "signing_ok (pl_crypto pl)" "\<not> pl_dual pl"
    and "etcd_get (key_scheduler (sc_scheduler_id s)) e = Some (ed_pem (pl_crypto pl) (sc_signing_key s))"
    and "ed_pem (pl_crypto pl) (sc_signing_key s) \<noteq> []"
  shows "verify_task_envelope pl (sign_envelope pl s t c j now rnd) e = Inr ()"
  using assms
  by (cases "encrypt_envelope (pl_crypto pl) (task_payload t j) get_master_kek rnd")
    (simp add: verify_task_envelope_def sign_envelope_def Let_def signing_ok_def)

lemma envelope_opened:
  assumes "aead_ok (pl_crypto pl)" "float_text_ok (ftext (pl_crypto pl))" "rnd_ok rnd" "is_float (t_max_latency_ms t)"
  shows "\<exists>j. decrypt_envelope (pl_crypto pl) (te_encrypted_payload (sign_envelope pl s t c (JStr digest) now rnd))
      (te_encrypted_dek (sign_envelope pl s t c (JStr digest) now rnd)) get_master_kek = Inr j \<and>
    build_request (sign_envelope pl s t c (JStr digest) now rnd) j = Inr (request_of t c digest)"
proof -
  let ?p = "task_payload t (JStr digest)"
  obtain ep wd where enc: "encrypt_envelope (pl_crypto pl) ?p get_master_kek rnd = (ep, wd)" by fastforce
  have ok: "json_ok (JObj ?p)" using assms(4) by (simp add: task_payload_def)
  obtain d where d: "sorted_json (JObj ?p) = JObj d" by simp
  have "decrypt_envelope (pl_crypto pl) ep wd get_master_kek = Inr (JObj d)"
    using decrypt_encrypt [OF assms(1-3) ok enc] d by simp
  moreover have "build_request req (JObj d) = Inr (request_of t (te_node_id req) digest\<lparr>r_task_id := te_task_id req\<rparr>)" for req
    using build_request_sorted [OF _ d, of req] ok by (simp add: build_request_payload)
  ultimately show ?thesis by (simp add: sign_envelope_def enc Let_def request_of_def)
qed

lemma get_or_sorted:
  "is_dict p \<Longrightarrow> sorted_json (JObj p) = JObj d \<Longrightarrow> get_or d k j = (case map_of p k of None \<Rightarrow> j | Some v \<Rightarrow> sorted_json v)"
  using map_of_sorted [of p d k] by (cases "map_of p k") (simp_all add: get_or_def)

lemma response_read:
  assumes ok: "aead_ok (pl_crypto pl)" "float_text_ok (ftext (pl_crypto pl))" "rnd_ok (ni_random ni)"
    and "\<not> sc_dual_required s" "x_status res = SUCCESS" "is_float (x_execution_time_ms res)"
    and "x_output res = Some out" "json_ok (JObj out)" "out \<noteq> []"
    and "x_model_digest res = Some dg" "dg \<noteq> []"
  shows "process_response pl s c mj (sign_response pl req (success_payload (ftext (pl_crypto pl)) res) ni node) =
    Inr (res\<lparr>x_task_id := te_task_id req, x_node_id := te_node_id req, x_error := Some (or_empty (x_error res))\<rparr>)"
proof -
  let ?ft = "ftext (pl_crypto pl)"
  let ?p = "success_payload ?ft res"
  obtain ep wd where enc: "encrypt_envelope (pl_crypto pl) ?p get_master_kek (ni_random ni) = (ep, wd)" by fastforce
  have jo: "json_ok (JObj ?p)" by (rule success_payload_ok(1) [OF assms(6)])
  obtain d where d: "sorted_json (JObj ?p) = JObj d" by simp
  have dec: "decrypt_envelope (pl_crypto pl) ep wd get_master_kek = Inr (JObj d)"
    using decrypt_encrypt [OF ok jo enc] d by simp
  have g: "get_or d k j = (case map_of ?p k of None \<Rightarrow> j | Some v \<Rightarrow> sorted_json v)" for k j
    using get_or_sorted [OF _ d] jo by simp
  have st: "map_of d ''status'' = Some (JStr ''success'')"
    using map_of_sorted [OF _ d, of "''status''"] jo assms(5) by (simp add: success_payload_ok(2))
  have dumped: "default_dumps ?ft (JObj out) \<noteq> []" by (simp add: default_dumps_def)
  have loaded: "loads ?ft (default_dumps ?ft (JObj out)) = Some (JObj out)"
    by (rule loads_default [OF ok(2) assms(8)])
  have sc: "status_of ''success'' = Some SUCCESS" using enum_roundtrip(4) [of SUCCESS] by simp
  have "read_result ?ft (sign_response pl req ?p ni node) d mj =
    Inr (res\<lparr>x_task_id := te_task_id req, x_node_id := te_node_id req, x_error := Some (or_empty (x_error res))\<rparr>)"
    using assms(5,7,9,10,11) dumped loaded
    by (simp add: read_result_def g success_payload_def as_node_class_def as_status_def as_float_def
        as_opt_str_def as_bool_def as_str_def read_output_def or_empty_def sc Let_def)
      (simp add: sign_response_def Let_def case_prod_beta)
  moreover have "re_signature_algorithm (sign_response pl req ?p ni node) = ''Ed25519''"
    "re_encrypted_result (sign_response pl req ?p ni node) = ep" "re_encrypted_dek (sign_response pl req ?p ni node) = wd"
    by (simp_all add: sign_response_def enc Let_def)
  ultimately show ?thesis using assms(4) by (simp add: process_response_def dec st)
qed

section \<open>Sample values\<close>

text \<open>A network in which every call fails.\<close>

definition dead_network :: "unit network" where
  "dead_network target timeout req st = (Inl (py_exc RpcErrorClass []), st)"

definition sample_dispatch :: dispatch_inputs where
  "sample_dispatch = \<lparr>di_now = (\<lambda>n. 0), di_random = (\<lambda>n. sample_random)\<rparr>"

definition sample_decision :: PlacementDecision where
  "sample_decision = \<lparr>d_task_id = ''task-1'', d_chosen_node = ''edge-1'', d_chosen_score = 0,
     d_runner_up_node = None, d_runner_up_score = None, d_weights_used = [], d_decision_latency_ms = 0,
     d_fallback_chain = [''edge-1'', ''cloud-1''], d_filtered_out_nodes = [], d_used_fallback_policy = False\<rparr>"

definition sample_scheduler :: TaskScheduler where
  "sample_scheduler = fst (new_TaskScheduler sample_platform [(''edge-1'', ''host:1'')] ''s1'' [5] [] 0 0 new_etcd)"

definition sample_scheduler_etcd :: etcd where
  "sample_scheduler_etcd = snd (new_TaskScheduler sample_platform [(''edge-1'', ''host:1'')] ''s1'' [5] [] 0 0 new_etcd)"

text \<open>The sample worker's task and the scheduler whose key the sample cluster publishes.\<close>

definition sample_dispatched_task :: TaskRequest where
  "sample_dispatched_task = (sample_task None)\<lparr>t_task_id := ''t1'', t_model_digest := Some sample_digest,
     t_idempotency_key := ''k''\<rparr>"

definition sample_known_scheduler :: TaskScheduler where
  "sample_known_scheduler = \<lparr>sc_node_targets = [(''edge-1'', ''host:1'')], sc_scheduler_id = ''scheduler-1'',
     sc_channels = [], sc_lease_id = 1, sc_is_leader = True, sc_signing_key = [5],
     sc_public_key_pem = hex [5], sc_dual_required = False, sc_pq_key = None\<rparr>"

lemma sample_elected:
  "sc_is_leader sample_scheduler" "sc_lease_id sample_scheduler = 1"
  "is_lease_valid 1 0 sample_scheduler_etcd = (True, sample_scheduler_etcd)"
proof -
  have f: "fadd 0 30 = 30" using fl_of_int [of 30] by (simp add: fadd_def)
  show "sc_is_leader sample_scheduler" "sc_lease_id sample_scheduler = 1"
    "is_lease_valid 1 0 sample_scheduler_etcd = (True, sample_scheduler_etcd)"
    by (simp_all add: sample_scheduler_def sample_scheduler_etcd_def new_TaskScheduler_def etcd_defs
        new_etcd_def Let_def f)
qed

lemma dispatch_spec:
  assumes "sc_is_leader s" "is_lease_valid (sc_lease_id s) now e = (True, e1)"
  shows "case fst (dispatch pl rpc di now t d (s, e, w)) of
     Inr (res, fb, n) \<Rightarrow> 1 \<le> n \<and> n \<le> length (dispatch_chain d) \<and> (fb \<longleftrightarrow> 1 < n) \<and>
       attempt_outcome pl rpc di t (dispatch_chain d) 0 (n - 1) (s, e1, w) = Inr res \<and>
       (\<forall>j < n - 1. \<exists>ex. attempt_outcome pl rpc di t (dispatch_chain d) 0 j (s, e1, w) = Inl ex)
   | Inl ex \<Rightarrow> exc_class ex = FallbackExhaustionErrorClass \<and>
       (\<forall>j < length (dispatch_chain d). \<exists>ex. attempt_outcome pl rpc di t (dispatch_chain d) 0 j (s, e1, w) = Inl ex)"
proof (cases "dispatch_chain d = []")
  case True
  then show ?thesis using assms by (simp add: dispatch_def check_leadership_def)
next
  case False
  then have "dispatch pl rpc di now t d (s, e, w) =
      try_candidates pl rpc di t (dispatch_chain d) (dispatch_chain d) 0 (s, e1, w)"
    using assms by (simp add: dispatch_def check_leadership_def Let_def)
  then show ?thesis
    using try_candidates_spec [where pl = pl and rpc = rpc and di = di and t = t and chain = "dispatch_chain d"
        and cs = "dispatch_chain d" and k = 0 and st = "(s, e1, w)"]
    by (auto split: sum.splits prod.splits)
qed

lemma dispatch_chain_spec:
  "distinct (dispatch_chain d) \<and>
   set (dispatch_chain d) = set (d_fallback_chain d) \<union> (if d_chosen_node d = [] then {} else {d_chosen_node d}) \<and>
   (if d_chosen_node d = [] then True else hd (dispatch_chain d) = d_chosen_node d)"
proof (cases "d_chosen_node d = []")
  case True
  then show ?thesis using chain_fold [of "[]" "d_fallback_chain d"] by (simp add: dispatch_chain_def)
next
  case False
  then show ?thesis using chain_fold [of "[d_chosen_node d]" "d_fallback_chain d"]
    by (auto simp: dispatch_chain_def)
qed

section \<open>Properties\<close>

text \<open>
  C24: at most one leader. However many schedulers start, in whatever order and between
  whatever other steps on the shared state that leave the leader key alone, at most one of them
  believes it is the leader.
\<close>

theorem at_most_one_leader:
  assumes "leader_key_safe evs"
  shows "length (filter sc_is_leader (fst (start_all pl evs e))) \<le> 1"
  using one_leader [OF assms, of pl e] by (cases "start_all pl evs e") simp

theorem at_most_one_leader_witness:
  "length (filter sc_is_leader (fst (start_all sample_platform
     [Start [] ''s1'' [5] [] 0 0, Step 40 (Grant 30), Start [] ''s2'' [6] [] 50 50] new_etcd))) \<le> 1"
  by (rule at_most_one_leader) (simp add: leader_key_safe_def)

text \<open>
  C6: no authority, no work. If the scheduler is not the leader, or its lease is not valid at
  the moment of the call, \<open>dispatch\<close> raises \<open>NodeUnavailableError\<close>, sends nothing over the
  network (the nodes' world is untouched) and the scheduler is no leader afterwards.
\<close>

theorem no_dispatch_without_lease:
  assumes "\<not> (sc_is_leader s \<and> fst (is_lease_valid (sc_lease_id s) now e))"
  shows "\<exists>ex s' e'. dispatch pl rpc di now t d (s, e, w) = (Inl ex, s', e', w) \<and>
    exc_class ex = NodeUnavailableErrorClass \<and> \<not> sc_is_leader s'"
  using assms
  by (cases "is_lease_valid (sc_lease_id s) now e") (auto simp: dispatch_def check_leadership_def)

theorem no_dispatch_without_lease_witness:
  "\<exists>ex s' e'. dispatch sample_platform dead_network sample_dispatch 40 (sample_task None) sample_decision
     (sample_scheduler, new_etcd, ()) = (Inl ex, s', e', ())"
proof -
  have "\<not> fst (is_lease_valid (sc_lease_id sample_scheduler) 40 new_etcd)"
    by (simp add: is_lease_valid_def) (simp add: new_etcd_def)
  then show ?thesis
    using no_dispatch_without_lease [of sample_scheduler 40 new_etcd sample_platform dead_network
        sample_dispatch "sample_task None" sample_decision "()"] by blast
qed

text \<open>
  C39: the leader is never renewed nor replaced. Once a scheduler was elected and its 30 seconds
  are over, then in every continuation in which the leader key is not deleted or overwritten by
  others (the scheduler itself never does it) neither it nor any scheduler started later can
  dispatch: every dispatch raises \<open>NodeUnavailableError\<close>.
\<close>

theorem leadership_is_lost_for_ever:
  assumes "new_TaskScheduler pl tg i sk pq t1 t2 e0 = (s1, e1)" "sc_is_leader s1"
    and "leader_key_safe evs" "start_all pl evs e1 = (ss, e2)"
    and "fadd t1 30 < now" "s \<in> insert s1 (set ss)"
  shows "\<exists>ex s' e'. dispatch pl rpc di now t d (s, e2, w) = (Inl ex, s', e', w) \<and>
    exc_class ex = NodeUnavailableErrorClass"
proof -
  have "\<not> (sc_is_leader s \<and> fst (is_lease_valid (sc_lease_id s) now e2))"
  proof (cases "s = s1")
    case True
    let ?l = "lease_id_counter e0"
    let ?g = "etcd_step t1 (Grant 30) e0"
    obtain ops where "e2 = etcd_steps ops e1" using start_all_steps [of pl evs e1] assms(4) by auto
    moreover have "e1 = etcd_steps [(t2, CAS key_leader None i (Some ?l)),
        (t2, Put (key_scheduler i) (ed_pem (pl_crypto pl) sk))] ?g"
      using new_scheduler_steps [of pl tg i sk pq t1 t2 e0] assms(1) by simp
    ultimately obtain ops' where o: "e2 = etcd_steps ops' ?g" by (metis etcd_steps_append)
    have "leases ?g ?l = Some (fadd t1 30)" "?l < lease_id_counter ?g"
      by (simp_all add: grant_lease_def Let_def)
    then have "leases e2 ?l = Some (fadd t1 30) \<or> leases e2 ?l = None"
      using steps_leases [of ?l ?g ops'] by (simp add: o)
    then have "\<not> fst (is_lease_valid ?l now e2)" using assms(5) by (auto simp: is_lease_valid_def)
    then show ?thesis using True new_scheduler_leaderD(3) [OF assms(1)] by simp
  next
    case False
    then have "s \<in> set ss" using assms(6) by simp
    moreover have "etcd_get key_leader e1 = Some i" using new_scheduler_leaderD(1) [OF assms(1,2)] by simp
    ultimately show ?thesis using no_second_leader [OF assms(3) _ assms(4)] by blast
  qed
  then show ?thesis
    by (cases "is_lease_valid (sc_lease_id s) now e2") (auto simp: dispatch_def check_leadership_def)
qed

theorem leadership_is_lost_for_ever_witness:
  "\<exists>ex s' e'. dispatch sample_platform dead_network sample_dispatch 40 (sample_task None) sample_decision
     (sample_scheduler, sample_scheduler_etcd, ()) = (Inl ex, s', e', ())"
proof -
  have n: "new_TaskScheduler sample_platform [(''edge-1'', ''host:1'')] ''s1'' [5] [] 0 0 new_etcd =
      (sample_scheduler, sample_scheduler_etcd)"
    by (simp add: sample_scheduler_def sample_scheduler_etcd_def)
  have "fadd 0 30 = 30" using fl_of_int [of 30] by (simp add: fadd_def)
  then show ?thesis
    using leadership_is_lost_for_ever [OF n sample_elected(1), of "[]" "[]" sample_scheduler_etcd 40 sample_scheduler
        dead_network sample_dispatch "sample_task None" sample_decision "()"]
    by (auto simp: leader_key_safe_def)
qed

text \<open>
  The fallback chain is tried in order. A valid leader attempts the nodes of the chain
  (chosen node first, then the fallback chain without repetitions) one after the other; the
  answer is that of the first attempt that succeeds, with its number as the attempt count and
  the fallback flag set exactly for a later one; \<open>FallbackExhaustionError\<close> is raised exactly
  when every node of the chain was attempted and failed.
\<close>

lemma dispatch_first_success:
  assumes "sc_is_leader s" "is_lease_valid (sc_lease_id s) now e = (True, e1)"
  shows "case fst (dispatch pl rpc di now t d (s, e, w)) of
     Inr (res, fb, n) \<Rightarrow> 1 \<le> n \<and> n \<le> length (dispatch_chain d) \<and> (fb \<longleftrightarrow> 1 < n) \<and>
       attempt_outcome pl rpc di t (dispatch_chain d) 0 (n - 1) (s, e1, w) = Inr res \<and>
       (\<forall>j < n - 1. \<exists>ex. attempt_outcome pl rpc di t (dispatch_chain d) 0 j (s, e1, w) = Inl ex)
   | Inl ex \<Rightarrow> exc_class ex = FallbackExhaustionErrorClass \<and>
       (\<forall>j < length (dispatch_chain d). \<exists>ex. attempt_outcome pl rpc di t (dispatch_chain d) 0 j (s, e1, w) = Inl ex)"
  by (rule dispatch_spec [OF assms])

text \<open>
  The chain has every node once. It starts with the chosen node (when there is one) and
  contains exactly the chosen node and the fallback chain, without repetitions.
\<close>

lemma dispatch_chain_exact:
  "distinct (dispatch_chain d) \<and>
   set (dispatch_chain d) = set (d_fallback_chain d) \<union> (if d_chosen_node d = [] then {} else {d_chosen_node d}) \<and>
   (if d_chosen_node d = [] then True else hd (dispatch_chain d) = d_chosen_node d)"
  by (rule dispatch_chain_spec)

text \<open>
  A dispatched task reaches the worker and its result comes back. Let the leader's key be
  published and its lease valid at the node, the task in time, and the node's worker return a
  result for the request. Then the attempt on that node returns exactly the worker's result
  (under the task's and the candidate's identifiers, a missing error as the empty string):
  sealing, signing, verification, decryption and both JSON conversions lose nothing.
\<close>

lemma attempt_served:
  assumes "signing_ok (pl_crypto pl)" "aead_ok (pl_crypto pl)" "float_text_ok (ftext (pl_crypto pl))"
    and "rnd_ok (di_random di n)" "rnd_ok (ni_random ni)" "worker_ok w" "\<not> pl_dual pl" "\<not> sc_dual_required s"
    and "get_stub c s = Inr (target, s1)" "authorize_scheduler (extract_spiffe_id ctx)"
    and "etcd_get (key_scheduler (sc_scheduler_id s)) e = Some (ed_pem (pl_crypto pl) (sc_signing_key s))"
    and "ed_pem (pl_crypto pl) (sc_signing_key s) \<noteq> []"
    and "ni_now_expiry ni \<le> fadd (fadd (di_now di n) (fdiv (t_max_latency_ms t) 1000)) 10"
    and "is_lease_valid (sc_lease_id s) (ni_now_lease ni) e = (True, e1)"
    and "is_float (t_max_latency_ms t)" "resolve_digest (ftext (pl_crypto pl)) t e = JStr digest"
    and "execute pl (request_of t c digest) e1 (ni_perf0 ni) (ni_perf1 ni) w = Inr (res, w1)"
    and "x_output res = Some out" "json_ok (JObj out)" "out \<noteq> []" "x_model_digest res = Some dg" "dg \<noteq> []"
  shows "attempt pl (node_network pl ctx ni) di t n c (s, e, w) =
    (Inr (res\<lparr>x_task_id := t_task_id t, x_node_id := c, x_error := Some (or_empty (x_error res))\<rparr>), s1, e1, w1)"
proof -
  have s1: "sc_scheduler_id s1 = sc_scheduler_id s" "sc_signing_key s1 = sc_signing_key s"
    "sc_lease_id s1 = sc_lease_id s" "sc_dual_required s1 = sc_dual_required s"
    using assms(9) by (auto simp: get_stub_def Let_def split: option.splits if_splits)
  let ?req = "sign_envelope pl s1 t c (JStr digest) (di_now di n) (di_random di n)"
  note dig = assms(16)
  have v: "verify_task_envelope pl ?req e = Inr ()"
    using envelope_accepted [of pl s1 e] assms(1,7,11,12) by (simp add: s1)
  obtain j where j: "decrypt_envelope (pl_crypto pl) (te_encrypted_payload ?req) (te_encrypted_dek ?req) get_master_kek = Inr j"
    "build_request ?req j = Inr (request_of t c digest)"
    using envelope_opened [OF assms(2,3,4,15)] by blast
  have f: "te_expires_at ?req = fadd (fadd (di_now di n) (fdiv (t_max_latency_ms t) 1000)) 10"
    "te_leader_lease_id ?req = sc_lease_id s" "te_task_id ?req = t_task_id t" "te_node_id ?req = c"
    by (simp_all add: sign_envelope_def Let_def s1 case_prod_beta)
  note x = execute_result_ok [OF assms(17,6)]
  have "ExecuteTask pl ctx ?req ni w e =
      (Inr (sign_response pl ?req (success_payload (ftext (pl_crypto pl)) res) ni (w_node w1)), w1, e1)"
    using assms(10,13,14,17) v j by (simp add: ExecuteTask_def f run_worker_def)
  then have "node_network pl ctx ni target (fdiv (t_max_latency_ms t) 1000) ?req (e, w) =
      (Inr (sign_response pl ?req (success_payload (ftext (pl_crypto pl)) res) ni (w_node w1)), e1, w1)"
    by (simp add: node_network_def)
  moreover have "process_response pl s1 c (JStr digest)
      (sign_response pl ?req (success_payload (ftext (pl_crypto pl)) res) ni (w_node w1)) =
    Inr (res\<lparr>x_task_id := t_task_id t, x_node_id := c, x_error := Some (or_empty (x_error res))\<rparr>)"
    using response_read [OF assms(2,3,5) _ _ _ assms(18-22), of s1] x assms(8) by (simp add: s1 f)
  ultimately show ?thesis using assms(9) by (simp add: attempt_def dig Let_def)
qed

end
