(* ===== verification/JsonText.thy ===== *)
theory JsonText
  imports Json
begin

text \<open>
  The shape of a JSON text: outside its strings the braces are balanced and there is no
  backslash. So no text of an object ends in the text of another object
  (\<open>canonical_no_suffix\<close>), which the hash chain of the ledger needs: a hash is hashed before
  such a text without a separator.
\<close>

section \<open>Scanning a text\<close>

text \<open>Outside of strings at a depth of braces, inside a string, after a backslash in a string.\<close>

datatype place = Outside | Inside | Escaped

fun scan1 :: "place \<times> int \<Rightarrow> char \<Rightarrow> (place \<times> int) option" where
  "scan1 (Outside, d) c =
     (if c = quote then Some (Inside, d) else if c = CHR 0x5C then None
      else if c = CHR 0x7B then Some (Outside, d + 1) else if c = CHR 0x7D then Some (Outside, d - 1)
      else Some (Outside, d))"
| "scan1 (Inside, d) c =
     (if c = quote then Some (Outside, d) else if c = CHR 0x5C then Some (Escaped, d) else Some (Inside, d))"
| "scan1 (Escaped, d) c = Some (Inside, d)"

fun scan :: "place \<times> int \<Rightarrow> str \<Rightarrow> (place \<times> int) option" where
  "scan s [] = Some s"
| "scan s (c # cs) = (case scan1 s c of None \<Rightarrow> None | Some s1 \<Rightarrow> scan s1 cs)"

lemma scan_append: "scan s (xs @ ys) = (case scan s xs of None \<Rightarrow> None | Some s1 \<Rightarrow> scan s1 ys)"
  by (induction xs arbitrary: s) (auto split: option.splits)

text \<open>Every place on the way is at least at the depth \<open>m\<close>.\<close>

fun above :: "int \<Rightarrow> place \<times> int \<Rightarrow> str \<Rightarrow> bool" where
  "above m s [] \<longleftrightarrow> True"
| "above m s (c # cs) \<longleftrightarrow> (case scan1 s c of None \<Rightarrow> False | Some s1 \<Rightarrow> m \<le> snd s1 \<and> above m s1 cs)"

lemma above_append: "above m s (xs @ ys) \<longleftrightarrow> above m s xs \<and> (\<forall>s1. scan s xs = Some s1 \<longrightarrow> above m s1 ys)"
  by (induction xs arbitrary: s) (auto split: option.splits)

lemma above_scan: "above m (p, d) xs \<Longrightarrow> m \<le> d \<Longrightarrow> \<exists>q d'. scan (p, d) xs = Some (q, d') \<and> m \<le> d'"
  by (induction xs arbitrary: p d) (auto split: option.splits)

lemma above_mono: "above m s xs \<Longrightarrow> n \<le> m \<Longrightarrow> above n s xs"
  by (induction xs arbitrary: s) (auto split: option.splits)

text \<open>A balanced text returns to where it started and never gets below its depth.\<close>

definition balanced :: "str \<Rightarrow> bool" where
  "balanced s \<longleftrightarrow> (\<forall>d. scan (Outside, d) s = Some (Outside, d) \<and> above d (Outside, d) s)"

lemma balanced_Nil [simp]: "balanced []"
  by (simp add: balanced_def)

lemma balanced_append [intro]: "balanced s \<Longrightarrow> balanced t \<Longrightarrow> balanced (s @ t)"
  by (simp add: balanced_def scan_append above_append)

lemma balanced_concat: "list_all balanced ss \<Longrightarrow> balanced (concat ss)"
  by (induction ss) auto

lemma balanced_join: "balanced sep \<Longrightarrow> list_all balanced ss \<Longrightarrow> balanced (join sep ss)"
  by (cases ss) (auto simp: join_def list_all_iff intro!: balanced_append balanced_concat)

text \<open>Characters that mean nothing to the scanner.\<close>

definition plain :: "char \<Rightarrow> bool" where
  "plain c \<longleftrightarrow> c \<noteq> quote \<and> c \<noteq> CHR 0x5C \<and> c \<noteq> CHR 0x7B \<and> c \<noteq> CHR 0x7D"

lemma balanced_plain: "list_all plain s \<Longrightarrow> balanced s"
  unfolding balanced_def by (induction s) (auto simp: plain_def)

lemma num_char_plain: "is_num_char c \<Longrightarrow> plain c"
  by (auto simp: is_num_char_def is_digit_def plain_def quote_def)

section \<open>The texts of values\<close>

lemma scan_esc: "scan (Inside, d) (esc_char c) = Some (Inside, d) \<and> above d (Inside, d) (esc_char c)"
proof -
  have "hex_digit n \<noteq> quote \<and> hex_digit n \<noteq> CHR 0x5C" for n :: nat
    using hex_digit_cases [of n] by (auto simp: quote_def hex_digits_def)
  moreover have "c = quote \<longleftrightarrow> of_char c = (34 :: nat)" "c = CHR 0x5C \<longleftrightarrow> of_char c = (92 :: nat)"
    using of_char_inj [of c quote] of_char_inj [of c "CHR 0x5C"] by (auto simp: quote_def)
  ultimately show ?thesis by (simp add: esc_char_def Let_def quote_def)
qed

lemma balanced_str [intro]: "balanced (json_str s)"
proof -
  have "scan (Inside, d) (concat (map esc_char s)) = Some (Inside, d) \<and> above d (Inside, d) (concat (map esc_char s))" for d
    by (induction s) (simp_all add: scan_append above_append scan_esc)
  then show ?thesis by (simp add: balanced_def json_str_def scan_append above_append)
qed

definition object_text :: "str \<Rightarrow> bool" where
  "object_text s \<longleftrightarrow> (\<exists>body. s = CHR 0x7B # body @ [CHR 0x7D] \<and> balanced body)"

lemma balanced_object:
  assumes "object_text s"
  shows "balanced s"
proof -
  obtain body where s: "s = CHR 0x7B # body @ [CHR 0x7D]" "balanced body" using assms by (auto simp: object_text_def)
  have "above d (Outside, d + 1) body" for d
    using s(2) above_mono [of "d + 1" "(Outside, d + 1)" body d] by (simp add: balanced_def)
  then show ?thesis using s(2) by (simp add: balanced_def s(1) scan_append above_append quote_def)
qed

lemma balanced_dumps:
  assumes "float_text_ok ft" "list_all plain sep" "list_all plain colon"
  shows "json_ok j \<Longrightarrow> balanced (dumps ft sep colon j) \<and> (\<forall>kvs. j = JObj kvs \<longrightarrow> object_text (dumps ft sep colon j))"
proof (induction j)
  case (JInt i)
  then show ?case using show_int_chars(1) [of i] by (auto simp: list_all_iff intro!: balanced_plain num_char_plain)
next
  case (JFloat x)
  then have "list_all is_num_char (frepr ft x)" using assms(1) by (simp add: float_text_ok_def)
  then show ?case by (auto simp: list_all_iff intro!: balanced_plain num_char_plain)
next
  case (JArr js)
  have "balanced (join sep (map (dumps ft sep colon) js))"
    using JArr assms(2) by (intro balanced_join balanced_plain) (auto simp: list_all_iff)
  moreover have "balanced ''[''" "balanced '']''" by (auto intro!: balanced_plain simp: plain_def quote_def)
  ultimately have "balanced (''['' @ join sep (map (dumps ft sep colon) js) @ '']'')" by (intro balanced_append)
  then show ?case by simp
next
  case (JObj kvs)
  have "balanced (json_str (fst kv) @ colon @ dumps ft sep colon (snd kv))" if kv: "kv \<in> set kvs" for kv
  proof -
    have "json_ok (snd kv)" using JObj.prems kv by (simp add: list_all_iff)
    then have "balanced (dumps ft sep colon (snd kv))" using JObj.IH [OF kv, of "snd kv"] by (simp add: snds.simps prod_set_simps)
    then show ?thesis using assms(3) balanced_plain by (intro balanced_append balanced_str)
  qed
  then have "balanced (join sep (map (\<lambda>kv. json_str (fst kv) @ colon @ dumps ft sep colon (snd kv)) kvs))"
    using assms(2) by (intro balanced_join balanced_plain) (auto simp: list_all_iff)
  then have "object_text (dumps ft sep colon (JObj kvs))" by (auto simp: object_text_def)
  then show ?case using balanced_object by blast
next
  case (JStr s)
  then show ?case using balanced_str [of s] by simp
qed (auto intro!: balanced_plain simp: plain_def quote_def)

section \<open>No object ends in an object\<close>

text \<open>From inside a string the same text is read with strings and separators exchanged.\<close>

lemma scan_dual:
  assumes "scan (p, a) w = Some (p1, a1)" "scan (q, b) w = Some (q1, b1)"
    and "(p, q) \<in> {(Outside, Inside), (Inside, Outside)}"
  shows "(p1, q1) \<in> {(Outside, Inside), (Inside, Outside)}"
  using assms
proof (induction w arbitrary: p a q b)
  case (Cons c w)
  from Cons.prems(3) show ?case
    using Cons.prems(1,2) Cons.IH by (auto split: if_splits)
qed simp

lemma object_no_suffix:
  assumes "object_text s" "object_text v" "s = u @ v"
  shows "u = []"
proof (rule ccontr)
  assume "u \<noteq> []"
  obtain body where s: "s = CHR 0x7B # body @ [CHR 0x7D]" "balanced body" using assms(1) by (auto simp: object_text_def)
  obtain vb where v: "v = CHR 0x7B # vb @ [CHR 0x7D]" "balanced vb" using assms(2) by (auto simp: object_text_def)
  obtain us where u: "u = CHR 0x7B # us" using \<open>u \<noteq> []\<close> assms(3) s(1) by (cases u) auto
  have "body = us @ CHR 0x7B # vb" using assms(3) s(1) v(1) u by simp
  then have "above 1 (Outside, 1) us" using s(2) by (simp add: balanced_def above_append)
  then obtain p d where us: "scan (Outside, 1) us = Some (p, d)" "1 \<le> d" using above_scan by blast
  then have su: "scan (Outside, 0) u = Some (p, d)" by (simp add: u quote_def)
  have "scan (Outside, 0) s = Some (Outside, 0)" using balanced_object [OF assms(1)] by (simp add: balanced_def)
  then have sv: "scan (p, d) v = Some (Outside, 0)" by (simp add: assms(3) scan_append su)
  have bv: "scan (Outside, a) v = Some (Outside, a)" for a using balanced_object [OF assms(2)] by (simp add: balanced_def)
  show False
  proof (cases "p = Outside")
    case True
    then show ?thesis using sv bv us(2) by simp
  next
    case False
    then have "scan (Inside, d) (vb @ [CHR 0x7D]) = Some (Outside, 0)"
      using sv by (cases p) (simp_all add: v(1) quote_def)
    moreover have "scan (Outside, 1) (vb @ [CHR 0x7D]) = Some (Outside, 0)"
      using bv [of 0] by (simp add: v(1) quote_def)
    ultimately show ?thesis using scan_dual by fastforce
  qed
qed

lemma canonical_object:
  assumes "float_text_ok ft" "json_ok (JObj kvs)"
  shows "object_text (canonical ft (JObj kvs))"
proof -
  have "list_all plain '',''" "list_all plain '':''" by (simp_all add: plain_def quote_def)
  moreover have "json_ok (sorted_json (JObj kvs))" using assms(2) by (rule json_ok_sorted)
  ultimately show ?thesis using balanced_dumps [OF assms(1)] unfolding canonical_def by (metis sorted_json.simps(2))
qed

lemma canonical_no_suffix:
  assumes "float_text_ok ft" "json_ok (JObj a)" "json_ok (JObj b)" "canonical ft (JObj a) = u @ canonical ft (JObj b)"
  shows "u = []"
  using assms canonical_object object_no_suffix by metis

end
