(* ===== verification/Ledger.thy ===== *)
theory Ledger
  imports SupplyChain JsonText
begin

text \<open>
  The audit trail: \<open>results_aggregator/ledger.py\<close>, \<open>results_aggregator/aggregator.py\<close> and the
  independent verifier \<open>tools/verify_audit.py\<close>.

  The JSONL file is the list of its lines, \<open>None\<close> when it does not exist. An event is dumped
  field by field (\<open>event_members\<close>); the text pydantic writes for the dumped value, the text of
  a rejection reason and pydantic's reader are the fields of a record \<open>event_io\<close>, whose law
  \<open>event_io_ok\<close> says that \<open>json.loads\<close> reads the written line back. Failing file operations are
  not modelled.

  \<open>chained\<close> is the specification of a file: every line continues the hash chain. The verifier
  accepts exactly the chained files, appending keeps a file chained, across restarts of the
  process too, and two chained files with the same head hold the same events unless the hash
  function collides on messages of the two files.
\<close>

section \<open>Events as JSON\<close>

record event_io =
  reason_text :: "reason \<Rightarrow> str"
  line_text :: "json \<Rightarrow> str"
  parse_event :: "str \<Rightarrow> AuditEvent option"

definition event_io_ok :: "crypto \<Rightarrow> event_io \<Rightarrow> bool" where
  "event_io_ok cr io \<longleftrightarrow> (\<forall>kvs. json_ok (JObj kvs) \<longrightarrow>
     loads (ftext cr) (line_text io (JObj kvs)) = Some (JObj kvs) \<and>
     line_text io (JObj kvs) \<noteq> [] \<and> strip (line_text io (JObj kvs)) = line_text io (JObj kvs))"

definition json_of_float_opt :: "pyfloat option \<Rightarrow> json" where
  "json_of_float_opt x = (case x of None \<Rightarrow> JNull | Some y \<Rightarrow> JFloat y)"

definition decision_json :: "(reason \<Rightarrow> str) \<Rightarrow> PlacementDecision \<Rightarrow> json" where
  "decision_json text d = JObj
     [(''task_id'', JStr (d_task_id d)),
      (''chosen_node'', JStr (d_chosen_node d)),
      (''chosen_score'', JFloat (d_chosen_score d)),
      (''runner_up_node'', json_of_opt (d_runner_up_node d)),
      (''runner_up_score'', json_of_float_opt (d_runner_up_score d)),
      (''weights_used'', JObj (map (\<lambda>(k, v). (k, JFloat v)) (d_weights_used d))),
      (''decision_latency_ms'', JFloat (d_decision_latency_ms d)),
      (''fallback_chain'', JArr (map JStr (d_fallback_chain d))),
      (''filtered_out_nodes'', JObj (map (\<lambda>(k, r). (k, JStr (text r))) (d_filtered_out_nodes d))),
      (''used_fallback_policy'', JBool (d_used_fallback_policy d))]"

definition execution_json :: "ExecutionResult \<Rightarrow> json" where
  "execution_json x = JObj
     [(''task_id'', JStr (x_task_id x)),
      (''node_id'', JStr (x_node_id x)),
      (''node_class'', JStr (node_class_value (x_node_class x))),
      (''status'', JStr (status_value (x_status x))),
      (''execution_time_ms'', JFloat (x_execution_time_ms x)),
      (''model_digest'', json_of_opt (x_model_digest x)),
      (''output'', (case x_output x of None \<Rightarrow> JNull | Some ob \<Rightarrow> JObj ob)),
      (''error'', json_of_opt (x_error x)),
      (''cached'', JBool (x_cached x)),
      (''idempotency_key'', JStr (x_idempotency_key x))]"

definition event_members :: "event_io \<Rightarrow> AuditEvent \<Rightarrow> jobj" where
  "event_members io ev =
     [(''event_id'', JStr (a_event_id ev)),
      (''schema_version'', JStr (a_schema_version ev)),
      (''task_id'', JStr (a_task_id ev)),
      (''model_digest'', json_of_opt (a_model_digest ev)),
      (''timestamp'', JFloat (a_timestamp ev)),
      (''decision'', decision_json (reason_text io) (a_decision ev)),
      (''execution'', execution_json (a_execution ev)),
      (''fallback_activated'', JBool (a_fallback_activated ev)),
      (''attempts'', JInt (a_attempts ev)),
      (''gateway_rtt_observed_ms'', json_of_float_opt (a_gateway_rtt_observed_ms ev)),
      (''is_shadow_mode'', JBool (a_is_shadow_mode ev)),
      (''previous_event_hash'', JStr (a_previous_event_hash ev)),
      (''event_hash'', JStr (a_event_hash ev))]"

text \<open>An event whose floats are floats and whose dictionaries repeat no key.\<close>

definition event_ok :: "AuditEvent \<Rightarrow> bool" where
  "event_ok ev \<longleftrightarrow> is_float (a_timestamp ev) \<and> pred_option is_float (a_gateway_rtt_observed_ms ev) \<and>
     is_float (d_chosen_score (a_decision ev)) \<and> pred_option is_float (d_runner_up_score (a_decision ev)) \<and>
     is_float (d_decision_latency_ms (a_decision ev)) \<and>
     is_dict (d_weights_used (a_decision ev)) \<and> list_all (is_float \<circ> snd) (d_weights_used (a_decision ev)) \<and>
     is_dict (d_filtered_out_nodes (a_decision ev)) \<and>
     is_float (x_execution_time_ms (a_execution ev)) \<and>
     pred_option (\<lambda>ob. json_ok (JObj ob)) (x_output (a_execution ev))"

section \<open>The ledger\<close>

record TamperEvidentLedger =
  lg_file :: "str list option"
  lg_checkpoint_interval :: int
  lg_signing_key :: bytes
  lg_public_key_pem :: str
  lg_last_hash :: bytes
  lg_events_since_checkpoint :: int
  lg_merkle_leaves :: "bytes list"

definition key_audit_identity :: str where
  "key_audit_identity = ''/distributed-ai/audit/identity''"

definition key_checkpoint :: "str \<Rightarrow> str" where
  "key_checkpoint checkpoint_id = ''/distributed-ai/audit/checkpoints/'' @ checkpoint_id"

text \<open>\<open>_recover_state\<close>: the hash of the last line that is not blank, when it can be read.\<close>

definition last_line :: "str list \<Rightarrow> str option" where
  "last_line ls = (case rev (filter (\<lambda>l. l \<noteq> []) (map strip ls)) of [] \<Rightarrow> None | l # _ \<Rightarrow> Some l)"

definition read_event_hash :: "float_text \<Rightarrow> str \<Rightarrow> bytes option" where
  "read_event_hash ft line =
     (case loads ft line of
        Some (JObj data) \<Rightarrow> (case map_of data ''event_hash'' of Some (JStr s) \<Rightarrow> fromhex s | _ \<Rightarrow> None)
      | _ \<Rightarrow> None)"

definition recover_state :: "float_text \<Rightarrow> TamperEvidentLedger \<Rightarrow> TamperEvidentLedger" where
  "recover_state ft lg =
     (case lg_file lg of
        None \<Rightarrow> lg\<lparr>lg_file := Some []\<rparr>
      | Some ls \<Rightarrow>
          (case last_line ls of
             None \<Rightarrow> lg
           | Some l \<Rightarrow> (case read_event_hash ft l of None \<Rightarrow> lg | Some h \<Rightarrow> lg\<lparr>lg_last_hash := h\<rparr>)))"

text \<open>The constructor on an existing or absent file, with the generated signing key.\<close>

definition new_TamperEvidentLedger ::
    "crypto \<Rightarrow> str list option \<Rightarrow> int \<Rightarrow> bytes \<Rightarrow> etcd \<Rightarrow> TamperEvidentLedger \<times> etcd" where
  "new_TamperEvidentLedger cr file interval sk e =
     (recover_state (ftext cr)
        \<lparr>lg_file = file, lg_checkpoint_interval = interval, lg_signing_key = sk,
         lg_public_key_pem = ed_pem cr sk, lg_last_hash = [], lg_events_since_checkpoint = 0,
         lg_merkle_leaves = []\<rparr>,
      etcd_put key_audit_identity (ed_pem cr sk) e)"

definition hash_event :: "crypto \<Rightarrow> event_io \<Rightarrow> AuditEvent \<Rightarrow> bytes \<Rightarrow> bytes" where
  "hash_event cr io ev prev_hash =
     (let data = ddel ''event_hash'' (event_members io ev);
          canonical_json = encode (canonical (ftext cr) (JObj data))
      in sha256 cr (encode ''DISTRIBUTED_AI_AUDIT_V1'' @ prev_hash @ canonical_json))"

text \<open>\<open>int(leaf[:4].hex(), 16)\<close>\<close>

definition leaf_number :: "bytes \<Rightarrow> int" where
  "leaf_number leaf = fold (\<lambda>b n. n * 256 + uint b) (take 4 leaf) 0"

definition merkle_root :: "crypto \<Rightarrow> bytes list \<Rightarrow> bytes" where
  "merkle_root cr leaves = sha256 cr (concat leaves)"

definition create_checkpoint :: "crypto \<Rightarrow> TamperEvidentLedger \<times> etcd \<Rightarrow> TamperEvidentLedger \<times> etcd" where
  "create_checkpoint cr = (\<lambda>(lg, e).
     if lg_merkle_leaves lg = [] then (lg, e)
     else
       (let root = merkle_root cr (lg_merkle_leaves lg);
            signature = ed_sign cr (lg_signing_key lg) root;
            checkpoint_id = ''ckpt_'' @ show_int (leaf_number (last (lg_merkle_leaves lg)));
            checkpoint_data = JObj [(''root'', JStr (hex root)), (''signature'', JStr (hex signature)),
              (''event_count'', JInt (int (length (lg_merkle_leaves lg))))]
        in (lg\<lparr>lg_events_since_checkpoint := 0, lg_merkle_leaves := []\<rparr>,
            etcd_put (key_checkpoint checkpoint_id) (default_dumps (ftext cr) checkpoint_data) e)))"

text \<open>\<open>append\<close> returns the event as it updates it.\<close>

definition append_event ::
    "crypto \<Rightarrow> event_io \<Rightarrow> AuditEvent \<Rightarrow> TamperEvidentLedger \<times> etcd \<Rightarrow> AuditEvent \<times> TamperEvidentLedger \<times> etcd" where
  "append_event cr io ev = (\<lambda>(lg, e).
     let ev1 = ev\<lparr>a_previous_event_hash := hex (lg_last_hash lg)\<rparr>;
         current_hash = hash_event cr io ev1 (lg_last_hash lg);
         ev2 = ev1\<lparr>a_event_hash := hex current_hash\<rparr>;
         lines = (case lg_file lg of None \<Rightarrow> [] | Some ls \<Rightarrow> ls);
         lg1 = lg\<lparr>lg_last_hash := current_hash,
                  lg_merkle_leaves := lg_merkle_leaves lg @ [current_hash],
                  lg_file := Some (lines @ [line_text io (JObj (event_members io ev2))]),
                  lg_events_since_checkpoint := lg_events_since_checkpoint lg + 1\<rparr>
     in (ev2, if lg_checkpoint_interval lg1 \<le> lg_events_since_checkpoint lg1
              then create_checkpoint cr (lg1, e) else (lg1, e)))"

definition read_event :: "event_io \<Rightarrow> str \<Rightarrow> exc + AuditEvent" where
  "read_event io line =
     (case parse_event io line of None \<Rightarrow> Inl (py_exc ValidationErrorClass []) | Some ev \<Rightarrow> Inr ev)"

definition get_all :: "event_io \<Rightarrow> str option \<Rightarrow> TamperEvidentLedger \<Rightarrow> exc + AuditEvent list" where
  "get_all io task_id lg =
     (case lg_file lg of
        None \<Rightarrow> Inr []
      | Some ls \<Rightarrow>
          rbind (rmap (read_event io) (filter (\<lambda>l. l \<noteq> []) (map strip ls)))
            (\<lambda>evs. Inr (filter (\<lambda>ev. task_id = None \<or> task_id = Some (a_task_id ev)) evs)))"

definition clear_ledger :: "TamperEvidentLedger \<Rightarrow> TamperEvidentLedger" where
  "clear_ledger lg = lg\<lparr>lg_file := None, lg_last_hash := [], lg_events_since_checkpoint := 0,
     lg_merkle_leaves := []\<rparr>"

section \<open>The aggregator\<close>

text \<open>
  \<open>ResultsAggregator.aggregate\<close>: the audit event is built from its arguments, the generated
  identifier and the clock, appended, and the response envelope returned.
\<close>

definition output_field :: "ExecutionResult \<Rightarrow> str \<Rightarrow> json" where
  "output_field execution name =
     (case x_output execution of None \<Rightarrow> JNull
      | Some ob \<Rightarrow> (case map_of ob name of None \<Rightarrow> JNull | Some j \<Rightarrow> j))"

definition audit_record ::
    "str \<Rightarrow> pyfloat \<Rightarrow> str \<Rightarrow> PlacementDecision \<Rightarrow> ExecutionResult \<Rightarrow> bool \<Rightarrow> int \<Rightarrow> pyfloat option \<Rightarrow> AuditEvent" where
  "audit_record event_id now task_id decision execution fallback_activated attempts rtt =
     \<lparr>a_event_id = event_id, a_schema_version = ''1.0'', a_task_id = task_id,
      a_model_digest = x_model_digest execution, a_timestamp = now, a_decision = decision,
      a_execution = execution, a_fallback_activated = fallback_activated, a_attempts = attempts,
      a_gateway_rtt_observed_ms = rtt, a_is_shadow_mode = False, a_previous_event_hash = [],
      a_event_hash = []\<rparr>"

definition response_envelope :: "str \<Rightarrow> str \<Rightarrow> PlacementDecision \<Rightarrow> ExecutionResult \<Rightarrow> bool \<Rightarrow> int \<Rightarrow> jobj" where
  "response_envelope event_id task_id decision execution fallback_activated attempts =
     [(''task_id'', JStr task_id),
      (''status'', JStr (status_value (x_status execution))),
      (''prediction'', output_field execution ''prediction''),
      (''confidence'', output_field execution ''confidence''),
      (''execution_metadata'', JObj
        [(''executed_node'', JStr (x_node_id execution)),
         (''node_class'', JStr (node_class_value (x_node_class execution))),
         (''execution_time_ms'', JFloat (x_execution_time_ms execution)),
         (''decision_overhead_ms'', JFloat (d_decision_latency_ms decision)),
         (''model_digest'', json_of_opt (x_model_digest execution)),
         (''fallback_activated'', JBool fallback_activated),
         (''attempts'', JInt attempts),
         (''audit_event_id'', JStr event_id),
         (''cached'', JBool (x_cached execution))]),
      (''routing_audit'', JObj
        [(''chosen_score'', JFloat (d_chosen_score decision)),
         (''runner_up_node'', json_of_opt (d_runner_up_node decision)),
         (''runner_up_score'', json_of_float_opt (d_runner_up_score decision)),
         (''weights_used'', JObj (map (\<lambda>(k, v). (k, JFloat v)) (d_weights_used decision))),
         (''fallback_chain'', JArr (map JStr (d_fallback_chain decision)))])]"

definition aggregate ::
    "crypto \<Rightarrow> event_io \<Rightarrow> str \<Rightarrow> pyfloat \<Rightarrow> str \<Rightarrow> PlacementDecision \<Rightarrow> ExecutionResult \<Rightarrow> bool \<Rightarrow> int \<Rightarrow>
     pyfloat option \<Rightarrow> TamperEvidentLedger \<times> etcd \<Rightarrow> jobj \<times> TamperEvidentLedger \<times> etcd" where
  "aggregate cr io event_id now task_id decision execution fallback_activated attempts rtt s =
     (let audit = audit_record event_id now task_id decision execution fallback_activated attempts rtt;
          (_, s') = append_event cr io audit s
      in (response_envelope event_id task_id decision execution fallback_activated attempts, s'))"

section \<open>The independent verifier\<close>

definition hash_event_dict :: "crypto \<Rightarrow> jobj \<Rightarrow> bytes \<Rightarrow> bytes" where
  "hash_event_dict cr event prev_hash =
     (let canonical_json = encode (canonical (ftext cr) (JObj (ddel ''event_hash'' event)))
      in sha256 cr (encode ''DISTRIBUTED_AI_AUDIT_V1'' @ prev_hash @ canonical_json))"

text \<open>\<open>bytes.fromhex(event.get(name, ""))\<close>\<close>

definition hex_field :: "jobj \<Rightarrow> str \<Rightarrow> exc + bytes" where
  "hex_field event name =
     (case map_of event name of
        None \<Rightarrow> Inr []
      | Some (JStr s) \<Rightarrow> (case fromhex s of None \<Rightarrow> Inl (py_exc ValueErrorClass []) | Some b \<Rightarrow> Inr b)
      | Some _ \<Rightarrow> Inl (py_exc TypeErrorClass []))"

lemma hex_absent [simp]: "map_of event name = None \<Longrightarrow> hex_field event name = Inr []"
  by (simp add: hex_field_def)

text \<open>The body of the loop: the hash expected next and the number of errors so far.\<close>

definition verify_line :: "crypto \<Rightarrow> str \<Rightarrow> bytes \<times> nat \<Rightarrow> exc + (bytes \<times> nat)" where
  "verify_line cr line = (\<lambda>(expected_prev_hash, errors).
     case loads (ftext cr) line of
       None \<Rightarrow> Inr (expected_prev_hash, errors + 1)
     | Some (JObj event) \<Rightarrow>
         rbind (hex_field event ''previous_event_hash'') (\<lambda>stated_prev_hash.
           let errors1 = (if stated_prev_hash \<noteq> expected_prev_hash then errors + 1 else errors) in
           rbind (hex_field event ''event_hash'') (\<lambda>stated_event_hash.
             let calculated_hash = hash_event_dict cr event stated_prev_hash in
             if stated_event_hash \<noteq> calculated_hash then Inr (calculated_hash, errors1 + 1)
             else Inr (stated_event_hash, errors1)))
     | Some _ \<Rightarrow> Inl (py_exc AttributeErrorClass []))"

fun verify_lines :: "crypto \<Rightarrow> str list \<Rightarrow> bytes \<times> nat \<Rightarrow> exc + (bytes \<times> nat)" where
  "verify_lines cr [] st = Inr st"
| "verify_lines cr (line # lines) st =
     (if strip line = [] then verify_lines cr lines st
      else rbind (verify_line cr (strip line) st) (verify_lines cr lines))"

definition verify_ledger :: "crypto \<Rightarrow> str list option \<Rightarrow> exc + bool" where
  "verify_ledger cr file =
     (case file of
        None \<Rightarrow> Inr False
      | Some lines \<Rightarrow> rbind (verify_lines cr lines ([], 0)) (\<lambda>(_, errors). Inr (errors = 0)))"

section \<open>The hash chain\<close>

text \<open>
  The specification: \<open>chained cr p lines q\<close>, the lines continue the chain from the hash
  \<open>p\<close> to the hash \<open>q\<close>. \<open>link\<close> is one line of it.
\<close>

definition link :: "crypto \<Rightarrow> bytes \<Rightarrow> str \<Rightarrow> jobj \<Rightarrow> bytes \<Rightarrow> bool" where
  "link cr p line event q \<longleftrightarrow> loads (ftext cr) line = Some (JObj event) \<and>
     hex_field event ''previous_event_hash'' = Inr p \<and> hex_field event ''event_hash'' = Inr q \<and>
     q = hash_event_dict cr event p"

fun chained :: "crypto \<Rightarrow> bytes \<Rightarrow> str list \<Rightarrow> bytes \<Rightarrow> bool" where
  "chained cr p [] q \<longleftrightarrow> q = p"
| "chained cr p (line # lines) q \<longleftrightarrow>
     (if strip line = [] then chained cr p lines q
      else (\<exists>event h. link cr p (strip line) event h \<and> chained cr h lines q))"

lemma verify_line_clean:
  "verify_line cr line (p, n) = Inr (q, n) \<longleftrightarrow> (\<exists>event. link cr p line event q)"
  by (auto simp: verify_line_def link_def Let_def rbind_Inr_iff split: option.splits json.splits if_splits)

lemma verify_line_mono: "verify_line cr line (p, n) = Inr (q, m) \<Longrightarrow> n \<le> m"
  by (auto simp: verify_line_def Let_def rbind_Inr_iff split: option.splits json.splits if_splits)

lemma verify_lines_mono: "verify_lines cr ls (p, n) = Inr (q, m) \<Longrightarrow> n \<le> m"
proof (induction ls arbitrary: p n)
  case (Cons l ls)
  show ?case
  proof (cases "strip l = []")
    case False
    then obtain a b where "verify_line cr (strip l) (p, n) = Inr (a, b)" "verify_lines cr ls (a, b) = Inr (q, m)"
      using Cons.prems by (auto simp: rbind_Inr_iff)
    then show ?thesis using Cons.IH verify_line_mono by (metis order_trans)
  qed (use Cons in simp)
qed simp

lemma verify_lines_clean: "verify_lines cr ls (p, 0) = Inr (q, 0) \<longleftrightarrow> chained cr p ls q"
proof (induction ls arbitrary: p)
  case (Cons l ls)
  show ?case
  proof (cases "strip l = []")
    case True
    then show ?thesis using Cons by simp
  next
    case False
    have "verify_lines cr (l # ls) (p, 0) = Inr (q, 0) \<longleftrightarrow>
        (\<exists>h. verify_line cr (strip l) (p, 0) = Inr (h, 0) \<and> verify_lines cr ls (h, 0) = Inr (q, 0))"
    proof
      assume "verify_lines cr (l # ls) (p, 0) = Inr (q, 0)"
      then obtain a b where "verify_line cr (strip l) (p, 0) = Inr (a, b)" and t: "verify_lines cr ls (a, b) = Inr (q, 0)"
        using False by (auto simp: rbind_Inr_iff)
      moreover have "b = 0" using verify_lines_mono [OF t] by simp
      ultimately show "\<exists>h. verify_line cr (strip l) (p, 0) = Inr (h, 0) \<and> verify_lines cr ls (h, 0) = Inr (q, 0)"
        by blast
    qed (use False in \<open>auto simp: rbind_Inr_iff\<close>)
    also have "\<dots> \<longleftrightarrow> chained cr p (l # ls) q" using False by (simp add: verify_line_clean Cons.IH) blast
    finally show ?thesis .
  qed
qed auto

lemma verify_ledger_iff: "verify_ledger cr (Some ls) = Inr True \<longleftrightarrow> (\<exists>q. chained cr [] ls q)"
  by (fastforce simp: verify_ledger_def rbind_Inr_iff verify_lines_clean)

lemma chained_append: "chained cr p (ls @ ms) q \<longleftrightarrow> (\<exists>h. chained cr p ls h \<and> chained cr h ms q)"
  by (induction ls arbitrary: p) auto

lemma link_unique: "link cr p l ev q \<Longrightarrow> link cr p l ev' q' \<Longrightarrow> ev = ev' \<and> q = q'"
  unfolding link_def by (metis json.inject(6) option.inject sum.inject(2))

lemma chained_unique: "chained cr p ls q \<Longrightarrow> chained cr p ls q' \<Longrightarrow> q = q'"
proof (induction ls arbitrary: p)
  case (Cons l ls)
  show ?case
  proof (cases "strip l = []")
    case False
    then obtain ev h ev' h' where "link cr p (strip l) ev h" "chained cr h ls q"
      "link cr p (strip l) ev' h'" "chained cr h' ls q'"
      using Cons.prems by auto
    then show ?thesis using Cons.IH link_unique by blast
  qed (use Cons in simp)
qed simp

text \<open>The events of a file: what is read from its lines that are not blank.\<close>

definition stripped :: "str list \<Rightarrow> str list" where
  "stripped ls = filter (\<lambda>l. l \<noteq> []) (map strip ls)"

definition events_of :: "crypto \<Rightarrow> str list \<Rightarrow> json option list" where
  "events_of cr ls = map (loads (ftext cr)) (stripped ls)"

lemma stripped_simps [simp]:
  "stripped [] = []" "stripped (l # ls) = (if strip l = [] then [] else [strip l]) @ stripped ls"
  "stripped (ls @ ms) = stripped ls @ stripped ms"
  by (simp_all add: stripped_def)

lemma strip_strip [simp]: "strip (strip s) = strip s"
proof -
  have d: "dropWhile P (rev (dropWhile P xs)) = rev (dropWhile P xs)"
    if "xs = rev (dropWhile P ys)" for P :: "char \<Rightarrow> bool" and xs ys
  proof (cases "rev (dropWhile P xs)")
    case (Cons a as)
    obtain pre where xs: "xs = pre @ dropWhile P xs" by (metis takeWhile_dropWhile_id)
    have "dropWhile P ys = rev (dropWhile P xs) @ rev pre" using that xs by (metis rev_append rev_rev_ident)
    then have "\<not> P a" using Cons hd_dropWhile [of P ys] by (metis append_Cons list.distinct(1) list.sel(1))
    then show ?thesis using Cons by simp
  next
    case Nil
    then show ?thesis by (simp del: dropWhile_eq_Nil_conv)
  qed
  show ?thesis unfolding strip_def by (simp add: d)
qed

lemma chained_stripped: "chained cr p (stripped ls) q \<longleftrightarrow> chained cr p ls q"
  by (induction ls arbitrary: p) auto

section \<open>Appending continues the chain\<close>

lemma event_members_ok:
  assumes "event_ok ev"
  shows "json_ok (JObj (event_members io ev))"
  using assms
  by (auto simp: event_ok_def event_members_def decision_json_def execution_json_def json_of_opt_def
      json_of_float_opt_def list_all_iff comp_def case_prod_unfold pred_option_def
      split: option.splits)

lemma hash_event_dict_eq: "hash_event_dict cr (event_members io ev) p = hash_event cr io ev p"
  by (simp add: hash_event_dict_def hash_event_def)

lemma hash_event_ignores: "hash_event cr io (ev\<lparr>a_event_hash := h\<rparr>) p = hash_event cr io ev p"
  by (simp add: hash_event_def event_members_def)

lemma event_ok_update [simp]:
  "event_ok (ev\<lparr>a_previous_event_hash := h\<rparr>) = event_ok ev" "event_ok (ev\<lparr>a_event_hash := h\<rparr>) = event_ok ev"
  by (simp_all add: event_ok_def)

text \<open>The line an append writes and the hash it carries.\<close>

definition stamped :: "crypto \<Rightarrow> event_io \<Rightarrow> bytes \<Rightarrow> AuditEvent \<Rightarrow> AuditEvent" where
  "stamped cr io p ev = (let ev1 = ev\<lparr>a_previous_event_hash := hex p\<rparr> in
     ev1\<lparr>a_event_hash := hex (hash_event cr io ev1 p)\<rparr>)"

definition stamp_hash :: "crypto \<Rightarrow> event_io \<Rightarrow> bytes \<Rightarrow> AuditEvent \<Rightarrow> bytes" where
  "stamp_hash cr io p ev = hash_event cr io (ev\<lparr>a_previous_event_hash := hex p\<rparr>) p"

definition stamped_line :: "crypto \<Rightarrow> event_io \<Rightarrow> bytes \<Rightarrow> AuditEvent \<Rightarrow> str" where
  "stamped_line cr io p ev = line_text io (JObj (event_members io (stamped cr io p ev)))"

definition file_lines :: "TamperEvidentLedger \<Rightarrow> str list" where
  "file_lines lg = (case lg_file lg of None \<Rightarrow> [] | Some ls \<Rightarrow> ls)"

lemma create_checkpoint_frame [simp, frame]:
  "lg_file (fst (create_checkpoint cr s)) = lg_file (fst s)"
  "lg_last_hash (fst (create_checkpoint cr s)) = lg_last_hash (fst s)"
  "lg_checkpoint_interval (fst (create_checkpoint cr s)) = lg_checkpoint_interval (fst s)"
  "lg_signing_key (fst (create_checkpoint cr s)) = lg_signing_key (fst s)"
  by (auto simp: create_checkpoint_def Let_def split: prod.splits)

lemma append_event_file:
  "lg_file (fst (snd (append_event cr io ev (lg, e)))) =
     Some (file_lines lg @ [stamped_line cr io (lg_last_hash lg) ev])"
  "lg_last_hash (fst (snd (append_event cr io ev (lg, e)))) = stamp_hash cr io (lg_last_hash lg) ev"
  "fst (append_event cr io ev (lg, e)) = stamped cr io (lg_last_hash lg) ev"
  by (simp_all add: append_event_def Let_def stamped_line_def stamped_def stamp_hash_def file_lines_def)

lemma stamped_link:
  assumes "event_io_ok cr io" "event_ok ev"
  shows "\<exists>event. link cr p (stamped_line cr io p ev) event (stamp_hash cr io p ev) \<and>
      map_of event ''event_hash'' \<noteq> None"
    and "strip (stamped_line cr io p ev) = stamped_line cr io p ev" "stamped_line cr io p ev \<noteq> []"
proof -
  let ?ev = "stamped cr io p ev"
  have "event_ok ?ev" using assms(2) by (simp add: stamped_def Let_def)
  then have ok: "json_ok (JObj (event_members io ?ev))" by (rule event_members_ok)
  then show "strip (stamped_line cr io p ev) = stamped_line cr io p ev" "stamped_line cr io p ev \<noteq> []"
    using assms(1) by (auto simp: event_io_ok_def stamped_line_def)
  have "loads (ftext cr) (stamped_line cr io p ev) = Some (JObj (event_members io ?ev))"
    using assms(1) ok by (simp add: event_io_ok_def stamped_line_def)
  moreover have "hash_event_dict cr (event_members io ?ev) p = stamp_hash cr io p ev"
    by (simp add: hash_event_dict_eq stamped_def Let_def hash_event_ignores stamp_hash_def)
  moreover have "hex_field (event_members io ?ev) ''previous_event_hash'' = Inr p"
    "hex_field (event_members io ?ev) ''event_hash'' = Inr (stamp_hash cr io p ev)"
    by (simp_all add: hex_field_def event_members_def stamped_def Let_def stamp_hash_def)
  moreover have "map_of (event_members io ?ev) ''event_hash'' \<noteq> None" by (simp add: event_members_def)
  ultimately show "\<exists>event. link cr p (stamped_line cr io p ev) event (stamp_hash cr io p ev) \<and>
      map_of event ''event_hash'' \<noteq> None"
    by (auto simp: link_def)
qed

text \<open>
  The invariant of a running ledger: its file is chained up to its last hash, which is the
  hash stated by the last line.
\<close>

definition head_of :: "float_text \<Rightarrow> str list \<Rightarrow> bytes option" where
  "head_of ft ls = (case last_line ls of None \<Rightarrow> Some [] | Some l \<Rightarrow> read_event_hash ft l)"

definition ledger_ok :: "crypto \<Rightarrow> TamperEvidentLedger \<Rightarrow> bool" where
  "ledger_ok cr lg \<longleftrightarrow> chained cr [] (file_lines lg) (lg_last_hash lg) \<and>
     head_of (ftext cr) (file_lines lg) = Some (lg_last_hash lg)"

lemma last_line_snoc: "strip l = l \<Longrightarrow> l \<noteq> [] \<Longrightarrow> last_line (ls @ [l]) = Some l"
  by (simp add: last_line_def)

lemma link_read_hash:
  "link cr p l event q \<Longrightarrow> map_of event ''event_hash'' \<noteq> None \<Longrightarrow> read_event_hash (ftext cr) l = Some q"
  by (auto simp: link_def read_event_hash_def hex_field_def split: option.splits json.splits)

lemma append_event_ok:
  assumes "event_io_ok cr io" "event_ok ev" "ledger_ok cr lg"
  shows "ledger_ok cr (fst (snd (append_event cr io ev (lg, e))))"
proof -
  let ?l = "stamped_line cr io (lg_last_hash lg) ev" and ?q = "stamp_hash cr io (lg_last_hash lg) ev"
  obtain event where l: "link cr (lg_last_hash lg) ?l event ?q" and h: "map_of event ''event_hash'' \<noteq> None"
    and s: "strip ?l = ?l" "?l \<noteq> []"
    using stamped_link [OF assms(1,2)] by blast
  then show ?thesis using assms(3)
    by (auto simp: ledger_ok_def append_event_file file_lines_def chained_append head_of_def last_line_snoc link_read_hash [OF l h])
qed

lemma new_ledger_ok:
  assumes "chained cr [] (case file of None \<Rightarrow> [] | Some ls \<Rightarrow> ls) q"
    and "head_of (ftext cr) (case file of None \<Rightarrow> [] | Some ls \<Rightarrow> ls) = Some q"
  shows "ledger_ok cr (fst (new_TamperEvidentLedger cr file n sk e))"
  using assms
  by (auto simp: ledger_ok_def new_TamperEvidentLedger_def recover_state_def file_lines_def head_of_def last_line_def
      split: option.splits list.splits)

section \<open>A ledger that only grows\<close>

text \<open>
  The interface of an append-only log: adding an entry leaves every recorded entry where it is.
\<close>

locale append_only =
  fixes add :: "'e \<Rightarrow> 's \<Rightarrow> 's"
    and entries :: "'s \<Rightarrow> 'r list"
    and entry :: "'e \<Rightarrow> 's \<Rightarrow> 'r"
  assumes entries_add: "entries (add x s) = entries s @ [entry x s]"
begin

lemma entries_fold: "\<exists>ys. entries (fold add xs s) = entries s @ ys \<and> length ys = length xs"
proof (induction xs arbitrary: s)
  case (Cons x xs)
  then obtain ys where "entries (fold add xs (add x s)) = entries (add x s) @ ys" "length ys = length xs"
    by blast
  then show ?case by (intro exI [of _ "entry x s # ys"]) (simp add: entries_add)
qed simp

lemma entries_kept: "i < length (entries s) \<Longrightarrow> entries (fold add xs s) ! i = entries s ! i"
  using entries_fold [of xs s] by (auto simp: nth_append)

lemma entries_length: "length (entries (fold add xs s)) = length (entries s) + length xs"
  using entries_fold [of xs s] by auto

end

interpretation ledger_log: append_only
  "\<lambda>ev s. snd (append_event cr io ev s)" "\<lambda>s. file_lines (fst s)"
  "\<lambda>ev s. stamped_line cr io (lg_last_hash (fst s)) ev" for cr io
proof
  fix ev and s :: "TamperEvidentLedger \<times> etcd"
  obtain lg e where s: "s = (lg, e)" by fastforce
  show "file_lines (fst (snd (append_event cr io ev s))) =
      file_lines (fst s) @ [stamped_line cr io (lg_last_hash (fst s)) ev]"
    unfolding s by (simp add: append_event_file(1) file_lines_def [of "fst (snd (append_event cr io ev (lg, e)))"])
qed

text \<open>What a process does with its ledger: append an event, or start again on the same file.\<close>

datatype ledger_op = Append AuditEvent | Restart bytes

fun ledger_step :: "crypto \<Rightarrow> event_io \<Rightarrow> ledger_op \<Rightarrow> TamperEvidentLedger \<times> etcd \<Rightarrow> TamperEvidentLedger \<times> etcd" where
  "ledger_step cr io (Append ev) s = snd (append_event cr io ev s)"
| "ledger_step cr io (Restart sk) s =
     new_TamperEvidentLedger cr (lg_file (fst s)) (lg_checkpoint_interval (fst s)) sk (snd s)"

fun op_ok :: "ledger_op \<Rightarrow> bool" where
  "op_ok (Append ev) = event_ok ev"
| "op_ok (Restart sk) = True"

lemma ledger_okD:
  "ledger_ok cr lg \<Longrightarrow> verify_ledger cr (Some (file_lines lg)) = Inr True"
  by (auto simp: ledger_ok_def verify_ledger_iff)

lemma ledger_step_ok:
  assumes "event_io_ok cr io" "op_ok op" "ledger_ok cr (fst s)"
  shows "ledger_ok cr (fst (ledger_step cr io op s)) \<and> lg_file (fst (ledger_step cr io op s)) \<noteq> None"
proof (cases op)
  case (Append ev)
  then show ?thesis using assms append_event_ok [of cr io ev "fst s" "snd s"] append_event_file(1) [of cr io ev "fst s" "snd s"]
    by simp
next
  case (Restart sk)
  have "ledger_ok cr (fst (ledger_step cr io op s))"
    unfolding Restart ledger_step.simps using assms(3)
    by (intro new_ledger_ok [of _ _ "lg_last_hash (fst s)"])
      (auto simp: ledger_ok_def file_lines_def split: option.splits)
  moreover have "lg_file (fst (ledger_step cr io op s)) \<noteq> None"
    by (auto simp: Restart new_TamperEvidentLedger_def recover_state_def split: option.splits)
  ultimately show ?thesis by blast
qed

lemma new_ledger_empty: "ledger_ok cr (fst (new_TamperEvidentLedger cr None n sk e)) \<and>
    lg_file (fst (new_TamperEvidentLedger cr None n sk e)) \<noteq> None"
  using new_ledger_ok [of cr None "[]" n sk e]
  by (simp add: head_of_def last_line_def) (simp add: new_TamperEvidentLedger_def recover_state_def)

lemma ledger_run_ok:
  assumes "event_io_ok cr io" "list_all op_ok ops" "ledger_ok cr (fst s)" "lg_file (fst s) \<noteq> None"
  shows "ledger_ok cr (fst (fold (ledger_step cr io) ops s)) \<and> lg_file (fst (fold (ledger_step cr io) ops s)) \<noteq> None"
  using assms(2-4)
proof (induction ops arbitrary: s)
  case (Cons op ops)
  then show ?case using ledger_step_ok [OF assms(1), of op s] by simp
qed simp

lemma file_Some_lines: "lg_file lg \<noteq> None \<Longrightarrow> lg_file lg = Some (file_lines lg)"
  by (auto simp: file_lines_def)

section \<open>Checkpoints\<close>

text \<open>Fewer events than one interval are outside every checkpoint.\<close>

definition checkpoint_inv :: "TamperEvidentLedger \<Rightarrow> bool" where
  "checkpoint_inv lg \<longleftrightarrow> lg_events_since_checkpoint lg = int (length (lg_merkle_leaves lg)) \<and>
     (0 < lg_checkpoint_interval lg \<longrightarrow> lg_events_since_checkpoint lg < lg_checkpoint_interval lg)"

lemma checkpoint_inv_append:
  "checkpoint_inv lg \<Longrightarrow> checkpoint_inv (fst (snd (append_event cr io ev (lg, e))))"
  by (auto simp: checkpoint_inv_def append_event_def create_checkpoint_def Let_def)

lemma checkpoint_inv_new: "checkpoint_inv (fst (new_TamperEvidentLedger cr file n sk e))"
  by (auto simp: checkpoint_inv_def new_TamperEvidentLedger_def recover_state_def split: option.splits)

lemma checkpoint_inv_run:
  "checkpoint_inv (fst s) \<Longrightarrow> checkpoint_inv (fst (fold (ledger_step cr io) ops s))"
proof (induction ops arbitrary: s)
  case (Cons op ops)
  have "checkpoint_inv (fst (ledger_step cr io op s))"
    using Cons.prems checkpoint_inv_append [of "fst s" _ _ _ "snd s"] checkpoint_inv_new by (cases op) auto
  then show ?case using Cons.IH by simp
qed simp

section \<open>The head of a file commits to its events\<close>

text \<open>The canonical text of the event of a line, all but its own hash, and the message hashed for it.\<close>

definition line_content :: "crypto \<Rightarrow> str \<Rightarrow> str" where
  "line_content cr l = (case loads (ftext cr) l of
     Some (JObj event) \<Rightarrow> canonical (ftext cr) (JObj (ddel ''event_hash'' event)) | _ \<Rightarrow> [])"

definition line_message :: "crypto \<Rightarrow> str \<Rightarrow> bytes" where
  "line_message cr l = (case loads (ftext cr) l of
     Some (JObj event) \<Rightarrow> (case hex_field event ''previous_event_hash'' of
        Inr p \<Rightarrow> encode ''DISTRIBUTED_AI_AUDIT_V1'' @ p @ encode (line_content cr l) | Inl _ \<Rightarrow> [])
   | _ \<Rightarrow> [])"

lemma link_message:
  "link cr p l event q \<Longrightarrow> line_message cr l = encode ''DISTRIBUTED_AI_AUDIT_V1'' @ p @ encode (line_content cr l) \<and>
     q = sha256 cr (line_message cr l)"
  by (simp add: link_def line_message_def line_content_def hash_event_dict_def)

definition nonblank :: "str list \<Rightarrow> bool" where
  "nonblank ls \<longleftrightarrow> list_all (\<lambda>l. strip l \<noteq> []) ls"

lemma nonblank_simps [simp]:
  "nonblank []" "nonblank (l # ls) \<longleftrightarrow> strip l \<noteq> [] \<and> nonblank ls"
  "nonblank (ls @ ms) \<longleftrightarrow> nonblank ls \<and> nonblank ms"
  by (simp_all add: nonblank_def)

lemma nonblank_stripped: "nonblank (stripped ls)" "map strip (stripped ls) = stripped ls"
  by (induction ls) auto

lemma chained_snoc:
  "strip l \<noteq> [] \<Longrightarrow> chained cr p (ls @ [l]) q \<longleftrightarrow> (\<exists>h event. chained cr p ls h \<and> link cr h (strip l) event q)"
  by (auto simp: chained_append)

lemma chained_length:
  assumes "chained cr [] ls q" "nonblank ls" "ls \<noteq> []" "\<And>m. length (sha256 cr m) = 32"
  shows "length q = 32"
proof -
  obtain ms l where ls: "ls = ms @ [l]" using assms(3) by (metis rev_exhaust)
  then obtain h event where "link cr h (strip l) event q" using assms(1,2) by (auto simp: chained_snoc)
  then show ?thesis using link_message assms(4) by metis
qed

lemma link_content:
  assumes "floats_read (ftext cr)" "link cr p l event q"
  shows "\<exists>kvs. line_content cr l = canonical (ftext cr) (JObj kvs) \<and> json_ok (JObj kvs)"
proof -
  have "json_ok (JObj event)" using assms loads_ok by (auto simp: link_def simp del: json_ok.simps)
  moreover have "set (ddel ''event_hash'' event) \<subseteq> set event" by (auto simp: AList.delete_eq)
  ultimately have "json_ok (JObj (ddel ''event_hash'' event))" by (auto simp: list_all_iff)
  then show ?thesis using assms(2) by (auto simp: link_def line_content_def simp del: json_ok.simps)
qed

text \<open>
  Two chains from the start to the same hash: their last messages are equal, and so are the
  hashes before them and the contents, because no content ends in a content.
\<close>

lemma split_message:
  assumes "float_text_ok ft" "json_ok (JObj a)" "json_ok (JObj b)"
    and "h @ encode (canonical ft (JObj a)) = h' @ encode (canonical ft (JObj b))" "h = [] \<or> h' = [] \<or> length h = length h'"
  shows "h = h' \<and> canonical ft (JObj a) = canonical ft (JObj b)"
proof -
  have one: "u = []" if "encode s = u @ encode t" "s = canonical ft (JObj x)" "t = canonical ft (JObj y)"
    "json_ok (JObj x)" "json_ok (JObj y)" for u s t x y
  proof -
    have "decode (encode s) = decode u @ decode (encode t)" unfolding that(1) by (simp add: decode_def)
    then have "s = decode u @ t" by (simp only: decode_encode)
    then have "decode u = []" by (intro canonical_no_suffix [OF assms(1) that(4,5)]) (simp add: that(2,3))
    then show ?thesis by (simp add: decode_def)
  qed
  from assms(5) have "h = h'"
  proof (elim disjE)
    assume "h = []"
    then show ?thesis using one [OF _ HOL.refl HOL.refl assms(2,3)] assms(4) by simp
  next
    assume h': "h' = []"
    then have "encode (canonical ft (JObj b)) = h @ encode (canonical ft (JObj a))" using assms(4) by simp
    then have "h = []" by (rule one [OF _ HOL.refl HOL.refl assms(3,2)])
    then show ?thesis using h' by simp
  qed (use assms(4) in simp)
  then show ?thesis using assms(4) by simp
qed

lemma chained_commits:
  assumes len: "\<And>m. length (sha256 cr m) = 32" and ft: "float_text_ok (ftext cr)" "floats_read (ftext cr)"
  shows "chained cr [] ls q \<Longrightarrow> chained cr [] ms q \<Longrightarrow> nonblank ls \<Longrightarrow> nonblank ms \<Longrightarrow>
    inj_on (sha256 cr) (line_message cr ` (strip ` set ls \<union> strip ` set ms)) \<Longrightarrow>
    map (\<lambda>l. line_content cr (strip l)) ls = map (\<lambda>l. line_content cr (strip l)) ms"
proof (induction ls arbitrary: ms q rule: rev_induct)
  case Nil
  then show ?case using chained_length [OF _ _ _ len, of ms q] by force
next
  case (snoc l ls)
  have "length q = 32" using chained_length [OF snoc.prems(1,3) _ len] by simp
  then obtain ms' m where ms: "ms = ms' @ [m]" using snoc.prems(2) by (cases ms rule: rev_cases) auto
  obtain h ev where h: "chained cr [] ls h" "link cr h (strip l) ev q"
    using snoc.prems(1,3) by (auto simp: chained_snoc)
  obtain h' ev' where h': "chained cr [] ms' h'" "link cr h' (strip m) ev' q"
    using snoc.prems(2,4) by (auto simp: ms chained_snoc)
  have "sha256 cr (line_message cr (strip l)) = sha256 cr (line_message cr (strip m))"
    using link_message [OF h(2)] link_message [OF h'(2)] by simp
  then have "line_message cr (strip l) = line_message cr (strip m)"
    by (rule inj_onD [OF snoc.prems(5)]) (auto simp: ms)
  then have eq: "h @ encode (line_content cr (strip l)) = h' @ encode (line_content cr (strip m))"
    using link_message [OF h(2)] link_message [OF h'(2)] by simp
  have "h = [] \<or> length h = 32" "h' = [] \<or> length h' = 32"
    using h(1) h'(1) chained_length [OF _ _ _ len] snoc.prems(3,4) ms by (metis chained.simps(1) nonblank_simps(3))+
  then have "h = [] \<or> h' = [] \<or> length h = length h'" by auto
  moreover obtain a b where "line_content cr (strip l) = canonical (ftext cr) (JObj a)" "json_ok (JObj a)"
    "line_content cr (strip m) = canonical (ftext cr) (JObj b)" "json_ok (JObj b)"
    using link_content [OF ft(2) h(2)] link_content [OF ft(2) h'(2)] by blast
  ultimately have c: "h = h' \<and> line_content cr (strip l) = line_content cr (strip m)"
    using split_message [OF ft(1), of a b h h'] eq by simp
  have "inj_on (sha256 cr) (line_message cr ` (strip ` set ls \<union> strip ` set ms'))"
    using snoc.prems(5) by (rule inj_on_subset) (auto simp: ms)
  then have "map (\<lambda>l. line_content cr (strip l)) ls = map (\<lambda>l. line_content cr (strip l)) ms'"
    using snoc.IH [of h ms'] h(1) h'(1) snoc.prems(3,4) ms c by simp
  then show ?case using ms c by simp
qed

section \<open>An instance of the readers and writers\<close>

definition toy_io :: event_io where
  "toy_io = \<lparr>reason_text = (\<lambda>r. ''rejected''), line_text = default_dumps fraction_text, parse_event = (\<lambda>s. None)\<rparr>"

definition fixed_length_crypto :: crypto where
  "fixed_length_crypto = toy_crypto\<lparr>sha256 := (\<lambda>m. take 32 (m @ replicate 32 0))\<rparr>"

lemma fixed_length: "length (sha256 fixed_length_crypto m) = 32"
  by (simp add: fixed_length_crypto_def)

lemma strip_braces: "strip (CHR 0x7B # s @ [CHR 0x7D]) = CHR 0x7B # s @ [CHR 0x7D]"
  by (simp add: strip_def is_space_def)

lemma toy_io_ok: "event_io_ok fixed_length_crypto toy_io" "event_io_ok toy_crypto toy_io"
proof -
  have d: "default_dumps fraction_text (JObj kvs) =
      CHR 0x7B # join '', '' (map (member fraction_text '', '' '': '') kvs) @ [CHR 0x7D]" for kvs
    by (simp add: default_dumps_def dumps_obj del: dumps.simps)
  have "loads fraction_text (default_dumps fraction_text (JObj kvs)) = Some (JObj kvs)" if "json_ok (JObj kvs)" for kvs
    by (rule loads_default [OF float_text_ok_fraction that])
  then show "event_io_ok fixed_length_crypto toy_io" "event_io_ok toy_crypto toy_io"
    by (simp_all add: event_io_ok_def toy_io_def fixed_length_crypto_def toy_crypto_def d strip_braces del: json_ok.simps)
qed

definition sample_event :: AuditEvent where
  "sample_event =
     \<lparr>a_event_id = ''e1'', a_schema_version = ''1.0'', a_task_id = ''t1'', a_model_digest = None, a_timestamp = 1,
      a_decision = \<lparr>d_task_id = ''t1'', d_chosen_node = ''n1'', d_chosen_score = 0, d_runner_up_node = None,
        d_runner_up_score = None, d_weights_used = [], d_decision_latency_ms = 1, d_fallback_chain = [''n1''],
        d_filtered_out_nodes = [], d_used_fallback_policy = False\<rparr>,
      a_execution = \<lparr>x_task_id = ''t1'', x_node_id = ''n1'', x_node_class = EDGE, x_status = SUCCESS,
        x_execution_time_ms = 1, x_model_digest = None, x_output = None, x_error = None, x_cached = False,
        x_idempotency_key = ''k1''\<rparr>,
      a_fallback_activated = False, a_attempts = 1, a_gateway_rtt_observed_ms = Some 1,
      a_is_shadow_mode = False, a_previous_event_hash = [], a_event_hash = []\<rparr>"

lemma sample_event_ok: "event_ok sample_event"
  by (simp add: sample_event_def event_ok_def)

text \<open>A ledger with one event, on the instance whose hashes have 32 bytes.\<close>

definition sample_ledger :: TamperEvidentLedger where
  "sample_ledger = fst (ledger_step fixed_length_crypto toy_io (Append sample_event)
     (new_TamperEvidentLedger fixed_length_crypto None 10 [1] new_etcd))"

lemma fixed_length_floats: "float_text_ok (ftext fixed_length_crypto)" "floats_read (ftext fixed_length_crypto)"
  by (simp_all add: fixed_length_crypto_def toy_crypto_def float_text_ok_fraction floats_read_fraction)

lemma sample_ledger_ok: "ledger_ok fixed_length_crypto sample_ledger"
  unfolding sample_ledger_def using new_ledger_empty
  by (intro ledger_step_ok [THEN conjunct1]) (simp_all add: toy_io_ok sample_event_ok)

lemma blank_chained: "strip b = [] \<Longrightarrow> ledger_ok cr lg \<Longrightarrow> verify_ledger cr (Some (b # file_lines lg)) = Inr True"
  by (auto simp: ledger_ok_def verify_ledger_iff)

lemma blank_head: "strip b = [] \<Longrightarrow> head_of ft (b # ls) = head_of ft ls"
  by (simp add: head_of_def last_line_def)

section \<open>Properties\<close>

text \<open>
  C10: an honest ledger always verifies. Whatever events are appended to a new ledger, with
  restarts of the process in between (each generating a new signing key and recovering the
  last hash from the file), the independent verifier accepts the file.
\<close>

theorem honest_ledger_verifies:
  assumes "event_io_ok cr io" "\<forall>ev. Append ev \<in> set ops \<longrightarrow> event_ok ev"
  shows "verify_ledger cr (lg_file (fst (fold (ledger_step cr io) ops
    (new_TamperEvidentLedger cr None interval sk e)))) = Inr True"
proof -
  have "op_ok op" if "op \<in> set ops" for op using assms(2) that by (cases op) auto
  then have "list_all op_ok ops" by (simp add: list_all_iff)
  then show ?thesis using ledger_run_ok [OF assms(1)] new_ledger_empty ledger_okD file_Some_lines by metis
qed

theorem honest_ledger_verifies_witness:
  "verify_ledger toy_crypto (lg_file (fst (fold (ledger_step toy_crypto toy_io)
     [Append sample_event, Restart [2], Append sample_event]
     (new_TamperEvidentLedger toy_crypto None 10 [1] new_etcd)))) = Inr True"
  by (rule honest_ledger_verifies) (auto simp: toy_io_ok sample_event_ok)

text \<open>
  The verifier accepts exactly the unbroken chains. A file is accepted when every line
  that is not blank is a JSON object that states the previous line's hash (nothing, for the
  first) and its own recomputed hash, and is reported or raises otherwise; a missing file is
  never accepted.
\<close>

lemma verifier_exact:
  "(verify_ledger cr (Some ls) = Inr True \<longleftrightarrow> (\<exists>q. chained cr [] ls q)) \<and> verify_ledger cr None = Inr False"
  by (simp only: verify_ledger_iff) (simp add: verify_ledger_def)

text \<open>
  C9: tampering is evident from the head. Two accepted files with the same hash in the last
  line hold the same events, field by field and as many of them (nothing changed, inserted,
  removed or reordered), unless two of the messages hashed for their lines collide under
  SHA-256. That the file a reader holds is the one the head belongs to is the reader's to
  know: the verifier compares the head with nothing (\<open>truncation_accepted\<close>).
\<close>

theorem tampering_evident:
  assumes "verify_ledger cr (Some ls) = Inr True" "verify_ledger cr (Some ms) = Inr True"
    and "float_text_ok (ftext cr)" "floats_read (ftext cr)"
    and "head_of (ftext cr) ls = Some h" "head_of (ftext cr) ms = Some h"
    and "\<forall>m. length (sha256 cr m) = 32"
    and "inj_on (sha256 cr) (line_message cr ` (set (stripped ls) \<union> set (stripped ms)))"
  shows "map (line_content cr) (stripped ls) = map (line_content cr) (stripped ms)"
proof -
  have q: "chained cr [] (stripped ks) h"
    if v: "verify_ledger cr (Some ks) = Inr True" and h: "head_of (ftext cr) ks = Some h" for ks
  proof -
    obtain q where c: "chained cr [] (stripped ks) q" using v verify_ledger_iff chained_stripped by metis
    show ?thesis
    proof (cases "stripped ks" rule: rev_cases)
      case Nil
      then show ?thesis using c h by (simp add: head_of_def last_line_def stripped_def)
    next
      case (snoc ps l)
      then have l: "strip l = l" "l \<noteq> []" using nonblank_stripped [of ks] by auto
      then obtain g event where g: "link cr g l event q" using c snoc by (auto simp: chained_snoc)
      have "length q = 32" using link_message [OF g] assms(7) by simp
      then have "q \<noteq> []" by auto
      then have "map_of event ''event_hash'' \<noteq> None" using g hex_absent [of event "''event_hash''"] unfolding link_def by (metis sum.inject(2))
      moreover have "last_line ks = Some l" using snoc by (simp add: last_line_def stripped_def)
      ultimately show ?thesis using link_read_hash [OF g] h c by (simp add: head_of_def)
    qed
  qed
  have s: "strip ` set (stripped ks) = set (stripped ks)" for ks
    using nonblank_stripped(2) [of ks] by (metis list.set_map)
  have "map (\<lambda>l. line_content cr (strip l)) (stripped ls) = map (\<lambda>l. line_content cr (strip l)) (stripped ms)"
    using q [OF assms(1,5)] q [OF assms(2,6)] assms(3,4,7,8) nonblank_stripped(1) s
    by (intro chained_commits [of cr _ h]) simp_all
  then have "map (line_content cr) (map strip (stripped ls)) = map (line_content cr) (map strip (stripped ms))"
    by (simp add: comp_def)
  then show ?thesis unfolding nonblank_stripped(2) .
qed

theorem tampering_evident_witness:
  "map (line_content fixed_length_crypto) (stripped ('' '' # file_lines sample_ledger)) =
   map (line_content fixed_length_crypto) (stripped (file_lines sample_ledger))"
proof -
  have b: "strip '' '' = []" by code_simp
  have "set (stripped (file_lines sample_ledger)) =
      {strip (stamped_line fixed_length_crypto toy_io [] sample_event)} - {[]}"
    by (auto simp: sample_ledger_def file_lines_def append_event_file new_TamperEvidentLedger_def recover_state_def
        split: if_splits)
  then have "inj_on (sha256 fixed_length_crypto) (line_message fixed_length_crypto `
      (set (stripped ('' '' # file_lines sample_ledger)) \<union> set (stripped (file_lines sample_ledger))))"
    using b by (auto simp: inj_on_def)
  then show ?thesis
    using sample_ledger_ok b
    by (intro tampering_evident [of _ _ _ "lg_last_hash sample_ledger"])
      (simp_all add: blank_chained ledger_okD blank_head ledger_ok_def fixed_length fixed_length_floats)
qed

text \<open>
  Cutting the end off is not detected. Every prefix of an accepted file is accepted: the
  verifier compares the head with nothing, and the signed checkpoints are not read.
\<close>

lemma truncation_accepted:
  assumes "verify_ledger cr (Some ls) = Inr True"
  shows "verify_ledger cr (Some (take k ls)) = Inr True"
proof -
  obtain q where "chained cr [] (take k ls @ drop k ls) q" using assms verify_ledger_iff by fastforce
  then show ?thesis unfolding chained_append verify_ledger_iff by blast
qed

text \<open>
  An append is signed or pending. With a positive interval, fewer events than the interval
  are ever outside a checkpoint; and the append that completes an interval stores a checkpoint
  whose root covers all pending hashes and whose signature verifies under the ledger's public
  key.
\<close>

lemma checkpoints_cover:
  assumes "0 < interval" "signing_ok cr" "float_text_ok (ftext cr)"
    and "fold (ledger_step cr io) ops (new_TamperEvidentLedger cr None interval sk e) = (lg, e1)"
    and "append_event cr io ev (lg, e1) = (ev', lg', e2)"
  shows "int (length (lg_merkle_leaves lg)) < interval \<and>
    (int (length (lg_merkle_leaves lg)) + 1 = interval \<longrightarrow>
      (let leaves = lg_merkle_leaves lg @ [lg_last_hash lg'];
           root = merkle_root cr leaves;
           sig = ed_sign cr (lg_signing_key lg) root
       in lg_merkle_leaves lg' = [] \<and>
          ed_verify cr (ed_pem cr (lg_signing_key lg)) sig root = Inr () \<and>
          etcd_get (key_checkpoint (''ckpt_'' @ show_int (leaf_number (lg_last_hash lg')))) e2 =
            Some (default_dumps (ftext cr) (JObj [(''root'', JStr (hex root)), (''signature'', JStr (hex sig)),
              (''event_count'', JInt interval)]))))"
proof -
  have i: "lg_checkpoint_interval (fst (fold (ledger_step cr io) ops s)) = lg_checkpoint_interval (fst s)" for s
  proof (induction ops arbitrary: s)
    case (Cons op ops)
    have "lg_checkpoint_interval (fst (ledger_step cr io op s)) = lg_checkpoint_interval (fst s)"
      by (cases op; cases s) (auto simp: append_event_def Let_def new_TamperEvidentLedger_def recover_state_def
          split: option.splits)
    then show ?case using Cons.IH by simp
  qed simp
  have "lg_checkpoint_interval lg = interval"
    using i [of "new_TamperEvidentLedger cr None interval sk e"] assms(4)
    by (simp add: new_TamperEvidentLedger_def recover_state_def)
  moreover have "checkpoint_inv lg"
    using checkpoint_inv_run [OF checkpoint_inv_new, of cr io ops cr None interval sk e] assms(4) by simp
  ultimately have inv: "lg_events_since_checkpoint lg = int (length (lg_merkle_leaves lg))"
      "int (length (lg_merkle_leaves lg)) < interval" "lg_checkpoint_interval lg = interval"
    using assms(1) by (auto simp: checkpoint_inv_def)
  then show ?thesis using assms(2,5)
    by (auto simp: append_event_def create_checkpoint_def Let_def signing_ok_def etcd_get_def etcd_put_def add.commute)
qed

end
