(* ===== verification/ControlPlane.thy ===== *)
theory ControlPlane
  imports Scheduler Ledger
begin

text \<open>
  The control plane's gRPC services (\<open>gateway/grpc_server.py\<close>), the node's telemetry client
  (\<open>node_agent/grpc_client.py\<close>) and the Redis telemetry store (\<open>telemetry/redis_store.py\<close>).

  A stream of telemetry is the list of what its iterator yields: an envelope with the clock
  reading of the replay check and the authoritative state at that moment, or the exception
  the iterator raises. The thread of the client is in \<open>TelemetryClient\<close>.
\<close>

section \<open>Messages\<close>

record NodeRegistrationRequest =
  rq_node_id :: str
  rq_node_class :: str
  rq_supported_models :: "str list"
  rq_data_residency_zones :: "str list"
  rq_hardware_specs_json :: str
  rq_public_signing_key :: str

record NodeRegistrationResponse =
  rp_status :: str
  rp_message :: str

record SignedTelemetryEnvelope =
  ve_node_id :: str
  ve_schema_version :: str
  ve_timestamp :: pyfloat
  ve_expires_at :: pyfloat
  ve_sequence_number :: int
  ve_nonce :: str
  ve_payload_json :: bytes
  ve_previous_message_hash :: bytes
  ve_signature_algorithm :: str
  ve_key_id :: str
  ve_signature :: bytes
  ve_pq_signature_algorithm :: str
  ve_pq_signature :: bytes

section \<open>Registration\<close>

definition key_member :: "str \<Rightarrow> str" where
  "key_member node_id = ''/distributed-ai/members/'' @ node_id @ ''/identity''"

definition authenticate_node :: "auth_context \<Rightarrow> bool" where
  "authenticate_node ctx \<longleftrightarrow>
     (let spiffe_id = extract_spiffe_id ctx in
      truthy spiffe_id \<and> startswith (the spiffe_id) ''spiffe://distributed-ai.local/node/'')"

definition RegisterNode ::
    "auth_context \<Rightarrow> NodeRegistrationRequest \<Rightarrow> TaskScheduler \<times> etcd \<Rightarrow> NodeRegistrationResponse \<times> TaskScheduler \<times> etcd" where
  "RegisterNode ctx request = (\<lambda>(s, e).
     if \<not> authorize_node (extract_spiffe_id ctx) (rq_node_id request) then
       (\<lparr>rp_status = ''rejected'', rp_message = ''Invalid authentication identity.''\<rparr>, s, e)
     else if rq_public_signing_key request = [] then
       (\<lparr>rp_status = ''rejected'', rp_message = ''Missing public signing key.''\<rparr>, s, e)
     else
       (\<lparr>rp_status = ''success'', rp_message = ''Node registered successfully.''\<rparr>,
        register_worker (rq_node_id request) (rq_node_id request @ '':50051'') s,
        etcd_put (key_member (rq_node_id request)) (rq_public_signing_key request) e))"

section \<open>Telemetry\<close>

record telemetry_service =
  ts_store :: TelemetryStore
  ts_replay :: replay_state

text \<open>
  The fields of a snapshot, with pydantic's checks: an integral float is an integer; the
  conversions of numeric strings and of booleans are not modelled (the client sends numbers).
\<close>

definition as_health :: "json \<Rightarrow> exc + HealthStatus" where
  "as_health j = (case j of
     JStr s \<Rightarrow> (case health_of s of Some h \<Rightarrow> Inr h | None \<Rightarrow> Inl (py_exc ValueErrorClass s))
   | _ \<Rightarrow> Inl (py_exc ValueErrorClass []))"

definition as_int :: "json \<Rightarrow> exc + int" where
  "as_int j = (case j of
     JInt i \<Rightarrow> Inr i
   | JFloat x \<Rightarrow> if of_int \<lfloor>x\<rfloor> = x then Inr \<lfloor>x\<rfloor> else Inl (py_exc ValidationErrorClass [])
   | _ \<Rightarrow> Inl (py_exc ValidationErrorClass []))"

definition as_str_list :: "json \<Rightarrow> exc + str list" where
  "as_str_list j = (case j of JArr js \<Rightarrow> rmap as_str js | _ \<Rightarrow> Inl (py_exc ValidationErrorClass []))"

definition telemetry_snapshot :: "SignedTelemetryEnvelope \<Rightarrow> jobj \<Rightarrow> exc + NodeTelemetrySnapshot" where
  "telemetry_snapshot env payload =
     rbind (as_node_class (get_or payload ''node_class'' (JStr ''edge''))) (\<lambda>node_class.
     rbind (as_health (get_or payload ''health'' (JStr ''healthy''))) (\<lambda>health.
     rbind (as_float (get_or payload ''timestamp'' (JFloat (ve_timestamp env)))) (\<lambda>timestamp.
     rbind (as_float (get_or payload ''rtt_ms'' (JFloat 0))) (\<lambda>rtt_ms.
     rbind (as_float (get_or payload ''bandwidth_available_mbps'' (JFloat 0))) (\<lambda>bandwidth.
     rbind (as_float (get_or payload ''cpu_util_pct'' (JFloat 0))) (\<lambda>cpu.
     rbind (as_float (get_or payload ''gpu_util_pct'' (JFloat 0))) (\<lambda>gpu.
     rbind (as_int (get_or payload ''queue_depth'' (JInt 0))) (\<lambda>queue_depth.
     rbind (as_float (get_or payload ''cost_per_1k_inferences_usd'' (JFloat 0))) (\<lambda>cost.
     rbind (as_str_list (get_or payload ''data_residency_zones'' (JArr []))) (\<lambda>zones.
       mk_NodeTelemetrySnapshot
         \<lparr>s_node_id = ve_node_id env, s_node_class = node_class, s_timestamp = timestamp,
          s_rtt_ms = rtt_ms, s_bandwidth_available_mbps = bandwidth, s_cpu_util_pct = cpu,
          s_gpu_util_pct = gpu, s_queue_depth = queue_depth, s_cost_per_1k_inferences_usd = cost,
          s_health = health, s_last_heartbeat_age_ms = 0, s_data_residency_zones = zones,
          s_gateway_observed_rtt_ms = None, s_assurance_level = STANDARD\<rparr>))))))))))"

text \<open>
  The body of the loop: \<open>Inr True\<close> a snapshot was recorded, \<open>Inr False\<close> one of the
  \<open>continue\<close> branches, \<open>Inl\<close> an exception that ends the stream.
\<close>

definition stream_message ::
    "crypto \<Rightarrow> pyfloat \<Rightarrow> etcd \<Rightarrow> SignedTelemetryEnvelope \<Rightarrow> telemetry_service \<Rightarrow> (exc + bool) \<times> telemetry_service" where
  "stream_message cr now e env ts =
     (let node_id = ve_node_id env; pubkey_pem = etcd_get (key_member node_id) e in
      if \<not> truthy pubkey_pem then (Inr False, ts)
      else (case ed_load cr (the pubkey_pem) of
        Inl ex \<Rightarrow> (Inl ex, ts)
      | Inr _ \<Rightarrow>
          (case validate_and_record node_id (ve_sequence_number env) (ve_nonce env) (ve_timestamp env)
                  (ve_expires_at env) now (ts_replay ts) of
             (False, rs) \<Rightarrow> (Inr False, ts\<lparr>ts_replay := rs\<rparr>)
           | (True, rs) \<Rightarrow>
               (let ts1 = ts\<lparr>ts_replay := rs\<rparr> in
                case ed_verify cr (the pubkey_pem) (ve_signature env) (ve_payload_json env) of
                  Inl ex \<Rightarrow> (if exc_class ex = InvalidSignatureClass then (Inr False, ts1) else (Inl ex, ts1))
                | Inr _ \<Rightarrow>
                    (case loads (ftext cr) (decode (ve_payload_json env)) of
                       None \<Rightarrow> (Inl (py_exc JSONDecodeErrorClass []), ts1)
                     | Some (JObj payload) \<Rightarrow>
                         (case telemetry_snapshot env payload of
                            Inl ex \<Rightarrow> (Inl ex, ts1)
                          | Inr snapshot \<Rightarrow> (Inr True, ts1\<lparr>ts_store := record_snapshot snapshot (ts_store ts1)\<rparr>))
                     | Some _ \<Rightarrow> (Inl (py_exc AttributeErrorClass ''get''), ts1))))))"

type_synonym stream_item = "exc + (pyfloat \<times> etcd \<times> SignedTelemetryEnvelope)"

fun stream_loop :: "crypto \<Rightarrow> stream_item list \<Rightarrow> telemetry_service \<Rightarrow> (exc + unit) \<times> telemetry_service" where
  "stream_loop cr [] ts = (Inr (), ts)"
| "stream_loop cr (Inl ex # items) ts = (Inl ex, ts)"
| "stream_loop cr (Inr (now, e, env) # items) ts =
     (case stream_message cr now e env ts of
        (Inl ex, ts1) \<Rightarrow> (Inl ex, ts1)
      | (Inr _, ts1) \<Rightarrow> stream_loop cr items ts1)"

definition StreamTelemetry ::
    "crypto \<Rightarrow> auth_context \<Rightarrow> stream_item list \<Rightarrow> telemetry_service \<Rightarrow> (rpc_status + str) \<times> telemetry_service" where
  "StreamTelemetry cr ctx items ts =
     (if \<not> authenticate_node ctx then (Inl UNAUTHENTICATED, ts)
      else (case stream_loop cr items ts of
        (Inr _, ts1) \<Rightarrow> (Inr ''success'', ts1)
      | (Inl ex, ts1) \<Rightarrow> (Inr (if exc_class ex = RpcErrorClass then ''disconnected'' else ''error''), ts1)))"

section \<open>The node's telemetry client\<close>

record TelemetryStreamer =
  st_node :: SimulatedNode
  st_sequence_number :: int
  st_previous_hash :: bytes
  st_signing_key :: bytes
  st_public_key_pem :: str
  st_dual_required :: bool

definition new_TelemetryStreamer :: "platform \<Rightarrow> SimulatedNode \<Rightarrow> TelemetryStreamer" where
  "new_TelemetryStreamer pl node =
     \<lparr>st_node = node, st_sequence_number = 0, st_previous_hash = [], st_signing_key = n_signing_key node,
      st_public_key_pem = n_public_key_pem node, st_dual_required = pl_dual pl\<rparr>"

definition telemetry_payload :: "NodeTelemetrySnapshot \<Rightarrow> jobj" where
  "telemetry_payload snapshot =
     [(''node_class'', JStr (node_class_value (s_node_class snapshot))),
      (''timestamp'', JFloat (s_timestamp snapshot)),
      (''rtt_ms'', JFloat (s_rtt_ms snapshot)),
      (''bandwidth_available_mbps'', JFloat (s_bandwidth_available_mbps snapshot)),
      (''cpu_util_pct'', JFloat (s_cpu_util_pct snapshot)),
      (''gpu_util_pct'', JFloat (s_gpu_util_pct snapshot)),
      (''queue_depth'', JInt (s_queue_depth snapshot)),
      (''cost_per_1k_inferences_usd'', JFloat (s_cost_per_1k_inferences_usd snapshot)),
      (''health'', JStr (health_value (s_health snapshot))),
      (''data_residency_zones'', JArr (map JStr (s_data_residency_zones snapshot)))]"

definition sign_telemetry ::
    "platform \<Rightarrow> str \<Rightarrow> pyfloat \<Rightarrow> NodeTelemetrySnapshot \<Rightarrow> TelemetryStreamer \<Rightarrow> SignedTelemetryEnvelope \<times> TelemetryStreamer" where
  "sign_telemetry pl nonce now snapshot st =
     (let cr = pl_crypto pl;
          seq = st_sequence_number st + 1;
          payload_json = encode (canonical (ftext cr) (JObj (telemetry_payload snapshot)));
          current_hash = sha256 cr (encode ''DISTRIBUTED_AI_TELEMETRY_V1'' @ st_previous_hash st @ payload_json @
            encode (show_int seq) @ encode nonce);
          pq = st_dual_required st \<and> n_pq_key (st_node st) \<noteq> None;
          pq_alg = PQC_SIGNATURE (load_PqcConfig (pl_environ pl))
      in (\<lparr>ve_node_id = n_node_id (st_node st), ve_schema_version = ''1.0'', ve_timestamp = now,
           ve_expires_at = fadd now 10, ve_sequence_number = seq, ve_nonce = nonce,
           ve_payload_json = payload_json, ve_previous_message_hash = current_hash,
           ve_signature_algorithm = ''Ed25519'',
           ve_key_id = ''node-'' @ n_node_id (st_node st) @ ''-key-1'',
           ve_signature = ed_sign cr (st_signing_key st) payload_json,
           ve_pq_signature_algorithm = (if pq then pq_alg else []),
           ve_pq_signature = (if pq then pq_sign cr pq_alg (the (n_pq_key (st_node st))) payload_json else [])\<rparr>,
          st\<lparr>st_sequence_number := seq, st_previous_hash := current_hash\<rparr>))"

definition registration_request :: "TelemetryStreamer \<Rightarrow> NodeRegistrationRequest" where
  "registration_request st =
     \<lparr>rq_node_id = n_node_id (st_node st), rq_node_class = node_class_value (n_node_class (st_node st)),
      rq_supported_models = [''vision-classifier-v3''],
      rq_data_residency_zones = n_data_residency_zones (st_node st),
      rq_hardware_specs_json = ''{}'', rq_public_signing_key = st_public_key_pem st\<rparr>"

section \<open>The Redis store\<close>

text \<open>
  The hash of the store is a map of the Redis server. \<open>rd_hgetall\<close> is the listing \<open>HGETALL\<close>
  returns, in an order Redis does not specify; \<open>rd_dump\<close> and \<open>rd_parse\<close> are pydantic's
  writer and reader. Their laws are \<open>redis_laws\<close>.
\<close>

record redis_io =
  rd_hgetall :: "(str \<rightharpoonup> str) \<Rightarrow> (str \<times> str) list"
  rd_dump :: "NodeTelemetrySnapshot \<Rightarrow> str"
  rd_parse :: "str \<Rightarrow> NodeTelemetrySnapshot option"

record RedisTelemetryStore =
  rs_hash :: "str \<rightharpoonup> str"
  rs_staleness_threshold_ms :: pyfloat

definition new_RedisTelemetryStore :: "(str \<rightharpoonup> str) \<Rightarrow> pyfloat \<Rightarrow> RedisTelemetryStore" where
  "new_RedisTelemetryStore h threshold = \<lparr>rs_hash = h, rs_staleness_threshold_ms = threshold\<rparr>"

definition set_redis_staleness_threshold_ms :: "pyfloat \<Rightarrow> RedisTelemetryStore \<Rightarrow> RedisTelemetryStore" where
  "set_redis_staleness_threshold_ms value_ms r = r\<lparr>rs_staleness_threshold_ms := value_ms\<rparr>"

definition redis_record :: "redis_io \<Rightarrow> NodeTelemetrySnapshot \<Rightarrow> RedisTelemetryStore \<Rightarrow> RedisTelemetryStore" where
  "redis_record io snapshot r = r\<lparr>rs_hash := (rs_hash r)(s_node_id snapshot \<mapsto> rd_dump io snapshot)\<rparr>"

definition parse_snapshot :: "redis_io \<Rightarrow> str \<Rightarrow> exc + NodeTelemetrySnapshot" where
  "parse_snapshot io data =
     (case rd_parse io data of None \<Rightarrow> Inl (py_exc ValidationErrorClass []) | Some s \<Rightarrow> Inr s)"

definition redis_get :: "redis_io \<Rightarrow> str \<Rightarrow> RedisTelemetryStore \<Rightarrow> exc + NodeTelemetrySnapshot option" where
  "redis_get io node_id r =
     (let data = rs_hash r node_id in
      if truthy data then rbind (parse_snapshot io (the data)) (\<lambda>s. Inr (Some s)) else Inr None)"

definition redis_get_all :: "redis_io \<Rightarrow> RedisTelemetryStore \<Rightarrow> exc + NodeTelemetrySnapshot list" where
  "redis_get_all io r = rmap (parse_snapshot io) (map snd (rd_hgetall io (rs_hash r)))"

text \<open>The pipeline's writes are applied in order.\<close>

definition redis_update_heartbeat_age :: "redis_io \<Rightarrow> pyfloat \<Rightarrow> RedisTelemetryStore \<Rightarrow> exc + RedisTelemetryStore" where
  "redis_update_heartbeat_age io now r =
     rbind (redis_get_all io r) (\<lambda>snaps. Inr (fold (\<lambda>snap. redis_record io (aged now snap)) snaps r))"

definition redis_clear :: "RedisTelemetryStore \<Rightarrow> RedisTelemetryStore" where
  "redis_clear r = r\<lparr>rs_hash := Map.empty\<rparr>"

section \<open>Registration: identities belong to their nodes\<close>

lemma key_member_inj [simp]: "key_member m = key_member n \<longleftrightarrow> m = n"
  by (simp add: key_member_def)

lemma get_stub_register:
  "target \<noteq> [] \<Longrightarrow> get_stub n (register_worker m target s) =
     (if n = m then Inr (target, (register_worker m target s)\<lparr>sc_channels :=
        dset n target (sc_channels (register_worker m target s))\<rparr>)
      else get_stub n (register_worker m target s))"
  by (auto simp: get_stub_def register_worker_def Let_def)

section \<open>What a stream does to the store\<close>

lemma stream_message_store:
  assumes "stream_message cr now e env ts = (r, ts')"
  shows "ts_store ts' = ts_store ts \<or>
    (\<exists>pem payload s. etcd_get (key_member (ve_node_id env)) e = Some pem \<and>
       ed_verify cr pem (ve_signature env) (ve_payload_json env) = Inr () \<and>
       loads (ftext cr) (decode (ve_payload_json env)) = Some (JObj payload) \<and>
       telemetry_snapshot env payload = Inr s \<and> now \<le> ve_expires_at env \<and>
       highest_seq (ts_replay ts) (ve_node_id env) < ve_sequence_number env \<and>
       ts_store ts' = record_snapshot s (ts_store ts))"
  using assms validate_TrueD(1,3)
  by (fastforce simp: stream_message_def Let_def split: if_splits sum.splits prod.splits bool.splits
      option.splits json.splits elim!: truthyE)

definition recorded_from :: "crypto \<Rightarrow> stream_item list \<Rightarrow> NodeTelemetrySnapshot \<Rightarrow> bool" where
  "recorded_from cr items s \<longleftrightarrow> (\<exists>now e env pem payload. Inr (now, e, env) \<in> set items \<and>
     etcd_get (key_member (ve_node_id env)) e = Some pem \<and>
     ed_verify cr pem (ve_signature env) (ve_payload_json env) = Inr () \<and>
     loads (ftext cr) (decode (ve_payload_json env)) = Some (JObj payload) \<and>
     telemetry_snapshot env payload = Inr s \<and> now \<le> ve_expires_at env)"

lemma telemetry_snapshot_fixed:
  "telemetry_snapshot env payload = Inr s \<Longrightarrow> s_node_id s = ve_node_id env \<and>
     s_last_heartbeat_age_ms s = 0 \<and> s_gateway_observed_rtt_ms s = None \<and> s_assurance_level s = STANDARD \<and>
     valid_NodeTelemetrySnapshot s"
  by (auto simp: telemetry_snapshot_def rbind_Inr_iff mk_NodeTelemetrySnapshot_def split: if_splits)

lemma get_all_record:
  assumes "store_ok st" "x \<in> set (get_all_snapshots (record_snapshot s st))"
  shows "x = s \<or> x \<in> set (get_all_snapshots st)"
proof -
  have "get_snapshot (s_node_id x) (record_snapshot s st) = Some x"
    using mem.all_iff [OF mem.inv_record [OF assms(1)]] assms(2) by blast
  then have "(if s_node_id x = s_node_id s then Some s else get_snapshot (s_node_id x) st) = Some x"
    by (simp only: mem.lookup_record [OF assms(1)])
  then show ?thesis unfolding mem.all_iff [OF assms(1)] by (cases "s_node_id x = s_node_id s") simp_all
qed

lemma stream_message_snapshots:
  assumes "stream_message cr now e env ts = (r, ts')" "store_ok (ts_store ts)"
  shows "store_ok (ts_store ts') \<and>
    (\<forall>s\<in>set (get_all_snapshots (ts_store ts')). s \<in> set (get_all_snapshots (ts_store ts)) \<or>
       recorded_from cr [Inr (now, e, env)] s)"
  using stream_message_store [OF assms(1)]
proof (elim disjE exE conjE)
  fix pem payload s
  assume r: "etcd_get (key_member (ve_node_id env)) e = Some pem"
    "ed_verify cr pem (ve_signature env) (ve_payload_json env) = Inr ()"
    "loads (ftext cr) (decode (ve_payload_json env)) = Some (JObj payload)"
    "telemetry_snapshot env payload = Inr s" "now \<le> ve_expires_at env"
    and st: "ts_store ts' = record_snapshot s (ts_store ts)"
  have "recorded_from cr [Inr (now, e, env)] s" using r by (auto simp: recorded_from_def)
  then show ?thesis using get_all_record [OF assms(2)] assms(2) by (auto simp: st)
qed (use assms(2) in simp)

lemma recorded_from_mono: "recorded_from cr xs s \<Longrightarrow> set xs \<subseteq> set ys \<Longrightarrow> recorded_from cr ys s"
  unfolding recorded_from_def by blast

lemma stream_loop_snapshots:
  assumes "store_ok (ts_store ts)"
  shows "store_ok (ts_store (snd (stream_loop cr items ts))) \<and>
    (\<forall>s\<in>set (get_all_snapshots (ts_store (snd (stream_loop cr items ts)))).
       s \<in> set (get_all_snapshots (ts_store ts)) \<or> recorded_from cr items s)"
  using assms
proof (induction cr items ts rule: stream_loop.induct)
  case (3 cr now e env items ts)
  obtain r ts1 where m: "stream_message cr now e env ts = (r, ts1)" by fastforce
  note one = stream_message_snapshots [OF m 3(2)]
  have mono: "recorded_from cr [Inr (now, e, env)] s \<Longrightarrow> recorded_from cr (Inr (now, e, env) # items) s"
    "recorded_from cr items s \<Longrightarrow> recorded_from cr (Inr (now, e, env) # items) s" for s
    by (auto elim: recorded_from_mono)
  show ?case
  proof (cases r)
    case (Inl ex)
    then show ?thesis using one mono by (auto simp: m)
  next
    case (Inr b)
    then show ?thesis using one mono 3(1) [OF m [symmetric] Inr] by (auto simp: m)
  qed
qed simp_all

lemma StreamTelemetry_snapshots:
  assumes "store_ok (ts_store ts)" "s \<in> set (get_all_snapshots (ts_store (snd (StreamTelemetry cr ctx items ts))))"
  shows "s \<in> set (get_all_snapshots (ts_store ts)) \<or> authenticate_node ctx \<and> recorded_from cr items s"
  using stream_loop_snapshots [OF assms(1), of cr items] assms(2)
  by (cases "stream_loop cr items ts") (auto simp: StreamTelemetry_def split: sum.splits if_splits)

text \<open>The type of the store: one entry per node, each satisfying the field constraints.\<close>

definition store_typed :: "TelemetryStore \<Rightarrow> bool" where
  "store_typed st \<longleftrightarrow> store_ok st \<and> (\<forall>s\<in>set (get_all_snapshots st). valid_NodeTelemetrySnapshot s)"

lemma aged_valid: "valid_NodeTelemetrySnapshot s \<Longrightarrow> valid_NodeTelemetrySnapshot (aged now s)"
  by (simp add: aged_def valid_NodeTelemetrySnapshot_def Let_def)

lemma store_typed_record: "store_typed st \<Longrightarrow> valid_NodeTelemetrySnapshot s \<Longrightarrow> store_typed (record_snapshot s st)"
  using get_all_record by (auto simp: store_typed_def)

lemma store_typed_aged: "store_typed st \<Longrightarrow> store_typed (update_heartbeat_age now st)"
  by (auto simp: store_typed_def aged_valid update_heartbeat_age_def get_all_snapshots_def dvalues_def
      intro: store_ok_aged [unfolded update_heartbeat_age_def])

lemma store_typed_stream: "store_typed (ts_store ts) \<Longrightarrow> store_typed (ts_store (snd (stream_loop cr items ts)))"
  using stream_loop_snapshots [of ts cr items] telemetry_snapshot_fixed
  unfolding store_typed_def recorded_from_def by blast

section \<open>Signed telemetry is read back\<close>

definition snapshot_floats :: "NodeTelemetrySnapshot \<Rightarrow> bool" where
  "snapshot_floats s \<longleftrightarrow> is_float (s_timestamp s) \<and> is_float (s_rtt_ms s) \<and>
     is_float (s_bandwidth_available_mbps s) \<and> is_float (s_cpu_util_pct s) \<and> is_float (s_gpu_util_pct s) \<and>
     is_float (s_cost_per_1k_inferences_usd s) \<and> is_float (s_last_heartbeat_age_ms s) \<and>
     pred_option is_float (s_gateway_observed_rtt_ms s)"

lemma payload_ok: "snapshot_floats s \<Longrightarrow> json_ok (JObj (telemetry_payload s))"
  by (simp add: snapshot_floats_def telemetry_payload_def list_all_iff)

lemma rmap_as_str [simp]: "rmap as_str (map JStr xs) = Inr xs"
  by (induction xs) (simp_all add: as_str_def)

text \<open>The snapshot the gateway builds: the fields that are not sent take fixed values.\<close>

definition as_received :: "NodeTelemetrySnapshot \<Rightarrow> NodeTelemetrySnapshot" where
  "as_received s = s\<lparr>s_last_heartbeat_age_ms := 0, s_gateway_observed_rtt_ms := None, s_assurance_level := STANDARD\<rparr>"

lemma telemetry_snapshot_sorted:
  assumes "sorted_json (JObj (telemetry_payload s)) = JObj payload" "ve_node_id env = s_node_id s"
    and "valid_NodeTelemetrySnapshot s"
  shows "telemetry_snapshot env payload = Inr (as_received s)"
proof -
  have d: "is_dict (telemetry_payload s)" by (simp add: telemetry_payload_def)
  have g: "get_or payload k j = (case map_of (telemetry_payload s) k of None \<Rightarrow> j | Some v \<Rightarrow> sorted_json v)" for k j
    using map_of_sorted [OF d assms(1)] by (simp add: get_or_def split: option.splits)
  have v: "valid_NodeTelemetrySnapshot
      \<lparr>s_node_id = ve_node_id env, s_node_class = s_node_class s, s_timestamp = s_timestamp s,
       s_rtt_ms = s_rtt_ms s, s_bandwidth_available_mbps = s_bandwidth_available_mbps s,
       s_cpu_util_pct = s_cpu_util_pct s, s_gpu_util_pct = s_gpu_util_pct s,
       s_queue_depth = s_queue_depth s, s_cost_per_1k_inferences_usd = s_cost_per_1k_inferences_usd s,
       s_health = s_health s, s_last_heartbeat_age_ms = 0,
       s_data_residency_zones = s_data_residency_zones s, s_gateway_observed_rtt_ms = None,
       s_assurance_level = STANDARD\<rparr>"
    using assms(3) by (simp add: valid_NodeTelemetrySnapshot_def)
  have j: "sorted_json (JArr (map JStr xs)) = JArr (map JStr xs)" for xs by simp
  show ?thesis
    using v assms(2)
    by (simp add: telemetry_snapshot_def g telemetry_payload_def as_node_class_def as_health_def as_float_def
        as_int_def as_str_list_def j mk_NodeTelemetrySnapshot_def as_received_def comp_def del: sorted_json.simps(1))
qed

section \<open>The two stores agree\<close>

text \<open>What the control plane does with a store, on the memory store and on the Redis store.\<close>

datatype store_op = Record NodeTelemetrySnapshot | Age pyfloat | Clear

fun mem_step :: "store_op \<Rightarrow> TelemetryStore \<Rightarrow> TelemetryStore" where
  "mem_step (Record s) st = record_snapshot s st"
| "mem_step (Age now) st = update_heartbeat_age now st"
| "mem_step Clear st = clear_store st"

fun redis_step :: "redis_io \<Rightarrow> store_op \<Rightarrow> RedisTelemetryStore \<Rightarrow> exc + RedisTelemetryStore" where
  "redis_step io (Record s) r = Inr (redis_record io s r)"
| "redis_step io (Age now) r = redis_update_heartbeat_age io now r"
| "redis_step io Clear r = Inr (redis_clear r)"

fun redis_run :: "redis_io \<Rightarrow> store_op list \<Rightarrow> RedisTelemetryStore \<Rightarrow> exc + RedisTelemetryStore" where
  "redis_run io [] r = Inr r"
| "redis_run io (op # ops) r = rbind (redis_step io op r) (redis_run io ops)"

fun store_op_ok :: "store_op \<Rightarrow> bool" where
  "store_op_ok (Record s) = (valid_NodeTelemetrySnapshot s \<and> snapshot_floats s)"
| "store_op_ok op = True"

text \<open>The refinement relation: the hash holds the text of exactly the snapshots of the memory store.\<close>

definition good_snapshots :: "TelemetryStore \<Rightarrow> bool" where
  "good_snapshots st \<longleftrightarrow> (\<forall>s\<in>set (get_all_snapshots st). valid_NodeTelemetrySnapshot s \<and> snapshot_floats s)"

definition refines :: "redis_io \<Rightarrow> RedisTelemetryStore \<Rightarrow> TelemetryStore \<Rightarrow> bool" where
  "refines io r st \<longleftrightarrow> store_ok st \<and> good_snapshots st \<and>
     rs_hash r = map_option (rd_dump io) \<circ> map_of (snapshots st)"

definition redis_laws :: "redis_io \<Rightarrow> bool" where
  "redis_laws io \<longleftrightarrow> (\<forall>s. valid_NodeTelemetrySnapshot s \<and> snapshot_floats s \<longrightarrow>
       rd_dump io s \<noteq> [] \<and> rd_parse io (rd_dump io s) = Some s) \<and>
     (\<forall>m. finite (dom m) \<longrightarrow> is_dict (rd_hgetall io m) \<and> map_of (rd_hgetall io m) = m)"

lemma aged_good: "valid_NodeTelemetrySnapshot s \<Longrightarrow> snapshot_floats s \<Longrightarrow>
    valid_NodeTelemetrySnapshot (aged now s) \<and> snapshot_floats (aged now s)"
  by (auto simp: valid_NodeTelemetrySnapshot_def snapshot_floats_def aged_def Let_def max_def)

lemma good_in: "good_snapshots st \<Longrightarrow> map_of (snapshots st) n = Some s \<Longrightarrow>
    valid_NodeTelemetrySnapshot s \<and> snapshot_floats s"
  by (force simp: good_snapshots_def get_all_snapshots_def dvalues_def dest: map_of_SomeD)

lemma good_record:
  "store_ok st \<Longrightarrow> good_snapshots st \<Longrightarrow> valid_NodeTelemetrySnapshot s \<Longrightarrow> snapshot_floats s \<Longrightarrow>
    good_snapshots (record_snapshot s st)"
  unfolding good_snapshots_def using get_all_record by blast

lemma refines_record:
  "refines io r st \<Longrightarrow> valid_NodeTelemetrySnapshot s \<Longrightarrow> snapshot_floats s \<Longrightarrow>
    refines io (redis_record io s r) (record_snapshot s st)"
  using good_record [of st s] store_ok_record [of st s]
  by (auto simp: refines_def redis_record_def) (auto simp: record_snapshot_def)

text \<open>Two listings of the same dictionary are permutations of each other.\<close>

lemma mset_dict:
  assumes "is_dict d" "is_dict d'" "map_of d = map_of d'"
  shows "mset d = mset d'"
proof -
  have "distinct d" "distinct d'" using assms(1,2) by (simp_all add: distinct_map)
  moreover have "set d = set d'" using assms map_of_inject_set by blast
  ultimately show ?thesis by (simp add: set_eq_iff_mset_eq_distinct)
qed

lemma redis_get_all_refines:
  assumes "redis_laws io" "refines io r st"
  shows "\<exists>ss. redis_get_all io r = Inr ss \<and> mset ss = mset (get_all_snapshots st)"
proof -
  let ?d = "map (\<lambda>(k, s). (k, rd_dump io s)) (snapshots st)" and ?l = "rd_hgetall io (rs_hash r)"
  let ?p = "\<lambda>tx. the (rd_parse io tx)"
  have h: "rs_hash r = map_of ?d"
    using assms(2) by (simp add: refines_def map_of_map [unfolded comp_def] comp_def case_prod_beta)
  have "is_dict ?d" using assms(2) by (simp add: refines_def store_ok_def case_prod_beta comp_def)
  moreover have "is_dict ?l" "map_of ?l = map_of ?d"
    using assms(1) finite_dom_map_of [of ?d] unfolding h redis_laws_def by blast+
  ultimately have m: "mset ?l = mset ?d" by (intro mset_dict) simp_all
  have texts: "mset (map snd ?l) = image_mset (rd_dump io) (mset (get_all_snapshots st))"
    unfolding mset_map m by (simp add: get_all_snapshots_def dvalues_def multiset.map_comp comp_def case_prod_beta)
  have rd: "rd_parse io (rd_dump io s) = Some s" if "s \<in># mset (get_all_snapshots st)" for s
    using that assms by (auto simp: redis_laws_def refines_def good_snapshots_def)
  have "rd_parse io tx = Some (?p tx)" if "tx \<in> set (map snd ?l)" for tx
  proof -
    have "tx \<in># image_mset (rd_dump io) (mset (get_all_snapshots st))"
      using that unfolding texts [symmetric] set_mset_mset .
    then show ?thesis using rd by auto
  qed
  then have "redis_get_all io r = Inr (map ?p (map snd ?l))"
    unfolding redis_get_all_def by (intro rmap_Inr) (force simp: parse_snapshot_def split: option.splits)
  moreover have "mset (map ?p (map snd ?l)) = image_mset (\<lambda>s. ?p (rd_dump io s)) (mset (get_all_snapshots st))"
    unfolding mset_map [of ?p] texts by (simp add: multiset.map_comp comp_def)
  moreover have "image_mset (\<lambda>s. ?p (rd_dump io s)) (mset (get_all_snapshots st)) =
      image_mset id (mset (get_all_snapshots st))"
    using rd by (intro image_mset_cong) simp
  ultimately show ?thesis by simp
qed

lemma redis_get_refines:
  assumes "redis_laws io" "refines io r st"
  shows "redis_get io n r = Inr (get_snapshot n st)"
proof (cases "map_of (snapshots st) n")
  case None
  then show ?thesis using assms(2) by (simp add: refines_def redis_get_def get_snapshot_def)
next
  case (Some s)
  then have "valid_NodeTelemetrySnapshot s" "snapshot_floats s" using assms(2) good_in by (auto simp: refines_def)
  then have "rd_dump io s \<noteq> []" "rd_parse io (rd_dump io s) = Some s" using assms(1) by (auto simp: redis_laws_def)
  then show ?thesis using assms(2) Some by (simp add: refines_def redis_get_def get_snapshot_def parse_snapshot_def)
qed

text \<open>Ageing writes every snapshot back, in the order of the listing, each under its own identifier.\<close>

lemma fold_redis_record:
  "distinct (map s_node_id ss) \<Longrightarrow> rs_hash (fold (\<lambda>s. redis_record io (f s)) ss r) n =
     (case find (\<lambda>s. s_node_id (f s) = n) (rev ss) of None \<Rightarrow> rs_hash r n | Some s \<Rightarrow> Some (rd_dump io (f s)))"
  by (induction ss arbitrary: r rule: rev_induct) (auto simp: redis_record_def)

lemma find_by_id: "distinct (map f xs) \<Longrightarrow> find (\<lambda>x. f x = n) xs = Some x \<longleftrightarrow> x \<in> set xs \<and> f x = n"
  by (induction xs) auto

lemma find_snapshot:
  assumes "store_ok st" "mset ss = mset (get_all_snapshots st)"
  shows "distinct (map s_node_id ss)" "find (\<lambda>s. s_node_id s = n) (rev ss) = map_of (snapshots st) n"
proof -
  have set: "set ss = set (get_all_snapshots st)" using assms(2) by (rule mset_eq_setD)
  have "mset (map s_node_id ss) = mset (map s_node_id (get_all_snapshots st))" using assms(2) by simp
  then show d: "distinct (map s_node_id ss)" using mem.all_distinct [OF assms(1)] mset_eq_imp_distinct_iff by blast
  have "find (\<lambda>s. s_node_id s = n) (rev ss) = Some s \<longleftrightarrow> map_of (snapshots st) n = Some s" for s
  proof -
    have "find (\<lambda>s. s_node_id s = n) (rev ss) = Some s \<longleftrightarrow> s \<in> set (get_all_snapshots st) \<and> s_node_id s = n"
      using find_by_id [of s_node_id "rev ss" n s] d set by (simp add: distinct_rev flip: rev_map)
    also have "\<dots> \<longleftrightarrow> map_of (snapshots st) n = Some s"
      using mem.all_iff [OF assms(1), of s] assms(1)
      by (auto simp: get_snapshot_def store_ok_def dest: map_of_SomeD)
    finally show ?thesis .
  qed
  then show "find (\<lambda>s. s_node_id s = n) (rev ss) = map_of (snapshots st) n"
    by (metis option.exhaust)
qed

lemma refines_age:
  assumes "redis_laws io" "refines io r st"
  shows "\<exists>r'. redis_update_heartbeat_age io now r = Inr r' \<and> refines io r' (update_heartbeat_age now st)"
proof -
  obtain ss where ss: "redis_get_all io r = Inr ss" "mset ss = mset (get_all_snapshots st)"
    using redis_get_all_refines [OF assms] by blast
  let ?r = "fold (\<lambda>snap. redis_record io (aged now snap)) ss r"
  have ok: "store_ok st" and good: "good_snapshots st" using assms(2) by (auto simp: refines_def)
  note f = find_snapshot [OF ok ss(2)]
  have "rs_hash ?r n = map_option (rd_dump io) (map_of (snapshots (update_heartbeat_age now st)) n)" for n
    using fold_redis_record [OF f(1), of io "aged now" r n] f(2) [of n] assms(2) get_snapshot_aged [of n now st]
    by (simp add: refines_def get_snapshot_def split: option.splits)
  moreover have "good_snapshots (update_heartbeat_age now st)"
    using good aged_good
    by (auto simp: good_snapshots_def get_all_snapshots_def update_heartbeat_age_def dvalues_def)
  ultimately have "refines io ?r (update_heartbeat_age now st)"
    using store_ok_aged [OF ok] by (simp add: refines_def fun_eq_iff)
  then show ?thesis by (simp add: redis_update_heartbeat_age_def ss(1))
qed

lemma refines_clear: "refines io r st \<Longrightarrow> refines io (redis_clear r) (clear_store st)"
  by (simp add: refines_def redis_clear_def clear_store_def store_ok_def good_snapshots_def get_all_snapshots_def
      dvalues_def fun_eq_iff)

lemma refines_run:
  assumes "redis_laws io"
  shows "refines io r st \<Longrightarrow> list_all store_op_ok ops \<Longrightarrow>
    \<exists>r'. redis_run io ops r = Inr r' \<and> refines io r' (fold mem_step ops st)"
proof (induction ops arbitrary: r st)
  case (Cons op ops)
  have "\<exists>r1. redis_step io op r = Inr r1 \<and> refines io r1 (mem_step op st)"
    using Cons.prems refines_record refines_clear refines_age [OF assms] by (cases op) auto
  then show ?case using Cons.IH Cons.prems(2) by fastforce
qed simp

lemma refines_new: "refines io (new_RedisTelemetryStore Map.empty t) (new_TelemetryStore t')"
  by (simp add: refines_def good_snapshots_def get_all_snapshots_def dvalues_def new_RedisTelemetryStore_def
      new_TelemetryStore_def store_ok_def fun_eq_iff)

lemma honest_message_accepted:
  assumes "signing_ok (pl_crypto pl)" "float_text_ok (ftext (pl_crypto pl))"
    and "valid_NodeTelemetrySnapshot snap" "snapshot_floats snap" "s_node_id snap = n_node_id (st_node st)"
    and "sign_telemetry pl nonce now snap st = (env, st')"
    and "etcd_get (key_member (s_node_id snap)) e = Some (ed_pem (pl_crypto pl) (st_signing_key st))"
    and "ed_pem (pl_crypto pl) (st_signing_key st) \<noteq> []"
    and "now_gateway \<le> fadd now 10" "now \<le> fadd now_gateway (max_clock_skew_seconds (ts_replay ts))"
    and "highest_seq (ts_replay ts) (s_node_id snap) < st_sequence_number st + 1"
    and "nonce \<notin> nonces_of (ts_replay ts) (s_node_id snap)"
  shows "\<exists>ts'. stream_message (pl_crypto pl) now_gateway e env ts = (Inr True, ts') \<and>
    get_snapshot (s_node_id snap) (ts_store ts') = Some (as_received snap) \<and>
    highest_seq (ts_replay ts') (s_node_id snap) = st_sequence_number st'"
proof -
  let ?cr = "pl_crypto pl" and ?n = "s_node_id snap"
  let ?seq = "st_sequence_number st + 1"
  have env: "ve_node_id env = ?n" "ve_sequence_number env = ?seq" "ve_nonce env = nonce"
      "ve_timestamp env = now" "ve_expires_at env = fadd now 10" "st_sequence_number st' = ?seq"
      "ve_payload_json env = encode (canonical (ftext ?cr) (JObj (telemetry_payload snap)))"
      "ve_signature env = ed_sign ?cr (st_signing_key st) (ve_payload_json env)"
    using assms(5,6) by (auto simp: sign_telemetry_def Let_def)
  obtain rs where v: "validate_and_record ?n ?seq nonce now (fadd now 10) now_gateway (ts_replay ts) = (True, rs)"
    using validate_accepts [of now_gateway "fadd now 10" now "ts_replay ts" ?n ?seq nonce] assms(9-12)
    by (cases "validate_and_record ?n ?seq nonce now (fadd now 10) now_gateway (ts_replay ts)") auto
  obtain payload where p: "sorted_json (JObj (telemetry_payload snap)) = JObj payload" by simp
  have l: "loads (ftext ?cr) (decode (ve_payload_json env)) = Some (JObj payload)"
    unfolding env(7) p [symmetric] by (simp only: decode_encode loads_canonical [OF assms(2) payload_ok [OF assms(4)]])
  have s: "telemetry_snapshot env payload = Inr (as_received snap)"
    using p env(1) assms(3) by (rule telemetry_snapshot_sorted)
  have k: "ed_load ?cr (ed_pem ?cr (st_signing_key st)) = Inr ()"
    "ed_verify ?cr (ed_pem ?cr (st_signing_key st)) (ve_signature env) (ve_payload_json env) = Inr ()"
    using assms(1) by (simp_all add: signing_ok_def env(8))
  have "s_node_id (as_received snap) = ?n" by (simp add: as_received_def)
  then show ?thesis
    using v l s k assms(7,8) validate_TrueD(5) [OF v, of ?n] env
    by (simp add: stream_message_def get_snapshot_def record_snapshot_def)
qed

section \<open>Sample values\<close>

definition node_context :: "str \<Rightarrow> auth_context" where
  "node_context n = \<lparr>x509_san_uri = [''spiffe://distributed-ai.local/node/'' @ n], x509_common_name = []\<rparr>"

definition sample_streamer :: TelemetryStreamer where
  "sample_streamer = new_TelemetryStreamer sample_platform sample_worker_node"

definition sample_registry :: etcd where
  "sample_registry = etcd_put (key_member ''edge-1'') (ed_pem toy_crypto [9]) new_etcd"

definition sample_service :: telemetry_service where
  "sample_service = \<lparr>ts_store = new_TelemetryStore 3000, ts_replay = new_replay_state 5\<rparr>"

definition sample_snapshot :: NodeTelemetrySnapshot where
  "sample_snapshot =
     \<lparr>s_node_id = ''edge-1'', s_node_class = EDGE, s_timestamp = 0, s_rtt_ms = 1, s_bandwidth_available_mbps = 1,
      s_cpu_util_pct = 1, s_gpu_util_pct = 1, s_queue_depth = 3, s_cost_per_1k_inferences_usd = 0,
      s_health = HEALTHY, s_last_heartbeat_age_ms = 1, s_data_residency_zones = [''eu-only''],
      s_gateway_observed_rtt_ms = None, s_assurance_level = HIGH_ASSURANCE\<rparr>"

lemma sample_snapshot_ok: "valid_NodeTelemetrySnapshot sample_snapshot" "snapshot_floats sample_snapshot"
proof -
  have "fl (1 / 1000) \<le> 1" by code_simp
  then show "valid_NodeTelemetrySnapshot sample_snapshot" "snapshot_floats sample_snapshot"
    by (simp_all add: valid_NodeTelemetrySnapshot_def snapshot_floats_def sample_snapshot_def)
qed

text \<open>An instance of the Redis laws: sorted listings and JSON texts of all fields.\<close>

definition toy_dump :: "NodeTelemetrySnapshot \<Rightarrow> jobj" where
  "toy_dump s = telemetry_payload s @
     [(''node_id'', JStr (s_node_id s)), (''age'', JFloat (s_last_heartbeat_age_ms s)),
      (''observed'', json_of_float_opt (s_gateway_observed_rtt_ms s)),
      (''assurance'', JStr (assurance_value (s_assurance_level s)))]"

definition toy_read :: "jobj \<Rightarrow> NodeTelemetrySnapshot option" where
  "toy_read d =
     (case telemetry_snapshot (SignedTelemetryEnvelope.make (the (opt_of_json (get_or d ''node_id'' JNull)))
         [] 0 0 0 [] [] [] [] [] [] [] []) d of
        Inl ex \<Rightarrow> None
      | Inr s \<Rightarrow> Some (s\<lparr>
          s_last_heartbeat_age_ms := (case as_float (get_or d ''age'' JNull) of Inr x \<Rightarrow> x | Inl ex \<Rightarrow> 0),
          s_gateway_observed_rtt_ms := (case as_float (get_or d ''observed'' JNull) of Inr x \<Rightarrow> Some x | Inl ex \<Rightarrow> None),
          s_assurance_level := (if get_or d ''assurance'' JNull = JStr ''standard'' then STANDARD else HIGH_ASSURANCE)\<rparr>))"

definition toy_redis :: redis_io where
  "toy_redis = \<lparr>rd_hgetall = (\<lambda>m. map (\<lambda>k. (k, the (m k))) (sorted_list_of_set (dom m))),
     rd_dump = (\<lambda>s. default_dumps fraction_text (JObj (toy_dump s))),
     rd_parse = (\<lambda>tx. case loads fraction_text tx of Some (JObj d) \<Rightarrow> toy_read d | _ \<Rightarrow> None)\<rparr>"

lemma toy_read_dump:
  assumes "valid_NodeTelemetrySnapshot s"
  shows "toy_read (toy_dump s) = Some s"
proof -
  have v: "valid_NodeTelemetrySnapshot
      \<lparr>s_node_id = s_node_id s, s_node_class = s_node_class s, s_timestamp = s_timestamp s,
       s_rtt_ms = s_rtt_ms s, s_bandwidth_available_mbps = s_bandwidth_available_mbps s,
       s_cpu_util_pct = s_cpu_util_pct s, s_gpu_util_pct = s_gpu_util_pct s,
       s_queue_depth = s_queue_depth s, s_cost_per_1k_inferences_usd = s_cost_per_1k_inferences_usd s,
       s_health = s_health s, s_last_heartbeat_age_ms = 0,
       s_data_residency_zones = s_data_residency_zones s, s_gateway_observed_rtt_ms = None,
       s_assurance_level = STANDARD\<rparr>"
    using assms by (simp add: valid_NodeTelemetrySnapshot_def)
  have a: "assurance_value l = ''standard'' \<longleftrightarrow> l = STANDARD" for l by (cases l) simp_all
  show ?thesis
    using v unfolding toy_read_def telemetry_snapshot_def
    by (simp add: get_or_def toy_dump_def telemetry_payload_def as_node_class_def as_health_def as_float_def as_int_def
        as_str_list_def mk_NodeTelemetrySnapshot_def SignedTelemetryEnvelope.make_def json_of_float_opt_def a
        split: option.splits)
      (cases "s_assurance_level s"; cases s; simp)
qed

lemma toy_redis_laws: "redis_laws toy_redis"
proof -
  have "json_ok (JObj (toy_dump s))" if "snapshot_floats s" for s
    using that by (auto simp: toy_dump_def telemetry_payload_def snapshot_floats_def json_of_float_opt_def list_all_iff
        split: option.splits)
  then have "loads fraction_text (default_dumps fraction_text (JObj (toy_dump s))) = Some (JObj (toy_dump s))"
    if "snapshot_floats s" for s
    using that by (intro loads_default [OF float_text_ok_fraction])
  moreover have "default_dumps fraction_text (JObj d) \<noteq> []" for d by (simp add: default_dumps_def)
  moreover have "is_dict (map (\<lambda>k. (k, the (m k))) (sorted_list_of_set (dom m))) \<and>
      map_of (map (\<lambda>k. (k, the (m k))) (sorted_list_of_set (dom m))) = m" if "finite (dom m)" for m :: "str \<rightharpoonup> str"
  proof
    show "is_dict (map (\<lambda>k. (k, the (m k))) (sorted_list_of_set (dom m)))" by (simp add: comp_def)
    have "map_of (map (\<lambda>k. (k, the (m k))) (sorted_list_of_set (dom m))) k = m k" for k
      using that by (cases "m k") (auto simp: map_of_map_restrict restrict_map_def)
    then show "map_of (map (\<lambda>k. (k, the (m k))) (sorted_list_of_set (dom m))) = m" by blast
  qed
  ultimately show ?thesis
    by (simp add: redis_laws_def toy_redis_def toy_read_dump)
qed

definition sample_telemetry :: SignedTelemetryEnvelope where
  "sample_telemetry = fst (sign_telemetry sample_platform ''n1'' 0 sample_snapshot sample_streamer)"

lemma sample_clock: "0 \<le> fadd 0 10" "0 \<le> fadd 0 5"
  by code_simp+

lemma sample_facts:
  "pl_crypto sample_platform = toy_crypto" "s_node_id sample_snapshot = ''edge-1''"
  "n_node_id (st_node sample_streamer) = ''edge-1''" "st_signing_key sample_streamer = [9]"
  "st_sequence_number sample_streamer = 0" "ed_pem toy_crypto [9] = hex [9]"
  "etcd_get (key_member ''edge-1'') sample_registry = Some (hex [9])"
  "highest_seq (ts_replay sample_service) k = -1" "nonces_of (ts_replay sample_service) k = {}"
  "max_clock_skew_seconds (ts_replay sample_service) = 5" "store_ok (ts_store sample_service)"
  "get_all_snapshots (ts_store sample_service) = []" "ed_load toy_crypto (hex [9]) = Inr ()"
  "0 \<le> fadd 0 10" "0 \<le> fadd 0 5"
  by (simp_all add: sample_platform_def sample_snapshot_def sample_streamer_def new_TelemetryStreamer_def
      sample_worker_node_def new_SimulatedNode_def toy_crypto_def sample_registry_def etcd_get_def etcd_put_def
      sample_service_def new_replay_state_def highest_seq_def nonces_of_def get_all_snapshots_def dvalues_def
      new_TelemetryStore_def store_ok_def sample_clock)

lemma sample_stream_accepted:
  "\<exists>ts'. stream_message toy_crypto 0 sample_registry sample_telemetry sample_service = (Inr True, ts') \<and>
     get_snapshot ''edge-1'' (ts_store ts') = Some (as_received sample_snapshot)"
  using honest_message_accepted [of sample_platform sample_snapshot sample_streamer "''n1''" 0 sample_telemetry
      "snd (sign_telemetry sample_platform ''n1'' 0 sample_snapshot sample_streamer)" sample_registry 0 sample_service]
    sample_facts toy_ok sample_snapshot_ok
  by (auto simp: sample_telemetry_def)

lemma node_context_id:
  "extract_spiffe_id (node_context n) = Some (''spiffe://distributed-ai.local/node/'' @ n)"
  "authenticate_node (node_context n)"
proof -
  show "extract_spiffe_id (node_context n) = Some (''spiffe://distributed-ai.local/node/'' @ n)"
    by (simp add: extract_spiffe_id_def node_context_def startswith_def)
  then show "authenticate_node (node_context n)" by (simp add: authenticate_node_def startswith_def)
qed

text \<open>The stream of the sample envelope, and what it leaves in the store.\<close>

lemma sample_stream:
  "\<exists>ts'. StreamTelemetry toy_crypto (node_context ''edge-1'') [Inr (0, sample_registry, sample_telemetry)] sample_service
       = (Inr ''success'', ts') \<and> as_received sample_snapshot \<in> set (get_all_snapshots (ts_store ts'))"
proof -
  obtain ts' where m: "stream_message toy_crypto 0 sample_registry sample_telemetry sample_service = (Inr True, ts')"
    and g: "get_snapshot ''edge-1'' (ts_store ts') = Some (as_received sample_snapshot)"
    using sample_stream_accepted by blast
  have "store_ok (ts_store ts')" using stream_message_snapshots [OF m] sample_facts by simp
  then have "as_received sample_snapshot \<in> set (get_all_snapshots (ts_store ts'))"
    using g mem.all_iff [of "ts_store ts'"] by (simp add: as_received_def sample_snapshot_def)
  then show ?thesis using m by (simp add: StreamTelemetry_def node_context_id)
qed

section \<open>Properties\<close>

text \<open>
  An identity is registered by its own node. A registration succeeds exactly when the
  caller's certificate names the node it registers and a key is given; then the key is the
  node's identity and calls go to its address. Otherwise nothing changes; the identities of
  other nodes never change.
\<close>

lemma identity_owned:
  assumes "RegisterNode ctx rq (s, e) = (rp, s', e')"
  shows "(rp_status rp = ''success'' \<longleftrightarrow>
      extract_spiffe_id ctx = Some (''spiffe://distributed-ai.local/node/'' @ rq_node_id rq) \<and>
      rq_public_signing_key rq \<noteq> []) \<and>
    (if rp_status rp = ''success''
     then etcd_get (key_member (rq_node_id rq)) e' = Some (rq_public_signing_key rq) \<and>
       map_sum id fst (get_stub (rq_node_id rq) s') = Inr (rq_node_id rq @ '':50051'')
     else s' = s \<and> e' = e) \<and>
    (n = rq_node_id rq \<or> etcd_get (key_member n) e' = etcd_get (key_member n) e \<and>
       dget (sc_node_targets s') n = dget (sc_node_targets s) n)"
  using assms get_stub_register [of "rq_node_id rq @ '':50051''" "rq_node_id rq" "rq_node_id rq" s]
  by (auto simp: RegisterNode_def authorize_node_iff etcd_get_def etcd_put_def register_worker_def Let_def
      split: if_splits)

text \<open>
  C17: stored telemetry is authentic. Every snapshot a stream adds to the store was signed,
  under the key registered for its node at that moment, in an envelope of that node that had
  not expired; and the stream was opened by an authenticated node.
\<close>

theorem telemetry_authentic:
  assumes "store_ok (ts_store ts)" "StreamTelemetry cr ctx items ts = (r, ts')"
    and "s \<in> set (get_all_snapshots (ts_store ts'))" "s \<notin> set (get_all_snapshots (ts_store ts))"
  shows "authenticate_node ctx \<and> (\<exists>now e env pem payload. Inr (now, e, env) \<in> set items \<and>
    ve_node_id env = s_node_id s \<and> now \<le> ve_expires_at env \<and>
    etcd_get (key_member (s_node_id s)) e = Some pem \<and>
    ed_verify cr pem (ve_signature env) (ve_payload_json env) = Inr () \<and>
    loads (ftext cr) (decode (ve_payload_json env)) = Some (JObj payload) \<and>
    telemetry_snapshot env payload = Inr s)"
proof -
  have "authenticate_node ctx" "recorded_from cr items s"
    using StreamTelemetry_snapshots [OF assms(1), of s cr ctx items] assms(2-4) by auto
  then show ?thesis unfolding recorded_from_def using telemetry_snapshot_fixed by metis
qed

theorem telemetry_authentic_witness:
  "\<exists>payload. telemetry_snapshot sample_telemetry payload = Inr (as_received sample_snapshot) \<and>
     loads (ftext toy_crypto) (decode (ve_payload_json sample_telemetry)) = Some (JObj payload)"
proof -
  obtain ts' where "StreamTelemetry toy_crypto (node_context ''edge-1'') [Inr (0, sample_registry, sample_telemetry)]
      sample_service = (Inr ''success'', ts')" "as_received sample_snapshot \<in> set (get_all_snapshots (ts_store ts'))"
    using sample_stream by blast
  from telemetry_authentic [OF sample_facts(11) this] show ?thesis by (auto simp: sample_facts)
qed

text \<open>
  C40: a forged sequence number silences a node. The replay state is updated before the
  signature is checked, and the node of an envelope is not compared with the caller: with one
  envelope that carries the victim's name, a high sequence number and any bad signature, any
  authenticated node makes the control plane drop all the victim's envelopes with lower
  numbers, however well they are signed.
\<close>

theorem forged_telemetry_silences_node:
  assumes "etcd_get (key_member (ve_node_id forged)) e = Some pem" "pem \<noteq> []" "ed_load cr pem = Inr ()"
    and "ed_verify cr pem (ve_signature forged) (ve_payload_json forged) = Inl ex" "exc_class ex = InvalidSignatureClass"
    and "now \<le> ve_expires_at forged" "ve_timestamp forged \<le> fadd now (max_clock_skew_seconds (ts_replay ts))"
    and "highest_seq (ts_replay ts) (ve_node_id forged) < ve_sequence_number forged"
    and "ve_nonce forged \<notin> nonces_of (ts_replay ts) (ve_node_id forged)"
    and "authenticate_node ctx" "StreamTelemetry cr ctx [Inr (now, e, forged)] ts = (r, ts1)"
    and "ve_node_id honest = ve_node_id forged" "ve_sequence_number honest \<le> ve_sequence_number forged"
  shows "r = Inr ''success'' \<and> ts_store ts1 = ts_store ts \<and>
    (\<exists>ts2. stream_message cr now' e honest ts1 = (Inr False, ts2) \<and> ts_store ts2 = ts_store ts)"
proof -
  let ?n = "ve_node_id forged"
  obtain rs where v: "validate_and_record ?n (ve_sequence_number forged) (ve_nonce forged) (ve_timestamp forged)
      (ve_expires_at forged) now (ts_replay ts) = (True, rs)"
    using validate_accepts [OF assms(6-9)]
    by (cases "validate_and_record ?n (ve_sequence_number forged) (ve_nonce forged) (ve_timestamp forged)
      (ve_expires_at forged) now (ts_replay ts)") auto
  have one: "stream_message cr now e forged ts = (Inr False, ts\<lparr>ts_replay := rs\<rparr>)"
    using assms(1-5) v by (simp add: stream_message_def)
  then have ts1: "ts1 = ts\<lparr>ts_replay := rs\<rparr>" and r: "r = Inr ''success''"
    using assms(10,11) by (simp_all add: StreamTelemetry_def)
  have "highest_seq rs ?n = ve_sequence_number forged" using validate_TrueD(5) [OF v, of ?n] by simp
  then have "\<exists>rs'. validate_and_record ?n (ve_sequence_number honest) (ve_nonce honest) (ve_timestamp honest)
      (ve_expires_at honest) now' rs = (False, rs')"
    using assms(13) by (simp add: validate_and_record_def Let_def)
  then show ?thesis using assms(1-3,12) by (auto simp: stream_message_def ts1 r)
qed

theorem forged_telemetry_silences_node_witness:
  "\<exists>ts1 ts2. StreamTelemetry toy_crypto (node_context ''mallory'')
       [Inr (0, sample_registry, sample_telemetry\<lparr>ve_sequence_number := 1000, ve_signature := []\<rparr>)] sample_service
       = (Inr ''success'', ts1) \<and>
     stream_message toy_crypto 0 sample_registry sample_telemetry ts1 = (Inr False, ts2)"
proof -
  let ?f = "sample_telemetry\<lparr>ve_sequence_number := 1000, ve_signature := []\<rparr>"
  obtain r ts1 where s: "StreamTelemetry toy_crypto (node_context ''mallory'') [Inr (0, sample_registry, ?f)] sample_service
      = (r, ts1)" by fastforce
  have e: "ve_node_id sample_telemetry = ''edge-1''" "ve_sequence_number sample_telemetry = 1"
    "ve_timestamp sample_telemetry = 0" "ve_expires_at sample_telemetry = fadd 0 10"
    by (simp_all add: sample_telemetry_def sign_telemetry_def Let_def sample_facts)
  have bad: "ed_verify toy_crypto (hex [9]) [] m = Inl (py_exc InvalidSignatureClass [])" for m
    by (simp add: toy_crypto_def)
  have "r = Inr ''success'' \<and> ts_store ts1 = ts_store sample_service \<and>
      (\<exists>ts2. stream_message toy_crypto 0 sample_registry sample_telemetry ts1 = (Inr False, ts2) \<and>
        ts_store ts2 = ts_store sample_service)"
    by (rule forged_telemetry_silences_node [where forged = ?f and pem = "hex [9]" and now = 0 and
        ex = "py_exc InvalidSignatureClass []", OF _ _ _ _ _ _ _ _ _ _ s])
      (simp_all add: e bad sample_facts node_context_id)
  then show ?thesis using s by blast
qed

text \<open>
  A silent node is never excluded. Whatever a stream stored, however long ago, is never
  stale for any threshold, passes the RTT cross-check, and never satisfies a task that
  requires high assurance.
\<close>

lemma streamed_snapshots_never_stale:
  assumes "StreamTelemetry cr ctx items \<lparr>ts_store = new_TelemetryStore t, ts_replay = rs\<rparr> = (r, ts')"
    and "s \<in> set (get_all_snapshots (ts_store ts'))" "0 \<le> threshold"
  shows "\<not> is_stale s threshold \<and> fst (cross_validate_rtt v s) \<and>
    (t_required_assurance_level task = HIGH_ASSURANCE \<longrightarrow> \<not> admissible f task s)"
proof -
  have "recorded_from cr items s"
    using StreamTelemetry_snapshots [of "\<lparr>ts_store = new_TelemetryStore t, ts_replay = rs\<rparr>" s cr ctx items] assms(1,2)
    by (simp add: get_all_snapshots_def dvalues_def new_TelemetryStore_def store_ok_def)
  then have "s_last_heartbeat_age_ms s = 0" "s_gateway_observed_rtt_ms s = None" "s_assurance_level s = STANDARD"
    unfolding recorded_from_def using telemetry_snapshot_fixed by blast+
  then show ?thesis using assms(3) by (simp add: is_stale_def cross_validate_rtt_def admissible_def)
qed

text \<open>
  C20: the Redis store refines the memory store. After any sequence of reports, ageings and
  clearings the two stores answer every look-up alike, and list the same snapshots up to the
  order of Redis.
\<close>

theorem redis_refines_memory:
  assumes "redis_laws io" "\<forall>op\<in>set ops. store_op_ok op"
  shows "\<exists>r ss. redis_run io ops (new_RedisTelemetryStore Map.empty t) = Inr r \<and>
    redis_get_all io r = Inr ss \<and> mset ss = mset (get_all_snapshots (fold mem_step ops (new_TelemetryStore t))) \<and>
    redis_get io n r = Inr (get_snapshot n (fold mem_step ops (new_TelemetryStore t)))"
  using refines_run [OF assms(1) refines_new, of ops t t] assms(2) redis_get_all_refines [OF assms(1)]
    redis_get_refines [OF assms(1)]
  by (fastforce simp: list_all_iff)

theorem redis_refines_memory_witness:
  "\<exists>r ss. redis_run toy_redis [Record sample_snapshot, Age 5, Record sample_snapshot]
       (new_RedisTelemetryStore Map.empty 3000) = Inr r \<and>
     redis_get_all toy_redis r = Inr ss \<and> length ss = 1"
proof -
  let ?ops = "[Record sample_snapshot, Age 5, Record sample_snapshot]"
  have ok: "\<forall>op\<in>set ?ops. store_op_ok op" using sample_snapshot_ok by simp
  obtain r ss where "redis_run toy_redis ?ops (new_RedisTelemetryStore Map.empty 3000) = Inr r"
    "redis_get_all toy_redis r = Inr ss" "mset ss = mset (get_all_snapshots (fold mem_step ?ops (new_TelemetryStore 3000)))"
    using redis_refines_memory [OF toy_redis_laws ok, of 3000 "[]"] by blast
  moreover have "length (get_all_snapshots (fold mem_step ?ops (new_TelemetryStore 3000))) = 1"
    by (simp add: new_TelemetryStore_def record_snapshot_def update_heartbeat_age_def get_all_snapshots_def dvalues_def)
  ultimately show ?thesis by (metis size_mset)
qed

end
