(* ===== verification/TelemetryClient.thy ===== *)
theory TelemetryClient
  imports ControlPlane "HOL-Library.Sublist"
begin

text \<open>
  The streamer thread of the node's telemetry client (\<open>node_agent/grpc_client.py\<close>):
  \<open>_telemetry_generator\<close>, \<open>_stream_loop\<close>, \<open>start\<close> and \<open>stop\<close>. What is sent is in
  \<open>ControlPlane\<close> (\<open>sign_telemetry\<close>, \<open>registration_request\<close>); this theory has when.

  The thread is a state machine over \<open>client_phase\<close>, the places where it waits for the
  environment; the labels of its steps are the environment's moves: the answers of the
  control plane, the failures of calls, the callers of \<open>start\<close> and \<open>stop\<close>, and changes of the
  shared node object by other threads. One iteration of the generator (test, snapshot,
  signature) is one step. A generator that outlives its call may be asked for more messages;
  they are signed and lost. Dead lines of the waits (1, 2 and 5 seconds) only say when a step
  may happen, so the phase records them and the step ignores them.
\<close>

section \<open>The streamer thread\<close>

datatype client_phase =
  Not_running
| Testing
| Registering
| Streaming
| Waiting pyfloat

record client =
  cl_streamer :: TelemetryStreamer
  cl_stop_event :: bool
  cl_phase :: client_phase
  cl_opened :: bool

definition new_client :: "platform \<Rightarrow> SimulatedNode \<Rightarrow> client" where
  "new_client pl node =
     \<lparr>cl_streamer = new_TelemetryStreamer pl node, cl_stop_event = False, cl_phase = Not_running,
      cl_opened = False\<rparr>"

text \<open>\<open>_thread is None or not is_alive()\<close> is \<open>Not_running\<close>.\<close>

definition start_streamer :: "client \<Rightarrow> client" where
  "start_streamer c =
     (if cl_phase c = Not_running then c\<lparr>cl_stop_event := False, cl_phase := Testing\<rparr> else c)"

text \<open>\<open>stop\<close> joins with a timeout: it returns whether or not the thread has ended.\<close>

definition stop_streamer :: "client \<Rightarrow> client" where
  "stop_streamer c = c\<lparr>cl_stop_event := True\<rparr>"

text \<open>The \<open>while\<close> test of \<open>_stream_loop\<close>.\<close>

definition loop_test :: "client \<Rightarrow> client" where
  "loop_test c = c\<lparr>cl_phase := (if cl_stop_event c then Not_running else Registering)\<rparr>"

text \<open>The answer of \<open>RegisterNode\<close>: a rejection sets the event and returns from the thread.\<close>

definition registration_answer :: "NodeRegistrationResponse \<Rightarrow> client \<Rightarrow> client" where
  "registration_answer resp c =
     (if rp_status resp \<noteq> ''success'' then c\<lparr>cl_stop_event := True, cl_phase := Not_running\<rparr>
      else c\<lparr>cl_phase := Streaming, cl_opened := True\<rparr>)"

text \<open>The two \<open>except\<close> clauses: how long the thread waits before it tries again.\<close>

definition retry_delay :: "exc \<Rightarrow> pyfloat" where
  "retry_delay ex = (if exc_class ex = RpcErrorClass then 2 else 5)"

definition call_failed :: "exc \<Rightarrow> client \<Rightarrow> client" where
  "call_failed ex c = c\<lparr>cl_phase := Waiting (retry_delay ex)\<rparr>"

text \<open>One message of the generator: the snapshot of the node now, signed.\<close>

definition generate_message ::
    "platform \<Rightarrow> str \<Rightarrow> pyfloat \<Rightarrow> pyfloat \<Rightarrow> client \<Rightarrow> exc + (NodeTelemetrySnapshot \<times> SignedTelemetryEnvelope) \<times> client" where
  "generate_message pl nonce emitted now c =
     rbind (emit_snapshot None emitted (st_node (cl_streamer c))) (\<lambda>snapshot.
       (case sign_telemetry pl nonce now snapshot (cl_streamer c) of
          (env, st) \<Rightarrow> Inr ((snapshot, env), c\<lparr>cl_streamer := st\<rparr>)))"

datatype client_event =
  Start
| Stop
| Loop_test
| Registration NodeRegistrationResponse
| Call_failed exc
| Stream_ended
| Wait_over
| Sent NodeTelemetrySnapshot SignedTelemetryEnvelope
| Lost NodeTelemetrySnapshot SignedTelemetryEnvelope
| Node_changed SimulatedNode

text \<open>What other threads may change of the node: everything but its identity and its keys.\<close>

definition same_identity :: "SimulatedNode \<Rightarrow> SimulatedNode \<Rightarrow> bool" where
  "same_identity a b \<longleftrightarrow> n_node_id a = n_node_id b \<and> n_signing_key a = n_signing_key b \<and>
     n_public_key_pem a = n_public_key_pem b \<and> n_pq_key a = n_pq_key b"

text \<open>
  A step is what one thread does between two waits; making an envelope, with its sequence number
  and previous hash, is one step. The code keeps both as attributes without a lock: two generators
  alive at once, that of a broken stream and that of its successor, could interleave there.
\<close>

inductive client_step :: "platform \<Rightarrow> client \<Rightarrow> client_event \<Rightarrow> client \<Rightarrow> bool" for pl where
  start: "client_step pl c Start (start_streamer c)"
| stop: "client_step pl c Stop (stop_streamer c)"
| test: "cl_phase c = Testing \<Longrightarrow> client_step pl c Loop_test (loop_test c)"
| answer: "cl_phase c = Registering \<Longrightarrow> client_step pl c (Registration resp) (registration_answer resp c)"
| failure: "cl_phase c = Registering \<or> cl_phase c = Streaming \<Longrightarrow>
    client_step pl c (Call_failed ex) (call_failed ex c)"
| ended: "cl_phase c = Streaming \<Longrightarrow> client_step pl c Stream_ended (c\<lparr>cl_phase := Testing\<rparr>)"
| waited: "cl_phase c = Waiting d \<Longrightarrow> client_step pl c Wait_over (c\<lparr>cl_phase := Testing\<rparr>)"
| sent: "cl_phase c = Streaming \<Longrightarrow> \<not> cl_stop_event c \<Longrightarrow>
    generate_message pl nonce emitted now c = Inr ((snap, env), c') \<Longrightarrow> client_step pl c (Sent snap env) c'"
| lost: "cl_opened c \<Longrightarrow> \<not> cl_stop_event c \<Longrightarrow>
    generate_message pl nonce emitted now c = Inr ((snap, env), c') \<Longrightarrow> client_step pl c (Lost snap env) c'"
| changed: "same_identity (st_node (cl_streamer c)) node \<Longrightarrow>
    client_step pl c (Node_changed node) (c\<lparr>cl_streamer := (cl_streamer c)\<lparr>st_node := node\<rparr>\<rparr>)"

inductive_simps client_step_iffs:
  "client_step pl c Start c'" "client_step pl c Stop c'" "client_step pl c Loop_test c'"
  "client_step pl c (Registration resp) c'" "client_step pl c (Call_failed ex) c'"
  "client_step pl c Stream_ended c'" "client_step pl c Wait_over c'"
  "client_step pl c (Node_changed node) c'" "client_step pl c (Sent snap env) c'" "client_step pl c (Lost snap env) c'"

inductive client_run :: "platform \<Rightarrow> client \<Rightarrow> client_event list \<Rightarrow> client \<Rightarrow> bool" for pl where
  refl: "client_run pl c [] c"
| step: "client_step pl c ev c1 \<Longrightarrow> client_run pl c1 evs c2 \<Longrightarrow> client_run pl c (ev # evs) c2"

inductive_simps client_run_iffs [simp]: "client_run pl c [] c'" "client_run pl c (ev # evs) c'"

lemmas client_ops = start_streamer_def stop_streamer_def loop_test_def registration_answer_def call_failed_def

lemma client_run_append:
  "client_run pl c (xs @ ys) c' \<longleftrightarrow> (\<exists>c1. client_run pl c xs c1 \<and> client_run pl c1 ys c')"
  by (induction xs arbitrary: c) auto

text \<open>The envelopes of a run: the delivered ones, and all that were signed.\<close>

fun delivered :: "client_event list \<Rightarrow> (NodeTelemetrySnapshot \<times> SignedTelemetryEnvelope) list" where
  "delivered [] = []"
| "delivered (Sent snap env # evs) = (snap, env) # delivered evs"
| "delivered (_ # evs) = delivered evs"

fun messages_signed :: "client_event list \<Rightarrow> SignedTelemetryEnvelope list" where
  "messages_signed [] = []"
| "messages_signed (Sent snap env # evs) = env # messages_signed evs"
| "messages_signed (Lost snap env # evs) = env # messages_signed evs"
| "messages_signed (_ # evs) = messages_signed evs"


section \<open>What the thread signs\<close>

abbreviation seq_of :: "client \<Rightarrow> int" where
  "seq_of c \<equiv> st_sequence_number (cl_streamer c)"

definition same_keys :: "client \<Rightarrow> client \<Rightarrow> bool" where
  "same_keys c c' \<longleftrightarrow> same_identity (st_node (cl_streamer c)) (st_node (cl_streamer c')) \<and>
     st_signing_key (cl_streamer c) = st_signing_key (cl_streamer c') \<and>
     st_public_key_pem (cl_streamer c) = st_public_key_pem (cl_streamer c')"

lemma same_keys_refl [simp]: "same_keys c c"
  by (simp add: same_keys_def same_identity_def)

lemma same_keys_trans: "same_keys a b \<Longrightarrow> same_keys b c \<Longrightarrow> same_keys a c"
  by (simp add: same_keys_def same_identity_def)

lemma generate_messageD:
  assumes "generate_message pl nonce emitted now c = Inr ((snap, env), c')"
  shows "emit_snapshot None emitted (st_node (cl_streamer c)) = Inr snap"
    "sign_telemetry pl nonce now snap (cl_streamer c) = (env, cl_streamer c')"
    "c' = c\<lparr>cl_streamer := cl_streamer c'\<rparr>"
proof -
  obtain s where e: "emit_snapshot None emitted (st_node (cl_streamer c)) = Inr s"
    using assms by (auto simp: generate_message_def rbind_Inr_iff)
  obtain v st where "sign_telemetry pl nonce now s (cl_streamer c) = (v, st)" by fastforce
  then show "emit_snapshot None emitted (st_node (cl_streamer c)) = Inr snap"
    "sign_telemetry pl nonce now snap (cl_streamer c) = (env, cl_streamer c')"
    "c' = c\<lparr>cl_streamer := cl_streamer c'\<rparr>"
    using assms e by (auto simp: generate_message_def)
qed

lemma generate_message_frame:
  assumes "generate_message pl nonce emitted now c = Inr ((snap, env), c')"
  shows "cl_phase c' = cl_phase c" "cl_stop_event c' = cl_stop_event c" "cl_opened c' = cl_opened c"
  using assms by (auto simp: generate_message_def rbind_Inr_iff case_prod_beta)

lemma sign_telemetryD:
  assumes "sign_telemetry pl nonce now snap st = (env, st')"
  shows "st_node st' = st_node st" "st_signing_key st' = st_signing_key st"
    "st_public_key_pem st' = st_public_key_pem st" "st_sequence_number st' = st_sequence_number st + 1"
    "ve_sequence_number env = st_sequence_number st + 1" "ve_node_id env = n_node_id (st_node st)"
    "ve_nonce env = nonce" "ve_timestamp env = now" "ve_expires_at env = fadd now 10"
    "ve_signature env = ed_sign (pl_crypto pl) (st_signing_key st) (ve_payload_json env)"
    "st_previous_hash st' = ve_previous_message_hash env"
    "ve_previous_message_hash env = sha256 (pl_crypto pl) (encode ''DISTRIBUTED_AI_TELEMETRY_V1'' @
       st_previous_hash st @ ve_payload_json env @ encode (show_int (ve_sequence_number env)) @ encode (ve_nonce env))"
  using assms by (auto simp: sign_telemetry_def Let_def)

lemma client_step_keys: "client_step pl c ev c' \<Longrightarrow> same_keys c c'"
  by (induction rule: client_step.induct)
    (auto simp: client_ops same_keys_def same_identity_def dest!: generate_messageD(2) dest: sign_telemetryD(1-3))

lemma client_run_keys: "client_run pl c evs c' \<Longrightarrow> same_keys c c'"
  by (induction rule: client_run.induct) (auto dest: client_step_keys intro: same_keys_trans)

lemma client_step_seq:
  "client_step pl c ev c' \<Longrightarrow>
    (case messages_signed [ev] of [] \<Rightarrow> seq_of c' = seq_of c | env # _ \<Rightarrow> ve_sequence_number env = seq_of c + 1 \<and> seq_of c' = seq_of c + 1)"
  by (induction rule: client_step.induct)
    (auto simp: client_ops dest!: generate_messageD(2) dest: sign_telemetryD(4,5))

lemma signed_Cons: "messages_signed (ev # evs) = messages_signed [ev] @ messages_signed evs"
  by (cases ev) simp_all

lemma signed_single: "messages_signed [ev] = [] \<or> (\<exists>env. messages_signed [ev] = [env])"
  by (cases ev) simp_all

lemma client_run_seq:
  "client_run pl c evs c' \<Longrightarrow> seq_of c \<le> seq_of c' \<and> map ve_sequence_number (messages_signed evs) = [seq_of c + 1 .. seq_of c']"
proof (induction rule: client_run.induct)
  case (step c ev c1 evs c2)
  then show ?case
    using client_step_seq [OF step.hyps(1)] signed_single [of ev]
    by (auto simp: signed_Cons [of ev evs] upto.simps [of "seq_of c + 1"])
qed simp

text \<open>Each message's hash covers the hash of the message signed before it.\<close>

fun hash_chain :: "crypto \<Rightarrow> bytes \<Rightarrow> SignedTelemetryEnvelope list \<Rightarrow> bool" where
  "hash_chain cr h [] \<longleftrightarrow> True"
| "hash_chain cr h (env # envs) \<longleftrightarrow>
     ve_previous_message_hash env = sha256 cr (encode ''DISTRIBUTED_AI_TELEMETRY_V1'' @ h @ ve_payload_json env @
       encode (show_int (ve_sequence_number env)) @ encode (ve_nonce env)) \<and>
     hash_chain cr (ve_previous_message_hash env) envs"

lemma client_step_chain:
  "client_step pl c ev c' \<Longrightarrow>
    (case messages_signed [ev] of [] \<Rightarrow> st_previous_hash (cl_streamer c') = st_previous_hash (cl_streamer c)
     | env # _ \<Rightarrow> hash_chain (pl_crypto pl) (st_previous_hash (cl_streamer c)) [env] \<and>
         st_previous_hash (cl_streamer c') = ve_previous_message_hash env)"
  by (induction rule: client_step.induct)
    (auto simp: client_ops dest!: generate_messageD(2) dest: sign_telemetryD(11,12))

lemma client_run_chain:
  "client_run pl c evs c' \<Longrightarrow> hash_chain (pl_crypto pl) (st_previous_hash (cl_streamer c)) (messages_signed evs)"
proof (induction rule: client_run.induct)
  case (step c ev c1 evs c2)
  then show ?case
    using client_step_chain [OF step.hyps(1)] signed_single [of ev] by (auto simp: signed_Cons [of ev evs])
qed simp

lemma subseq_set: "subseq xs ys \<Longrightarrow> x \<in> set xs \<Longrightarrow> x \<in> set ys"
  by (auto elim: list_emb_set)

lemma sorted_wrt_subseq: "subseq xs ys \<Longrightarrow> sorted_wrt R ys \<Longrightarrow> sorted_wrt R xs"
  by (induction rule: list_emb.induct) (auto dest: subseq_set)

lemma delivered_subseq: "subseq (map snd (delivered evs)) (messages_signed evs)"
  by (induction evs rule: delivered.induct) auto


section \<open>What the control plane makes of it\<close>

text \<open>
  The messages of all streams, in the order the control plane handles them. A message that
  raises ends only its own stream; \<open>serve_streams\<close> keeps what became of each.
\<close>

fun serve_streams :: "crypto \<Rightarrow> (pyfloat \<times> etcd \<times> SignedTelemetryEnvelope) list \<Rightarrow> telemetry_service \<Rightarrow>
    (SignedTelemetryEnvelope \<times> (exc + bool)) list \<times> telemetry_service" where
  "serve_streams cr [] ts = ([], ts)"
| "serve_streams cr ((now, e, env) # arrivals) ts =
     (case stream_message cr now e env ts of (r, ts1) \<Rightarrow>
       (case serve_streams cr arrivals ts1 of (rs, ts2) \<Rightarrow> ((env, r) # rs, ts2)))"

lemma stream_message_replay:
  assumes "stream_message cr now e env ts = (r, ts')"
  shows "ts_replay ts' = ts_replay ts \<or>
    (\<exists>b. validate_and_record (ve_node_id env) (ve_sequence_number env) (ve_nonce env) (ve_timestamp env)
       (ve_expires_at env) now (ts_replay ts) = (b, ts_replay ts') \<and> (r = Inr True \<longrightarrow> b))"
  using assms by (auto simp: stream_message_def Let_def split: if_splits sum.splits prod.splits bool.splits
      option.splits json.splits)

lemma stream_message_accepted:
  assumes "stream_message cr now e env ts = (Inr True, ts')"
  shows "validate_and_record (ve_node_id env) (ve_sequence_number env) (ve_nonce env) (ve_timestamp env)
       (ve_expires_at env) now (ts_replay ts) = (True, ts_replay ts')"
  using assms by (auto simp: stream_message_def Let_def split: if_splits sum.splits prod.splits bool.splits
      option.splits json.splits)

text \<open>A message of one node changes nothing of the others.\<close>

lemma stream_message_frame:
  assumes "stream_message cr now e env ts = (r, ts')"
  shows "max_clock_skew_seconds (ts_replay ts') = max_clock_skew_seconds (ts_replay ts)"
    and "n \<noteq> ve_node_id env \<Longrightarrow> highest_seq (ts_replay ts') n = highest_seq (ts_replay ts) n \<and>
      nonces_of (ts_replay ts') n = nonces_of (ts_replay ts) n \<and>
      get_snapshot n (ts_store ts') = get_snapshot n (ts_store ts)"
proof -
  have v: "ts_replay ts' = ts_replay ts \<or> (\<exists>b. validate_and_record (ve_node_id env) (ve_sequence_number env)
      (ve_nonce env) (ve_timestamp env) (ve_expires_at env) now (ts_replay ts) = (b, ts_replay ts'))"
    using stream_message_replay [OF assms] by blast
  then show "max_clock_skew_seconds (ts_replay ts') = max_clock_skew_seconds (ts_replay ts)"
    using validate_TrueD(7) validate_FalseD(3) by (metis (full_types))
  assume n: "n \<noteq> ve_node_id env"
  have "highest_seq (ts_replay ts') n = highest_seq (ts_replay ts) n \<and>
      nonces_of (ts_replay ts') n = nonces_of (ts_replay ts) n"
    using v n validate_TrueD(5,6) validate_FalseD(1,2) by (metis (full_types))
  moreover have "get_snapshot n (ts_store ts') = get_snapshot n (ts_store ts)"
    using stream_message_store [OF assms] n
    by (auto simp: get_snapshot_def record_snapshot_def dest: telemetry_snapshot_fixed)
  ultimately show "highest_seq (ts_replay ts') n = highest_seq (ts_replay ts) n \<and>
      nonces_of (ts_replay ts') n = nonces_of (ts_replay ts) n \<and>
      get_snapshot n (ts_store ts') = get_snapshot n (ts_store ts)" by blast
qed

text \<open>A list of honest messages: signed by the node's key for valid snapshots, numbered upwards.\<close>

definition honest :: "platform \<Rightarrow> str \<Rightarrow> bytes \<Rightarrow> NodeTelemetrySnapshot \<times> SignedTelemetryEnvelope \<Rightarrow> bool" where
  "honest pl n sk = (\<lambda>(snap, env). \<exists>st st'. sign_telemetry pl (ve_nonce env) (ve_timestamp env) snap st = (env, st') \<and>
     st_signing_key st = sk \<and> n_node_id (st_node st) = n \<and> s_node_id snap = n \<and> valid_NodeTelemetrySnapshot snap)"

text \<open>It arrives in time, while the node's key is registered.\<close>

definition arrives :: "platform \<Rightarrow> str \<Rightarrow> bytes \<Rightarrow> pyfloat \<Rightarrow> NodeTelemetrySnapshot \<times> SignedTelemetryEnvelope \<Rightarrow>
    pyfloat \<times> etcd \<times> SignedTelemetryEnvelope \<Rightarrow> bool" where
  "arrives pl n sk skew = (\<lambda>(snap, env) (now, e, env'). env' = env \<and>
     etcd_get (key_member n) e = Some (ed_pem (pl_crypto pl) sk) \<and>
     now \<le> ve_expires_at env \<and> ve_timestamp env \<le> fadd now skew)"

lemma honest_step:
  assumes "signing_ok (pl_crypto pl)" "float_text_ok (ftext (pl_crypto pl))" "ed_pem (pl_crypto pl) sk \<noteq> []"
    and "honest pl n sk (snap, env)" "snapshot_floats snap"
    and "arrives pl n sk (max_clock_skew_seconds (ts_replay ts)) (snap, env) (now, e, env)"
    and "highest_seq (ts_replay ts) n < ve_sequence_number env" "ve_nonce env \<notin> nonces_of (ts_replay ts) n"
  shows "\<exists>ts'. stream_message (pl_crypto pl) now e env ts = (Inr True, ts') \<and>
    get_snapshot n (ts_store ts') = Some (as_received snap) \<and>
    highest_seq (ts_replay ts') n = ve_sequence_number env \<and>
    nonces_of (ts_replay ts') n \<subseteq> insert (ve_nonce env) (nonces_of (ts_replay ts) n)"
proof -
  obtain st st' where s: "sign_telemetry pl (ve_nonce env) (ve_timestamp env) snap st = (env, st')"
    and k: "st_signing_key st = sk" "n_node_id (st_node st) = n" "s_node_id snap = n" "valid_NodeTelemetrySnapshot snap"
    using assms(4) by (auto simp: honest_def)
  note d = sign_telemetryD [OF s]
  obtain ts' where m: "stream_message (pl_crypto pl) now e env ts = (Inr True, ts')"
    and g: "get_snapshot n (ts_store ts') = Some (as_received snap)"
      "highest_seq (ts_replay ts') n = ve_sequence_number env"
    using honest_message_accepted [OF assms(1,2) k(4) assms(5) _ s, of e now ts] assms(3,6-8) k d
    by (auto simp: arrives_def)
  have "nonces_of (ts_replay ts') n \<subseteq> insert (ve_nonce env) (nonces_of (ts_replay ts) n)"
    using validate_TrueD(6) [OF stream_message_accepted [OF m], of n] d(6) k(2)
    by (auto simp: add_nonce_def Let_def split: if_splits)
  then show ?thesis using m g by blast
qed

lemma serve_honest:
  assumes "signing_ok (pl_crypto pl)" "float_text_ok (ftext (pl_crypto pl))" "ed_pem (pl_crypto pl) sk \<noteq> []"
  shows "list_all2 (arrives pl n sk (max_clock_skew_seconds (ts_replay ts))) hs
      (filter (\<lambda>(now, e, env). ve_node_id env = n) arrivals) \<Longrightarrow>
    list_all (honest pl n sk) hs \<Longrightarrow> list_all (\<lambda>(snap, env). snapshot_floats snap) hs \<Longrightarrow>
    sorted_wrt (<) (map (ve_sequence_number \<circ> snd) hs) \<Longrightarrow> distinct (map (ve_nonce \<circ> snd) hs) \<Longrightarrow>
    \<forall>(snap, env)\<in>set hs. highest_seq (ts_replay ts) n < ve_sequence_number env \<and> ve_nonce env \<notin> nonces_of (ts_replay ts) n \<Longrightarrow>
    serve_streams (pl_crypto pl) arrivals ts = (rs, ts') \<Longrightarrow>
    (\<forall>(env, r)\<in>set rs. ve_node_id env = n \<longrightarrow> r = Inr True) \<and>
    get_snapshot n (ts_store ts') = (if hs = [] then get_snapshot n (ts_store ts) else Some (as_received (fst (last hs)))) \<and>
    highest_seq (ts_replay ts') n = (if hs = [] then highest_seq (ts_replay ts) n else ve_sequence_number (snd (last hs)))"
proof (induction arrivals arbitrary: hs ts rs ts')
  case Nil
  then show ?case by simp
next
  case (Cons a arrivals)
  obtain now e env where a: "a = (now, e, env)" by (cases a)
  obtain r ts1 where m: "stream_message (pl_crypto pl) now e env ts = (r, ts1)" by fastforce
  obtain rs1 where rs: "rs = (env, r) # rs1" "serve_streams (pl_crypto pl) arrivals ts1 = (rs1, ts')"
    using Cons.prems(7) by (auto simp: a m split: prod.splits)
  note frame = stream_message_frame [OF m]
  show ?case
  proof (cases "ve_node_id env = n")
    case False
    then show ?thesis using Cons.IH [OF _ Cons.prems(2-5) _ rs(2)] Cons.prems(1,6) frame(1) frame(2) [of n]
      by (auto simp: a rs(1))
  next
    case True
    obtain snap hs' where hs: "hs = (snap, env) # hs'"
      and arr: "arrives pl n sk (max_clock_skew_seconds (ts_replay ts)) (snap, env) (now, e, env)"
      and rest: "list_all2 (arrives pl n sk (max_clock_skew_seconds (ts_replay ts1))) hs'
        (filter (\<lambda>(now, e, env). ve_node_id env = n) arrivals)"
      using Cons.prems(1) True frame(1) by (auto simp: a list_all2_Cons2) (auto simp: arrives_def)
    obtain ts2 where h: "stream_message (pl_crypto pl) now e env ts = (Inr True, ts2)"
      "get_snapshot n (ts_store ts2) = Some (as_received snap)"
      "highest_seq (ts_replay ts2) n = ve_sequence_number env"
      "nonces_of (ts_replay ts2) n \<subseteq> insert (ve_nonce env) (nonces_of (ts_replay ts) n)"
      using honest_step [OF assms _ _ arr] Cons.prems(2,3,6) hs by auto
    then have r: "r = Inr True" "ts2 = ts1" using m by simp_all
    have "highest_seq (ts_replay ts1) n < ve_sequence_number env' \<and> ve_nonce env' \<notin> nonces_of (ts_replay ts1) n"
      if "(snap', env') \<in> set hs'" for snap' env'
      using that Cons.prems(4-6) h(3,4) r(2) hs by force
    then have fresh: "\<forall>(snap', env')\<in>set hs'. highest_seq (ts_replay ts1) n < ve_sequence_number env' \<and>
        ve_nonce env' \<notin> nonces_of (ts_replay ts1) n" by blast
    have "(\<forall>(env, r)\<in>set rs1. ve_node_id env = n \<longrightarrow> r = Inr True) \<and>
        get_snapshot n (ts_store ts') = (if hs' = [] then get_snapshot n (ts_store ts1) else Some (as_received (fst (last hs')))) \<and>
        highest_seq (ts_replay ts') n = (if hs' = [] then highest_seq (ts_replay ts1) n else ve_sequence_number (snd (last hs')))"
      using Cons.prems(2-5) hs by (intro Cons.IH [OF rest _ _ _ _ fresh rs(2)]) simp_all
    then show ?thesis using h(2,3) by (cases "hs' = []") (simp_all add: r hs rs(1))
  qed
qed

lemma client_run_honest:
  assumes "client_run pl c evs c'"
  shows "list_all (honest pl (n_node_id (st_node (cl_streamer c))) (st_signing_key (cl_streamer c))) (delivered evs)"
  using assms
proof (induction rule: client_run.induct)
  case (step c ev c1 evs c2)
  have "same_keys c c1" using step.hyps(1) by (rule client_step_keys)
  moreover have "honest pl (n_node_id (st_node (cl_streamer c))) (st_signing_key (cl_streamer c)) (snap, env)"
    if ev: "ev = Sent snap env" for snap env
  proof -
    obtain nonce emitted now where g: "generate_message pl nonce emitted now c = Inr ((snap, env), c1)"
      using step.hyps(1) by (auto simp: ev client_step_iffs)
    note s = generate_messageD [OF g]
    have "s_node_id snap = n_node_id (st_node (cl_streamer c))" "valid_NodeTelemetrySnapshot snap"
      using s(1) by (auto simp: emit_snapshot_def mk_NodeTelemetrySnapshot_def split: if_splits)
    then show ?thesis using s(2) sign_telemetryD(7,8) [OF s(2)] by (auto simp: honest_def)
  qed
  ultimately show ?case using step.IH by (cases ev) (simp_all add: same_keys_def same_identity_def)
qed simp


text \<open>Below the mark of the replay check every message is dropped.\<close>

lemma stream_message_low:
  assumes "ve_sequence_number env \<le> highest_seq (ts_replay ts) (ve_node_id env)"
    and "stream_message cr now e env ts = (r, ts')"
  shows "r \<noteq> Inr True \<and> ts_store ts' = ts_store ts \<and> highest_seq (ts_replay ts') = highest_seq (ts_replay ts)"
proof -
  have v: "validate_and_record (ve_node_id env) (ve_sequence_number env) (ve_nonce env) (ve_timestamp env)
      (ve_expires_at env) now (ts_replay ts) = (False, ts_replay ts)"
    using assms(1) by (simp add: validate_and_record_def)
  then show ?thesis
    using assms(2) by (auto simp: stream_message_def Let_def split: if_splits sum.splits)
qed

lemma serve_low:
  "\<forall>(now, e, env)\<in>set arrivals. ve_node_id env = n \<longrightarrow> ve_sequence_number env \<le> highest_seq (ts_replay ts) n \<Longrightarrow>
    serve_streams cr arrivals ts = (rs, ts') \<Longrightarrow>
    (\<forall>(env, r)\<in>set rs. ve_node_id env = n \<longrightarrow> r \<noteq> Inr True) \<and> get_snapshot n (ts_store ts') = get_snapshot n (ts_store ts)"
proof (induction arrivals arbitrary: ts rs ts')
  case (Cons a arrivals)
  obtain now e env where a: "a = (now, e, env)" by (cases a)
  obtain r ts1 where m: "stream_message cr now e env ts = (r, ts1)" by fastforce
  obtain rs1 where rs: "rs = (env, r) # rs1" "serve_streams cr arrivals ts1 = (rs1, ts')"
    using Cons.prems(2) by (auto simp: a m split: prod.splits)
  have one: "highest_seq (ts_replay ts1) n = highest_seq (ts_replay ts) n \<and>
      get_snapshot n (ts_store ts1) = get_snapshot n (ts_store ts) \<and> (ve_node_id env = n \<longrightarrow> r \<noteq> Inr True)"
    using stream_message_frame(2) [OF m, of n] stream_message_low [OF _ m] Cons.prems(1)
    by (cases "ve_node_id env = n") (auto simp: a)
  then show ?case using Cons.IH [OF _ rs(2)] Cons.prems(1) by (simp add: rs(1))
qed simp

section \<open>When the thread is silent\<close>

lemma stopped_step:
  "client_step pl c ev c' \<Longrightarrow> cl_stop_event c \<Longrightarrow> ev \<noteq> Start \<Longrightarrow> cl_stop_event c' \<and> messages_signed [ev] = []"
  by (induction rule: client_step.induct) (auto simp: client_ops)

lemma stopped_run:
  "client_run pl c evs c' \<Longrightarrow> cl_stop_event c \<Longrightarrow> Start \<notin> set evs \<Longrightarrow> cl_stop_event c' \<and> messages_signed evs = []"
proof (induction rule: client_run.induct)
  case (step c ev c1 evs c2)
  then show ?case using stopped_step [OF step.hyps(1)] by (auto simp: signed_Cons [of ev evs])
qed simp

text \<open>While it streams, the last registration was answered with success and nothing has ended the call since.\<close>

definition streaming_since :: "client_event list \<Rightarrow> bool" where
  "streaming_since evs \<longleftrightarrow> (\<exists>before resp after. evs = before @ Registration resp # after \<and>
     rp_status resp = ''success'' \<and> Stream_ended \<notin> set after \<and> (\<forall>ex. Call_failed ex \<notin> set after))"

lemma streaming_since_snoc:
  "streaming_since evs \<Longrightarrow> ev \<noteq> Stream_ended \<Longrightarrow> (\<forall>ex. ev \<noteq> Call_failed ex) \<Longrightarrow> streaming_since (evs @ [ev])"
  unfolding streaming_since_def
proof (elim exE conjE)
  fix before resp after
  assume "evs = before @ Registration resp # after" "rp_status resp = ''success''" "Stream_ended \<notin> set after"
    "\<forall>ex. Call_failed ex \<notin> set after" "ev \<noteq> Stream_ended" "\<forall>ex. ev \<noteq> Call_failed ex"
  then show "\<exists>before resp after. evs @ [ev] = before @ Registration resp # after \<and> rp_status resp = ''success'' \<and>
      Stream_ended \<notin> set after \<and> (\<forall>ex. Call_failed ex \<notin> set after)"
    by (intro exI [of _ before] exI [of _ resp] exI [of _ "after @ [ev]"]) auto
qed

lemma streaming_since_now: "rp_status resp = ''success'' \<Longrightarrow> streaming_since (evs @ [Registration resp])"
  unfolding streaming_since_def by (intro exI [of _ evs] exI [of _ resp] exI [of _ "[]"]) simp

lemma phase_streaming:
  assumes "client_run pl (new_client pl node) evs c" "cl_phase c = Streaming"
  shows "streaming_since evs"
  using assms
proof (induction evs arbitrary: c rule: rev_induct)
  case Nil
  then show ?case by (simp add: new_client_def)
next
  case (snoc ev evs)
  obtain c1 where r: "client_run pl (new_client pl node) evs c1" and s: "client_step pl c1 ev c"
    using snoc.prems(1) by (auto simp: client_run_append)
  have "streaming_since evs \<and> ev \<noteq> Stream_ended \<and> (\<forall>ex. ev \<noteq> Call_failed ex) \<or>
      (\<exists>resp. ev = Registration resp \<and> rp_status resp = ''success'')"
    using s snoc.prems(2) snoc.IH [OF r]
    by (induction rule: client_step.induct)
      (auto simp: client_ops dest!: generate_message_frame(1) split: if_splits)
  then show ?case using streaming_since_snoc streaming_since_now by blast
qed


section \<open>Sample values\<close>

definition accepting :: NodeRegistrationResponse where
  "accepting = \<lparr>rp_status = ''success'', rp_message = ''Node registered successfully.''\<rparr>"

text \<open>A client that has started, registered and sent one message.\<close>

lemma sample_session:
  "\<exists>snap env c. client_run sample_platform (new_client sample_platform sample_worker_node)
     [Start, Loop_test, Registration accepting, Sent snap env] c \<and> snapshot_floats snap \<and>
     cl_phase c = Streaming \<and> ve_timestamp env = 0 \<and> ve_sequence_number env = 1"
proof -
  let ?c = "registration_answer accepting (loop_test (start_streamer (new_client sample_platform sample_worker_node)))"
  have c: "cl_phase ?c = Streaming" "\<not> cl_stop_event ?c" "st_node (cl_streamer ?c) = sample_worker_node"
    "seq_of ?c = 0"
    by (simp_all add: client_ops accepting_def new_client_def new_TelemetryStreamer_def)
  have f: "fl (1 / 1000) \<le> 100" "fsub 0 0 = 0" "fmul 0 1000 = 0" "fl 10 = 10" "fl 100 = 100" "fl 20 = 20" "fl 30 = 30"
    by code_simp+
  obtain snap where e: "emit_snapshot None 0 sample_worker_node = Inr snap" "snapshot_floats snap"
    by (simp add: emit_snapshot_def mk_NodeTelemetrySnapshot_def valid_NodeTelemetrySnapshot_def snapshot_floats_def
        sample_worker_node_def new_SimulatedNode_def f is_float_def)
  obtain env st where s: "sign_telemetry sample_platform ''n1'' 0 snap (cl_streamer ?c) = (env, st)" by fastforce
  have g: "generate_message sample_platform ''n1'' 0 0 ?c = Inr ((snap, env), ?c\<lparr>cl_streamer := st\<rparr>)"
    using e s c(3) by (simp add: generate_message_def)
  let ?new = "new_client sample_platform sample_worker_node"
  have "client_step sample_platform ?new Start (start_streamer ?new)" by (rule client_step.start)
  moreover have "client_step sample_platform (start_streamer ?new) Loop_test (loop_test (start_streamer ?new))"
    by (rule client_step.test) (simp add: client_ops new_client_def)
  moreover have "client_step sample_platform (loop_test (start_streamer ?new)) (Registration accepting) ?c"
    by (rule client_step.answer) (simp add: client_ops new_client_def)
  moreover have "client_step sample_platform ?c (Sent snap env) (?c\<lparr>cl_streamer := st\<rparr>)"
    using c(1,2) g by (rule client_step.sent)
  ultimately have "client_run sample_platform ?new
      [Start, Loop_test, Registration accepting, Sent snap env] (?c\<lparr>cl_streamer := st\<rparr>)"
    by (blast intro: client_run.intros)
  moreover have "cl_phase (?c\<lparr>cl_streamer := st\<rparr>) = Streaming" using c(1) by simp
  moreover have "ve_timestamp env = 0" "ve_sequence_number env = 1" using sign_telemetryD(5,8) [OF s] c(4) by simp_all
  ultimately show ?thesis using e(2) by blast
qed

section \<open>Properties\<close>

text \<open>
  C19: one stream of telemetry, however often the connection breaks. From its creation on,
  through failures, reconnections, stops and starts, a streamer numbers the messages it signs
  1, 2, 3 and so on, and chains each to the one before it; what reaches the control plane is a
  subsequence, each message signed with the node's key for a snapshot of this node that
  satisfies the field constraints.
\<close>

theorem one_stream_of_telemetry:
  assumes "client_run pl (new_client pl node) evs c"
  shows "map ve_sequence_number (messages_signed evs) = [1 .. seq_of c] \<and>
    hash_chain (pl_crypto pl) [] (messages_signed evs) \<and> subseq (map snd (delivered evs)) (messages_signed evs) \<and>
    (\<forall>(snap, env)\<in>set (delivered evs). ve_node_id env = n_node_id node \<and> s_node_id snap = n_node_id node \<and>
       valid_NodeTelemetrySnapshot snap \<and>
       ve_signature env = ed_sign (pl_crypto pl) (n_signing_key node) (ve_payload_json env))"
proof (intro conjI ballI)
  have new: "seq_of (new_client pl node) = 0" "st_previous_hash (cl_streamer (new_client pl node)) = []"
    "n_node_id (st_node (cl_streamer (new_client pl node))) = n_node_id node"
    "st_signing_key (cl_streamer (new_client pl node)) = n_signing_key node"
    by (simp_all add: new_client_def new_TelemetryStreamer_def)
  show "map ve_sequence_number (messages_signed evs) = [1 .. seq_of c]" using client_run_seq [OF assms] new by simp
  show "hash_chain (pl_crypto pl) [] (messages_signed evs)" using client_run_chain [OF assms] new by simp
  show "subseq (map snd (delivered evs)) (messages_signed evs)" by (rule delivered_subseq)
  fix x assume "x \<in> set (delivered evs)"
  then have "honest pl (n_node_id node) (n_signing_key node) x"
    using client_run_honest [OF assms] new by (simp add: list_all_iff)
  then show "case x of (snap, env) \<Rightarrow> ve_node_id env = n_node_id node \<and> s_node_id snap = n_node_id node \<and>
      valid_NodeTelemetrySnapshot snap \<and>
      ve_signature env = ed_sign (pl_crypto pl) (n_signing_key node) (ve_payload_json env)"
    by (auto simp: honest_def dest: sign_telemetryD(6,10))
qed

theorem one_stream_of_telemetry_witness:
  "\<exists>snap env c. client_run sample_platform (new_client sample_platform sample_worker_node)
     [Start, Loop_test, Registration accepting, Sent snap env] c \<and> seq_of c = 1 \<and> ve_node_id env = ''edge-1''"
proof -
  obtain snap env c where r: "client_run sample_platform (new_client sample_platform sample_worker_node)
      [Start, Loop_test, Registration accepting, Sent snap env] c" and n: "ve_sequence_number env = 1"
    using sample_session by blast
  have "[1] = [1 .. seq_of c]" "ve_node_id env = ''edge-1''"
    using one_stream_of_telemetry [OF r] n by (simp_all add: sample_worker_node_def new_SimulatedNode_def)
  then have "seq_of c = 1" by (cases "seq_of c \<ge> 1") (auto simp: upto.simps [of 1] upto.simps [of 2] split: if_splits)
  then show ?thesis using r \<open>ve_node_id env = ''edge-1''\<close> by blast
qed

text \<open>
  C18: the telemetry of an honest node is accepted. Take any run of a node's streamer and any
  arrival of its delivered messages at the control plane, in order, mixed in any way with the
  messages of other nodes, whatever these contain: if the node's key stays registered, its
  nonces are new, the clocks agree within the limits and the streamer's numbers are above the
  mark, each of the messages is accepted, and in the end the store holds the last snapshot.
\<close>

theorem honest_stream_accepted:
  assumes "signing_ok (pl_crypto pl)" "float_text_ok (ftext (pl_crypto pl))" "ed_pem (pl_crypto pl) sk \<noteq> []"
    and "client_run pl c evs c'" "sk = st_signing_key (cl_streamer c)" "n = n_node_id (st_node (cl_streamer c))"
    and "\<forall>(snap, env)\<in>set (delivered evs). snapshot_floats snap \<and> ve_nonce env \<notin> nonces_of (ts_replay ts) n"
    and "distinct (map (ve_nonce \<circ> snd) (delivered evs))" "highest_seq (ts_replay ts) n \<le> seq_of c"
    and "list_all2 (arrives pl n sk (max_clock_skew_seconds (ts_replay ts))) (delivered evs)
       (filter (\<lambda>(now, e, env). ve_node_id env = n) arrivals)"
    and "serve_streams (pl_crypto pl) arrivals ts = (rs, ts')"
  shows "(\<forall>(env, r)\<in>set rs. ve_node_id env = n \<longrightarrow> r = Inr True) \<and>
    (delivered evs \<noteq> [] \<longrightarrow> get_snapshot n (ts_store ts') = Some (as_received (fst (last (delivered evs)))))"
proof -
  have sorted: "sorted_wrt (<) (map ve_sequence_number (map snd (delivered evs)))"
    and above: "\<forall>env\<in>set (map snd (delivered evs)). seq_of c < ve_sequence_number env"
  proof -
    have "subseq (map ve_sequence_number (map snd (delivered evs))) [seq_of c + 1 .. seq_of c']"
      using client_run_seq [OF assms(4)] subseq_map [OF delivered_subseq] by metis
    moreover have "sorted_wrt (<) [seq_of c + 1 .. seq_of c']" by (rule sorted_wrt_upto)
    ultimately show "sorted_wrt (<) (map ve_sequence_number (map snd (delivered evs)))"
      by (metis sorted_wrt_subseq)
    show "\<forall>env\<in>set (map snd (delivered evs)). seq_of c < ve_sequence_number env"
    proof
      fix env assume "env \<in> set (map snd (delivered evs))"
      then have "ve_sequence_number env \<in> set (map ve_sequence_number (messages_signed evs))"
        using subseq_set [OF delivered_subseq] by simp
      then show "seq_of c < ve_sequence_number env" using client_run_seq [OF assms(4)] by simp
    qed
  qed
  have hs: "list_all (honest pl n sk) (delivered evs)" using client_run_honest [OF assms(4)] assms(5,6) by simp
  have fl: "list_all (\<lambda>(snap, env). snapshot_floats snap) (delivered evs)" using assms(7) by (auto simp: list_all_iff)
  have fresh: "\<forall>(snap, env)\<in>set (delivered evs). highest_seq (ts_replay ts) n < ve_sequence_number env \<and>
      ve_nonce env \<notin> nonces_of (ts_replay ts) n"
    using above assms(7,9) by fastforce
  show ?thesis
    using serve_honest [OF assms(1-3,10) hs fl _ assms(8) fresh assms(11)] sorted by (auto simp: comp_def)
qed


theorem honest_stream_accepted_witness:
  "\<exists>snap env ts'. serve_streams toy_crypto [(0, sample_registry, env)] sample_service = ([(env, Inr True)], ts') \<and>
     get_snapshot ''edge-1'' (ts_store ts') = Some (as_received snap)"
proof -
  let ?c = "new_client sample_platform sample_worker_node"
  obtain snap env c where r: "client_run sample_platform ?c [Start, Loop_test, Registration accepting, Sent snap env] c"
    and f: "snapshot_floats snap" and t: "ve_timestamp env = 0" "ve_sequence_number env = 1"
    using sample_session by blast
  obtain rs ts' where s: "serve_streams toy_crypto [(0, sample_registry, env)] sample_service = (rs, ts')" by fastforce
  obtain x where rs: "rs = [(env, x)]" using s by (auto split: prod.splits)
  have k: "st_signing_key (cl_streamer ?c) = [9]" "n_node_id (st_node (cl_streamer ?c)) = ''edge-1''" "seq_of ?c = 0"
    by (simp_all add: new_client_def new_TelemetryStreamer_def sample_worker_node_def new_SimulatedNode_def)
  have h: "honest sample_platform ''edge-1'' [9] (snap, env)" using client_run_honest [OF r] k by simp
  then have e: "ve_expires_at env = fadd 0 10" "ve_node_id env = ''edge-1''"
    using t(1) by (auto simp: honest_def dest: sign_telemetryD(6,9))
  have "(\<forall>(env, r)\<in>set rs. ve_node_id env = ''edge-1'' \<longrightarrow> r = Inr True) \<and>
      (delivered [Start, Loop_test, Registration accepting, Sent snap env] \<noteq> [] \<longrightarrow>
       get_snapshot ''edge-1'' (ts_store ts') = Some (as_received (fst (last
         (delivered [Start, Loop_test, Registration accepting, Sent snap env])))))"
    by (rule honest_stream_accepted [OF _ _ _ r, where sk = "[9]" and ts = sample_service and
        arrivals = "[(0, sample_registry, env)]"])
      (insert s, simp_all add: k f t e arrives_def sample_facts toy_ok)
  then show ?thesis using s rs e(2) by auto
qed

text \<open>
  A restarted node is not heard. A node process that restarts numbers its messages from
  1, while the control plane keeps the highest number the node's earlier life reached. Until
  the new streamer has signed more messages than that, none of its messages is recorded, in
  whatever order and with whatever others they arrive, and the store keeps the snapshot of
  before the restart.
\<close>

lemma restarted_node_not_heard:
  assumes "client_run pl (new_client pl node) evs c" "int (length (messages_signed evs)) \<le> highest_seq (ts_replay ts) (n_node_id node)"
    and "\<forall>(now, e, env)\<in>set arrivals. ve_node_id env = n_node_id node \<longrightarrow> env \<in> set (map snd (delivered evs))"
    and "serve_streams (pl_crypto pl) arrivals ts = (rs, ts')"
  shows "(\<forall>(env, r)\<in>set rs. ve_node_id env = n_node_id node \<longrightarrow> r \<noteq> Inr True) \<and>
    get_snapshot (n_node_id node) (ts_store ts') = get_snapshot (n_node_id node) (ts_store ts)"
proof (rule serve_low [OF _ assms(4)])
  have n: "seq_of (new_client pl node) = 0" by (simp add: new_client_def new_TelemetryStreamer_def)
  have seqs: "map ve_sequence_number (messages_signed evs) = [1 .. seq_of c]" using client_run_seq [OF assms(1)] n by simp
  then have len: "seq_of c \<le> int (length (messages_signed evs))" by (metis length_map length_upto diff_add_cancel nat_le_iff order_refl)
  have "ve_sequence_number env \<le> seq_of c" if "env \<in> set (map snd (delivered evs))" for env
  proof -
    have "ve_sequence_number env \<in> set (map ve_sequence_number (messages_signed evs))"
      using subseq_set [OF delivered_subseq that] by simp
    then show ?thesis by (simp add: seqs)
  qed
  then show "\<forall>(now, e, env)\<in>set arrivals. ve_node_id env = n_node_id node \<longrightarrow>
      ve_sequence_number env \<le> highest_seq (ts_replay ts) (n_node_id node)"
    using assms(2,3) len by fastforce
qed

text \<open>
  Telemetry follows registration. Whenever a streamer delivers a message, its last
  registration was answered with success and the call has neither failed nor ended since; and
  a rejected registration silences it until \<open>start\<close> is called again, while a call that fails
  is followed by a new registration.
\<close>

lemma registers_before_streaming:
  assumes "client_run pl (new_client pl node) (evs @ [ev]) c"
  shows "(ev = Sent snap env \<longrightarrow> streaming_since evs) \<and>
    (ev = Registration resp \<and> rp_status resp \<noteq> ''success'' \<and> client_run pl c later c' \<and> Start \<notin> set later \<longrightarrow>
       messages_signed later = []) \<and>
    (ev = Call_failed ex \<and> \<not> cl_stop_event c \<longrightarrow>
       (\<exists>c'. client_run pl c [Wait_over, Loop_test] c' \<and> cl_phase c' = Registering))"
proof -
  obtain c1 where r: "client_run pl (new_client pl node) evs c1" and s: "client_step pl c1 ev c"
    using assms by (auto simp: client_run_append)
  show ?thesis
  proof (intro conjI impI; (elim conjE)?)
    show "streaming_since evs" if "ev = Sent snap env"
      using s r phase_streaming by (auto simp: that client_step_iffs)
    show "messages_signed later = []" if "ev = Registration resp" "rp_status resp \<noteq> ''success''"
      "client_run pl c later c'" "Start \<notin> set later"
    proof -
      have "cl_stop_event c" using s that(1,2) by (auto simp: client_step_iffs client_ops)
      then show ?thesis using stopped_run that(3,4) by blast
    qed
    show "\<exists>c'. client_run pl c [Wait_over, Loop_test] c' \<and> cl_phase c' = Registering"
      if "ev = Call_failed ex" "\<not> cl_stop_event c"
      using s that by (auto simp: client_step_iffs client_ops)
  qed
qed

text \<open>
  A start after a stop that timed out is lost. \<open>stop\<close> sets the event and waits at most two
  seconds for the thread; if the thread is still alive (in a call or in its five second wait),
  a following \<open>start\<close> finds it alive and does nothing. The event stays set: the streamer
  never signs another message until \<open>start\<close> is called once more.
\<close>

lemma start_lost_after_stop:
  assumes "cl_phase c \<noteq> Not_running" "client_run pl (start_streamer (stop_streamer c)) evs c'" "Start \<notin> set evs"
  shows "messages_signed evs = [] \<and> cl_stop_event c' \<and> (cl_phase c' = Testing \<longrightarrow> cl_phase (loop_test c') = Not_running)"
proof -
  have "cl_stop_event (start_streamer (stop_streamer c))" using assms(1) by (simp add: client_ops)
  then show ?thesis using stopped_run [OF assms(2) _ assms(3)] by (simp add: client_ops)
qed

end
