(* ===== verification/Identity.thy ===== *)
theory Identity
  imports TelemetryClient
begin

text \<open>
  Workload identities: the shared simulated CA and the SVIDs it signs (\<open>common/identity.py\<close>)
  and the TLS credentials made of them (\<open>common/tls.py\<close>).

  The \<open>cryptography\<close> package and the authentication context of gRPC are the fields of a
  record \<open>x509_lib\<close>; what the code relies on of them are the laws \<open>x509_ok\<close>. Times are
  whole seconds since the epoch, which is what a certificate stores: \<open>ci_utcnow\<close> is a reading of
  the clock rounded down, and adding whole minutes before rounding down is the same. The directory \<open>.secret\<close> is a record of two files. Two
  processes may look for the CA at the same time: \<open>ca_step\<close> has the accesses to the
  directory one by one (opening a file and writing it is one access), and \<open>get_or_create_shared_ca\<close> is the run of one process alone.
\<close>

section \<open>Certificates\<close>

record certificate =
  ce_subject :: str
  ce_issuer :: str
  ce_public_key :: bytes
  ce_serial_number :: int
  ce_not_before :: int
  ce_not_after :: int
  ce_is_ca :: bool
  ce_uris :: "str list"
  ce_dns_names :: "str list"
  ce_ip_addresses :: "str list"

text \<open>
  The library: the public half of a key, the PEM writers and readers, the checks of names and
  of the builder, the signed PEM text of a certificate, the check of a certificate's
  signature, and the authentication context a server sees of a peer with this certificate.
\<close>

record x509_lib =
  x5_public :: "bytes \<Rightarrow> bytes"
  x5_key_pem :: "bytes \<Rightarrow> bytes"
  x5_load_key :: "bytes \<Rightarrow> exc + bytes"
  x5_build :: "certificate \<Rightarrow> exc + certificate"
  x5_sign :: "bytes \<Rightarrow> certificate \<Rightarrow> bytes"
  x5_load_cert :: "bytes \<Rightarrow> exc + certificate"
  x5_verify :: "bytes \<Rightarrow> bytes \<Rightarrow> bool"
  x5_peer :: "certificate \<Rightarrow> auth_context"

definition MINUTES :: int where "MINUTES = 60"

text \<open>What is drawn or read while a certificate is made: the new key, the serial number, two clock readings.\<close>

record cert_inputs =
  ci_key :: bytes
  ci_serial :: int
  ci_utcnow :: int
  ci_utcnow2 :: int

section \<open>The certificate authority\<close>

definition generate_ca :: "x509_lib \<Rightarrow> cert_inputs \<Rightarrow> exc + (bytes \<times> bytes)" where
  "generate_ca lib i =
     rbind (x5_build lib
       \<lparr>ce_subject = ''SPIFFE Simulated CA (distributed-ai.local)'',
        ce_issuer = ''SPIFFE Simulated CA (distributed-ai.local)'',
        ce_public_key = x5_public lib (ci_key i), ce_serial_number = ci_serial i,
        ce_not_before = ci_utcnow i - 5 * MINUTES, ce_not_after = ci_utcnow2 i + 24 * 60 * MINUTES,
        ce_is_ca = True, ce_uris = [], ce_dns_names = [], ce_ip_addresses = []\<rparr>) (\<lambda>cert.
     Inr (x5_key_pem lib (ci_key i), x5_sign lib (ci_key i) cert))"

record secret_dir =
  sd_key :: "bytes option"
  sd_cert :: "bytes option"

definition get_or_create_shared_ca ::
    "x509_lib \<Rightarrow> cert_inputs \<Rightarrow> secret_dir \<Rightarrow> (exc + (bytes \<times> bytes)) \<times> secret_dir" where
  "get_or_create_shared_ca lib i dir =
     (case (sd_key dir, sd_cert dir) of
        (Some key_bytes, Some cert_bytes) \<Rightarrow> (Inr (key_bytes, cert_bytes), dir)
      | _ \<Rightarrow>
          (case generate_ca lib i of
             Inl ex \<Rightarrow> (Inl ex, dir)
           | Inr (key_bytes, cert_bytes) \<Rightarrow>
               (Inr (key_bytes, cert_bytes), dir\<lparr>sd_key := Some key_bytes, sd_cert := Some cert_bytes\<rparr>)))"

text \<open>The same function, one access to the directory at a time.\<close>

datatype ca_process =
  Looking cert_inputs
| Reading_key
| Reading_cert bytes
| Writing_key bytes bytes
| Writing_cert bytes bytes
| Has_ca bytes bytes
| Failed exc

fun ca_step :: "x509_lib \<Rightarrow> ca_process \<Rightarrow> secret_dir \<Rightarrow> ca_process \<times> secret_dir" where
  "ca_step lib (Looking i) dir =
     (if sd_key dir \<noteq> None \<and> sd_cert dir \<noteq> None then (Reading_key, dir)
      else (case generate_ca lib i of
        Inl ex \<Rightarrow> (Failed ex, dir)
      | Inr (key_bytes, cert_bytes) \<Rightarrow> (Writing_key key_bytes cert_bytes, dir)))"
| "ca_step lib Reading_key dir =
     (case sd_key dir of None \<Rightarrow> (Failed (py_exc OSErrorClass []), dir) | Some k \<Rightarrow> (Reading_cert k, dir))"
| "ca_step lib (Reading_cert k) dir =
     (case sd_cert dir of None \<Rightarrow> (Failed (py_exc OSErrorClass []), dir) | Some c \<Rightarrow> (Has_ca k c, dir))"
| "ca_step lib (Writing_key k c) dir = (Writing_cert k c, dir\<lparr>sd_key := Some k\<rparr>)"
| "ca_step lib (Writing_cert k c) dir = (Has_ca k c, dir\<lparr>sd_cert := Some c\<rparr>)"
| "ca_step lib (Has_ca k c) dir = (Has_ca k c, dir)"
| "ca_step lib (Failed ex) dir = (Failed ex, dir)"

text \<open>A schedule names, for each step, the process that makes it.\<close>

fun ca_run :: "x509_lib \<Rightarrow> nat list \<Rightarrow> ca_process list \<times> secret_dir \<Rightarrow> ca_process list \<times> secret_dir" where
  "ca_run lib [] s = s"
| "ca_run lib (p # ps) (procs, dir) =
     (if p < length procs then
        (case ca_step lib (procs ! p) dir of (q, dir1) \<Rightarrow> ca_run lib ps (procs[p := q], dir1))
      else ca_run lib ps (procs, dir))"

section \<open>SVIDs\<close>

record SimulatedIdentityProvider =
  ip_ca_key_bytes :: bytes
  ip_ca_cert_bytes :: bytes
  ip_ca_key :: bytes

text \<open>The constructor: first the CA, then its key is loaded.\<close>

definition provider_with_ca :: "x509_lib \<Rightarrow> bytes \<times> bytes \<Rightarrow> exc + SimulatedIdentityProvider" where
  "provider_with_ca lib ca =
     rbind (x5_load_key lib (fst ca)) (\<lambda>key.
       Inr \<lparr>ip_ca_key_bytes = fst ca, ip_ca_cert_bytes = snd ca, ip_ca_key = key\<rparr>)"

definition new_SimulatedIdentityProvider ::
    "x509_lib \<Rightarrow> cert_inputs \<Rightarrow> secret_dir \<Rightarrow> (exc + SimulatedIdentityProvider) \<times> secret_dir" where
  "new_SimulatedIdentityProvider lib i dir =
     (case get_or_create_shared_ca lib i dir of
        (Inl ex, dir1) \<Rightarrow> (Inl ex, dir1)
      | (Inr ca, dir1) \<Rightarrow> (provider_with_ca lib ca, dir1))"

definition svid_certificate :: "x509_lib \<Rightarrow> cert_inputs \<Rightarrow> str \<Rightarrow> certificate \<Rightarrow> certificate" where
  "svid_certificate lib i spiffe_id ca =
     \<lparr>ce_subject = spiffe_id, ce_issuer = ce_subject ca, ce_public_key = x5_public lib (ci_key i),
      ce_serial_number = ci_serial i,
      ce_not_before = ci_utcnow i - 5 * MINUTES, ce_not_after = ci_utcnow2 i + 60 * MINUTES,
      ce_is_ca = False, ce_uris = [spiffe_id],
      ce_dns_names = [''localhost'', ''test-node-1'', ''test-node-2'', ''wrong-node''],
      ce_ip_addresses = [''127.0.0.1'', ''::1'']\<rparr>"

definition get_svid ::
    "x509_lib \<Rightarrow> cert_inputs \<Rightarrow> str \<Rightarrow> SimulatedIdentityProvider \<Rightarrow> exc + (bytes \<times> bytes \<times> bytes)" where
  "get_svid lib i spiffe_id provider =
     rbind (x5_load_cert lib (ip_ca_cert_bytes provider)) (\<lambda>ca.
     rbind (x5_build lib (svid_certificate lib i spiffe_id ca)) (\<lambda>cert.
     Inr (x5_key_pem lib (ci_key i), x5_sign lib (ip_ca_key provider) cert, ip_ca_cert_bytes provider)))"

section \<open>Credentials\<close>

record ServerCredentials =
  sc_private_key :: bytes
  sc_certificate_chain :: bytes
  sc_root_certificates :: bytes
  sc_require_client_auth :: bool

record ChannelCredentials =
  cc_private_key :: bytes
  cc_certificate_chain :: bytes
  cc_root_certificates :: bytes

definition provider_svid ::
    "x509_lib \<Rightarrow> cert_inputs \<Rightarrow> cert_inputs \<Rightarrow> str \<Rightarrow> secret_dir \<Rightarrow> (exc + (bytes \<times> bytes \<times> bytes)) \<times> secret_dir" where
  "provider_svid lib i j spiffe_id dir =
     (case new_SimulatedIdentityProvider lib i dir of
        (Inl ex, dir1) \<Rightarrow> (Inl ex, dir1)
      | (Inr provider, dir1) \<Rightarrow> (get_svid lib j spiffe_id provider, dir1))"

definition get_server_credentials ::
    "x509_lib \<Rightarrow> cert_inputs \<Rightarrow> cert_inputs \<Rightarrow> str \<Rightarrow> secret_dir \<Rightarrow> (exc + ServerCredentials) \<times> secret_dir" where
  "get_server_credentials lib i j spiffe_id dir =
     (case provider_svid lib i j spiffe_id dir of (r, dir1) \<Rightarrow>
       (rbind r (\<lambda>(server_key, server_cert, ca_cert).
          Inr \<lparr>sc_private_key = server_key, sc_certificate_chain = server_cert,
            sc_root_certificates = ca_cert, sc_require_client_auth = True\<rparr>), dir1))"

definition get_client_credentials ::
    "x509_lib \<Rightarrow> cert_inputs \<Rightarrow> cert_inputs \<Rightarrow> str \<Rightarrow> secret_dir \<Rightarrow> (exc + ChannelCredentials) \<times> secret_dir" where
  "get_client_credentials lib i j spiffe_id dir =
     (case provider_svid lib i j spiffe_id dir of (r, dir1) \<Rightarrow>
       (rbind r (\<lambda>(client_key, client_cert, ca_cert).
          Inr \<lparr>cc_private_key = client_key, cc_certificate_chain = client_cert,
            cc_root_certificates = ca_cert\<rparr>), dir1))"


section \<open>What is relied on of the library\<close>

definition ascii :: "str \<Rightarrow> bool" where
  "ascii s \<longleftrightarrow> list_all (\<lambda>c. of_char c < (128 :: nat)) s"

text \<open>
  Readers undo writers; a signature verifies under the public half of its key; a common name
  has 1 to 64 bytes (longer ones raise \<open>ValueError\<close>), a URI is ASCII, the dates are in order
  and past the epoch; what passes the builder's checks is not changed by them; a server sees the common name
  of the peer, and no URI that the certificate does not have.
\<close>

definition name_ok :: "str \<Rightarrow> bool" where
  "name_ok s \<longleftrightarrow> 1 \<le> length (encode s) \<and> length (encode s) \<le> 64"

definition x509_ok :: "x509_lib \<Rightarrow> bool" where
  "x509_ok lib \<longleftrightarrow>
     (\<forall>k. x5_load_key lib (x5_key_pem lib k) = Inr k) \<and>
     (\<forall>k c. x5_load_cert lib (x5_sign lib k c) = Inr c) \<and>
     (\<forall>k c. x5_verify lib (x5_sign lib k c) (x5_public lib k)) \<and>
     (\<forall>c. x5_build lib c = Inr c \<or> (\<exists>m. x5_build lib c = Inl (py_exc ValueErrorClass m))) \<and>
     (\<forall>c. name_ok (ce_subject c) \<and> name_ok (ce_issuer c) \<and> list_all ascii (ce_uris c) \<and> 0 \<le> ce_not_before c \<and>
        ce_not_before c \<le> ce_not_after c \<longrightarrow> x5_build lib c = Inr c) \<and>
     (\<forall>c. \<not> name_ok (ce_subject c) \<longrightarrow> x5_build lib c \<noteq> Inr c) \<and>
     (\<forall>c. x509_common_name (x5_peer lib c) = [ce_subject c] \<and> set (x509_san_uri (x5_peer lib c)) \<subseteq> set (ce_uris c))"

lemma x509D:
  assumes "x509_ok lib"
  shows "x5_load_key lib (x5_key_pem lib k) = Inr k" "x5_load_cert lib (x5_sign lib k c) = Inr c"
    "x5_verify lib (x5_sign lib k c) (x5_public lib k)"
    "x5_build lib c = Inr d \<Longrightarrow> d = c"
    "x5_build lib c = Inl ex \<Longrightarrow> exc_class ex = ValueErrorClass"
    "name_ok (ce_subject c) \<Longrightarrow> name_ok (ce_issuer c) \<Longrightarrow> list_all ascii (ce_uris c) \<Longrightarrow> 0 \<le> ce_not_before c \<Longrightarrow>
       ce_not_before c \<le> ce_not_after c \<Longrightarrow> x5_build lib c = Inr c"
    "x5_build lib c = Inr d \<Longrightarrow> name_ok (ce_subject c)"
    "x509_common_name (x5_peer lib c) = [ce_subject c]"
    "u \<in> set (x509_san_uri (x5_peer lib c)) \<Longrightarrow> u \<in> set (ce_uris c)"
proof -
  have b: "x5_build lib c = Inr c \<or> (\<exists>m. x5_build lib c = Inl (py_exc ValueErrorClass m))"
    "\<not> name_ok (ce_subject c) \<Longrightarrow> x5_build lib c \<noteq> Inr c"
    using assms by (auto simp: x509_ok_def)
  show "x5_load_key lib (x5_key_pem lib k) = Inr k" "x5_load_cert lib (x5_sign lib k c) = Inr c"
    "x5_verify lib (x5_sign lib k c) (x5_public lib k)" "x509_common_name (x5_peer lib c) = [ce_subject c]"
    "u \<in> set (x509_san_uri (x5_peer lib c)) \<Longrightarrow> u \<in> set (ce_uris c)"
    "name_ok (ce_subject c) \<Longrightarrow> name_ok (ce_issuer c) \<Longrightarrow> list_all ascii (ce_uris c) \<Longrightarrow> 0 \<le> ce_not_before c \<Longrightarrow>
       ce_not_before c \<le> ce_not_after c \<Longrightarrow> x5_build lib c = Inr c"
    using assms by (auto simp: x509_ok_def)
  show "x5_build lib c = Inr d \<Longrightarrow> d = c" "x5_build lib c = Inl ex \<Longrightarrow> exc_class ex = ValueErrorClass"
    "x5_build lib c = Inr d \<Longrightarrow> name_ok (ce_subject c)"
    using b by auto
qed

text \<open>The path check of TLS (RFC 5280) for a chain of one certificate under one root, at time \<open>t\<close>.\<close>

definition path_valid :: "x509_lib \<Rightarrow> bytes \<Rightarrow> bytes \<Rightarrow> int \<Rightarrow> bool" where
  "path_valid lib anchor leaf t \<longleftrightarrow>
     (case (x5_load_cert lib anchor, x5_load_cert lib leaf) of
        (Inr ca, Inr c) \<Rightarrow> ce_is_ca ca \<and> ce_issuer c = ce_subject ca \<and> x5_verify lib leaf (ce_public_key ca) \<and>
          ce_not_before ca \<le> t \<and> t \<le> ce_not_after ca \<and> ce_not_before c \<le> t \<and> t \<le> ce_not_after c
      | _ \<Rightarrow> False)"

section \<open>One CA for all\<close>

definition ca_pair :: "x509_lib \<Rightarrow> bytes \<Rightarrow> bytes \<Rightarrow> certificate \<Rightarrow> bool" where
  "ca_pair lib k c ca \<longleftrightarrow> (\<exists>key. k = x5_key_pem lib key \<and> c = x5_sign lib key ca \<and>
     ce_public_key ca = x5_public lib key \<and> ce_is_ca ca \<and> name_ok (ce_subject ca))"

definition dir_ok :: "x509_lib \<Rightarrow> secret_dir \<Rightarrow> bool" where
  "dir_ok lib dir \<longleftrightarrow> (\<forall>k c. sd_key dir = Some k \<and> sd_cert dir = Some c \<longrightarrow> (\<exists>ca. ca_pair lib k c ca))"

lemma generate_ca_pair:
  assumes "x509_ok lib" "generate_ca lib i = Inr (k, c)"
  shows "\<exists>ca. ca_pair lib k c ca \<and> ce_not_after ca = ci_utcnow2 i + 24 * 60 * MINUTES"
proof -
  obtain ca where b: "x5_build lib
       \<lparr>ce_subject = ''SPIFFE Simulated CA (distributed-ai.local)'',
        ce_issuer = ''SPIFFE Simulated CA (distributed-ai.local)'',
        ce_public_key = x5_public lib (ci_key i), ce_serial_number = ci_serial i,
        ce_not_before = ci_utcnow i - 5 * MINUTES, ce_not_after = ci_utcnow2 i + 24 * 60 * MINUTES,
        ce_is_ca = True, ce_uris = [], ce_dns_names = [], ce_ip_addresses = []\<rparr> = Inr ca"
    and out: "k = x5_key_pem lib (ci_key i)" "c = x5_sign lib (ci_key i) ca"
    using assms(2) by (auto simp: generate_ca_def rbind_Inr_iff)
  have "ca_pair lib k c ca"
    unfolding ca_pair_def using x509D(4) [OF assms(1) b] x509D(7) [OF assms(1) b] out
    by (intro exI [of _ "ci_key i"]) simp
  moreover have "ce_not_after ca = ci_utcnow2 i + 24 * 60 * MINUTES" using x509D(4) [OF assms(1) b] by simp
  ultimately show ?thesis by blast
qed

text \<open>Whoever gets the CA gets a key and its certificate, and from then on it is the CA of the directory.\<close>

lemma shared_ca:
  assumes "x509_ok lib" "dir_ok lib dir" "get_or_create_shared_ca lib i dir = (Inr (k, c), dir1)"
  shows "sd_key dir1 = Some k" "sd_cert dir1 = Some c" "\<exists>ca. ca_pair lib k c ca" "dir_ok lib dir1"
  using assms generate_ca_pair [OF assms(1), of i]
  by (fastforce simp: get_or_create_shared_ca_def dir_ok_def split: option.splits sum.splits)+

lemma shared_ca_again:
  "sd_key dir = Some k \<Longrightarrow> sd_cert dir = Some c \<Longrightarrow> get_or_create_shared_ca lib i dir = (Inr (k, c), dir)"
  by (simp add: get_or_create_shared_ca_def)


definition in_force :: "certificate \<Rightarrow> int \<Rightarrow> bool" where
  "in_force c t \<longleftrightarrow> ce_not_before c \<le> t \<and> t \<le> ce_not_after c"

text \<open>What \<open>get_svid\<close> hands out is a certificate of the CA in the directory.\<close>

definition issued :: "x509_lib \<Rightarrow> secret_dir \<Rightarrow> cert_inputs \<Rightarrow> str \<Rightarrow> bytes \<Rightarrow> bytes \<Rightarrow> bytes \<Rightarrow> bool" where
  "issued lib dir j spiffe_id key_pem cert root_pem \<longleftrightarrow> (\<exists>k ca. sd_key dir = Some k \<and> sd_cert dir = Some root_pem \<and>
     ca_pair lib k root_pem ca \<and> key_pem = x5_key_pem lib (ci_key j) \<and> name_ok spiffe_id \<and>
     x5_load_cert lib root_pem = Inr ca \<and> x5_load_cert lib cert = Inr (svid_certificate lib j spiffe_id ca) \<and>
     x5_verify lib cert (ce_public_key ca))"

lemma provider_svid_issued:
  assumes "x509_ok lib" "dir_ok lib dir" "provider_svid lib i j spiffe_id dir = (Inr (key, cert, root_pem), dir1)"
  shows "issued lib dir1 j spiffe_id key cert root_pem \<and> dir_ok lib dir1"
proof -
  obtain provider where p: "new_SimulatedIdentityProvider lib i dir = (Inr provider, dir1)"
    and g: "get_svid lib j spiffe_id provider = Inr (key, cert, root_pem)"
    using assms(3) by (auto simp: provider_svid_def split: prod.splits sum.splits)
  obtain k c where s: "get_or_create_shared_ca lib i dir = (Inr (k, c), dir1)"
    and l: "x5_load_key lib k = Inr (ip_ca_key provider)" "ip_ca_cert_bytes provider = c"
    using p by (auto simp: new_SimulatedIdentityProvider_def provider_with_ca_def rbind_Inr_iff split: prod.splits sum.splits)
  note sh = shared_ca [OF assms(1,2) s]
  obtain key0 ca where ca: "k = x5_key_pem lib key0" "c = x5_sign lib key0 ca" "ce_public_key ca = x5_public lib key0" "ce_is_ca ca"
    and caname: "name_ok (ce_subject ca)"
    using sh(3) by (auto simp: ca_pair_def)
  have key0: "ip_ca_key provider = key0" using l(1) ca(1) x509D(1) [OF assms(1)] by simp
  have load: "x5_load_cert lib c = Inr ca" using ca(2) x509D(2) [OF assms(1)] by simp
  obtain d where b: "x5_build lib (svid_certificate lib j spiffe_id ca) = Inr d"
    and out: "key = x5_key_pem lib (ci_key j)" "cert = x5_sign lib key0 d" "root_pem = c"
    using g by (auto simp: get_svid_def rbind_Inr_iff l(2) load key0)
  have d: "d = svid_certificate lib j spiffe_id ca" using x509D(4) [OF assms(1) b] .
  have "name_ok spiffe_id" using x509D(7) [OF assms(1) b] by (simp add: svid_certificate_def)
  then have "issued lib dir1 j spiffe_id key cert root_pem"
    using sh ca caname load out d x509D(2,3) [OF assms(1)] unfolding issued_def ca_pair_def by (metis option.inject)
  then show ?thesis using sh(4) by blast
qed

lemma issued_path:
  assumes "issued lib dir j spiffe_id key cert root_pem"
  obtains ca where "x5_load_cert lib root_pem = Inr ca" "x5_load_cert lib cert = Inr (svid_certificate lib j spiffe_id ca)"
    "\<And>t. path_valid lib root_pem cert t \<longleftrightarrow> in_force ca t \<and> in_force (svid_certificate lib j spiffe_id ca) t"
proof -
  obtain ca where "x5_load_cert lib root_pem = Inr ca" "x5_load_cert lib cert = Inr (svid_certificate lib j spiffe_id ca)"
    "x5_verify lib cert (ce_public_key ca)" "ce_is_ca ca"
    using assms by (auto simp: issued_def ca_pair_def)
  then show ?thesis by (intro that) (auto simp: path_valid_def in_force_def svid_certificate_def)
qed

lemma issued_peer:
  assumes "x509_ok lib" "startswith spiffe_id ''spiffe://distributed-ai.local/''"
  shows "extract_spiffe_id (x5_peer lib (svid_certificate lib j spiffe_id ca)) = Some spiffe_id"
proof -
  let ?c = "svid_certificate lib j spiffe_id ca"
  let ?P = "\<lambda>u. startswith u ''spiffe://distributed-ai.local/''"
  have u: "u = spiffe_id" if "u \<in> set (x509_san_uri (x5_peer lib ?c))" for u
    using x509D(9) [OF assms(1) that] by (simp add: svid_certificate_def)
  have "find ?P (x509_san_uri (x5_peer lib ?c)) = None \<or> find ?P (x509_san_uri (x5_peer lib ?c)) = Some spiffe_id"
  proof (cases "find ?P (x509_san_uri (x5_peer lib ?c))")
    case (Some v)
    then have "v \<in> set (x509_san_uri (x5_peer lib ?c))" unfolding find_Some_iff by force
    then show ?thesis using u Some by blast
  qed simp
  then show ?thesis
    using assms(2) x509D(8) [OF assms(1), of ?c] by (auto simp: extract_spiffe_id_def svid_certificate_def)
qed

lemma client_credentials_issued:
  assumes "x509_ok lib" "dir_ok lib dir" "get_client_credentials lib i j spiffe_id dir = (Inr cc, dir1)"
  shows "issued lib dir1 j spiffe_id (cc_private_key cc) (cc_certificate_chain cc) (cc_root_certificates cc) \<and> dir_ok lib dir1"
  using assms(3) provider_svid_issued [OF assms(1,2), of i j spiffe_id]
  by (auto simp: get_client_credentials_def rbind_Inr_iff split: prod.splits)

lemma server_credentials_issued:
  assumes "x509_ok lib" "dir_ok lib dir" "get_server_credentials lib i j spiffe_id dir = (Inr sc, dir1)"
  shows "issued lib dir1 j spiffe_id (sc_private_key sc) (sc_certificate_chain sc) (sc_root_certificates sc) \<and> dir_ok lib dir1"
    "sc_require_client_auth sc"
  using assms(3) provider_svid_issued [OF assms(1,2), of i j spiffe_id]
  by (auto simp: get_server_credentials_def rbind_Inr_iff split: prod.splits)

text \<open>Once both files exist, nothing the program does changes them.\<close>

lemma dir_kept:
  assumes "sd_key dir = Some k" "sd_cert dir = Some c"
  shows "snd (provider_svid lib i j spiffe_id dir) = dir" "snd (get_client_credentials lib i j spiffe_id dir) = dir"
    "snd (get_server_credentials lib i j spiffe_id dir) = dir"
  using shared_ca_again [OF assms, of lib i]
  by (auto simp: provider_svid_def new_SimulatedIdentityProvider_def get_client_credentials_def
      get_server_credentials_def split: prod.splits sum.splits)


lemma issued_dir_kept:
  assumes "issued lib dir j' spiffe_id' key cert root_pem"
  shows "snd (get_client_credentials lib i j spiffe_id dir) = dir" "snd (get_server_credentials lib i j spiffe_id dir) = dir"
  using assms dir_kept(2,3) by (auto simp: issued_def)

text \<open>The identities that other processes make, one process after the other.\<close>

definition other_identities :: "x509_lib \<Rightarrow> (cert_inputs \<times> cert_inputs \<times> str) list \<Rightarrow> secret_dir \<Rightarrow> secret_dir" where
  "other_identities lib calls dir = fold (\<lambda>(i, j, spiffe_id) d. snd (provider_svid lib i j spiffe_id d)) calls dir"

lemma other_identities_issued:
  "issued lib dir j spiffe_id key cert root_pem \<Longrightarrow> other_identities lib calls dir = dir"
  by (induction calls) (auto simp: other_identities_def issued_def dir_kept(1))

text \<open>A process alone makes the steps of \<open>get_or_create_shared_ca\<close>.\<close>

definition ca_result :: "exc + (bytes \<times> bytes) \<Rightarrow> ca_process" where
  "ca_result r = (case r of Inl ex \<Rightarrow> Failed ex | Inr (k, c) \<Rightarrow> Has_ca k c)"

lemma ca_run_alone:
  "ca_run lib [0, 0, 0] ([Looking i], dir) =
     (case get_or_create_shared_ca lib i dir of (r, dir1) \<Rightarrow> ([ca_result r], dir1))"
  by (simp add: get_or_create_shared_ca_def ca_result_def split: option.splits sum.splits prod.splits)

section \<open>A toy instance of the library\<close>

definition toy_cert :: "bytes \<Rightarrow> certificate \<Rightarrow> jobj" where
  "toy_cert k c =
     [(''signer'', JStr (hex k)), (''subject'', JStr (ce_subject c)), (''issuer'', JStr (ce_issuer c)),
      (''key'', JStr (hex (ce_public_key c))), (''serial'', JInt (ce_serial_number c)),
      (''from'', JInt (ce_not_before c)), (''to'', JInt (ce_not_after c)), (''ca'', JBool (ce_is_ca c)),
      (''uris'', JArr (map JStr (ce_uris c))), (''dns'', JArr (map JStr (ce_dns_names c))),
      (''ips'', JArr (map JStr (ce_ip_addresses c)))]"

fun toy_strings :: "json \<Rightarrow> str list" where
  "toy_strings (JArr js) = map (\<lambda>j. case j of JStr s \<Rightarrow> s | _ \<Rightarrow> []) js"
| "toy_strings _ = []"

definition toy_text :: "jobj \<Rightarrow> str \<Rightarrow> str" where
  "toy_text d k = (case dget d k of Some (JStr s) \<Rightarrow> s | _ \<Rightarrow> [])"

definition toy_int :: "jobj \<Rightarrow> str \<Rightarrow> int" where
  "toy_int d k = (case dget d k of Some (JInt n) \<Rightarrow> n | _ \<Rightarrow> 0)"

definition toy_certificate :: "jobj \<Rightarrow> certificate" where
  "toy_certificate d =
     \<lparr>ce_subject = toy_text d ''subject'', ce_issuer = toy_text d ''issuer'',
      ce_public_key = the (fromhex (toy_text d ''key'')), ce_serial_number = toy_int d ''serial'',
      ce_not_before = toy_int d ''from'', ce_not_after = toy_int d ''to'', ce_is_ca = (dget d ''ca'' = Some (JBool True)),
      ce_uris = toy_strings (the (dget d ''uris'')), ce_dns_names = toy_strings (the (dget d ''dns'')),
      ce_ip_addresses = toy_strings (the (dget d ''ips''))\<rparr>"

definition toy_x509 :: x509_lib where
  "toy_x509 =
     \<lparr>x5_public = id, x5_key_pem = id, x5_load_key = Inr,
      x5_build = (\<lambda>c. if name_ok (ce_subject c) \<and> name_ok (ce_issuer c) \<and> list_all ascii (ce_uris c) \<and>
          0 \<le> ce_not_before c \<and> ce_not_before c \<le> ce_not_after c
        then Inr c else Inl (py_exc ValueErrorClass [])),
      x5_sign = (\<lambda>k c. encode (default_dumps fraction_text (JObj (toy_cert k c)))),
      x5_load_cert = (\<lambda>b. case loads fraction_text (decode b) of
          Some (JObj d) \<Rightarrow> Inr (toy_certificate d)
        | _ \<Rightarrow> Inl (py_exc ValueErrorClass [])),
      x5_verify = (\<lambda>b p. case loads fraction_text (decode b) of
          Some (JObj d) \<Rightarrow> dget d ''signer'' = Some (JStr (hex p)) | _ \<Rightarrow> False),
      x5_peer = (\<lambda>c. \<lparr>x509_san_uri = [], x509_common_name = [ce_subject c]\<rparr>)\<rparr>"

lemma toy_cert_read: "loads fraction_text (default_dumps fraction_text (JObj (toy_cert k c))) = Some (JObj (toy_cert k c))"
  by (intro loads_default [OF float_text_ok_fraction]) (simp add: toy_cert_def list_all_iff)

lemma toy_strings_map [simp]: "toy_strings (JArr (map JStr xs)) = xs"
  by (simp add: comp_def)

lemma toy_certificate_of: "toy_certificate (toy_cert k c) = c"
  by (cases c) (simp add: toy_certificate_def toy_cert_def toy_text_def toy_int_def del: toy_strings.simps)

lemma toy_x509_ok: "x509_ok toy_x509"
  by (simp add: x509_ok_def toy_x509_def toy_cert_read toy_certificate_of)
    (auto simp: toy_cert_def)

text \<open>
  A certificate signed with \<open>key\<close> whose signature also verifies under the public key \<open>p\<close>. For the
  public key of another pair that is a forgery: no law of the library says that there is none,
  so what follows from mixed up keys is stated up to one.
\<close>

definition crossed :: "x509_lib \<Rightarrow> bytes \<Rightarrow> bytes \<Rightarrow> bytes \<Rightarrow> bool" where
  "crossed lib key p cert \<longleftrightarrow> (\<exists>d. cert = x5_sign lib key d) \<and> x5_verify lib cert p"

lemma toy_crossed: "crossed toy_x509 k p cert \<Longrightarrow> p = k"
  by (auto simp: crossed_def toy_x509_def toy_cert_read) (auto simp: toy_cert_def hex_inj)

section \<open>Properties\<close>

lemma node_name_ok: "name_ok (''spiffe://distributed-ai.local/node/'' @ n) \<longleftrightarrow> length n \<le> 29"
  by (auto simp: name_ok_def encode_def)

text \<open>Whoever comes first, both credentials are of the CA that the directory then has.\<close>

lemma credentials_of_one_ca:
  assumes "x509_ok lib" "dir_ok lib dir"
    and "get_client_credentials lib i j client_id dir = (Inr cc, dir1) \<and>
        get_server_credentials lib i' j' server_id (other_identities lib calls dir1) = (Inr sc, dir2) \<or>
      get_server_credentials lib i' j' server_id dir = (Inr sc, dir1) \<and>
        get_client_credentials lib i j client_id (other_identities lib calls dir1) = (Inr cc, dir2)"
  shows "\<exists>d. issued lib d j client_id (cc_private_key cc) (cc_certificate_chain cc) (cc_root_certificates cc) \<and>
      issued lib d j' server_id (sc_private_key sc) (sc_certificate_chain sc) (sc_root_certificates sc) \<and> sc_require_client_auth sc"
  using assms(3)
proof (elim disjE conjE)
  assume c: "get_client_credentials lib i j client_id dir = (Inr cc, dir1)"
    and s: "get_server_credentials lib i' j' server_id (other_identities lib calls dir1) = (Inr sc, dir2)"
  note cl = client_credentials_issued [OF assms(1,2) c]
  note s' = s [unfolded other_identities_issued [OF conjunct1 [OF cl]]]
  have "dir2 = dir1" using issued_dir_kept(2) [OF conjunct1 [OF cl]] s' by (metis snd_conv)
  then show ?thesis using cl server_credentials_issued [OF assms(1) conjunct2 [OF cl] s'] by blast
next
  assume s: "get_server_credentials lib i' j' server_id dir = (Inr sc, dir1)"
    and c: "get_client_credentials lib i j client_id (other_identities lib calls dir1) = (Inr cc, dir2)"
  note sv = server_credentials_issued [OF assms(1,2) s]
  note c' = c [unfolded other_identities_issued [OF conjunct1 [OF sv(1)]]]
  have "dir2 = dir1" using issued_dir_kept(1) [OF conjunct1 [OF sv(1)]] c' by (metis snd_conv)
  then show ?thesis using sv client_credentials_issued [OF assms(1) conjunct2 [OF sv(1)] c'] by blast
qed

text \<open>
  C7: credentials are trusted and name their holder. A client and a server make their
  credentials from the same \<open>.secret\<close> directory (without a CA, or with a key and its certificate),
  one after the other and in either order, so that either of them may be the one that creates the CA; any number of other processes make
  identities in between. The two trust each other's certificate chain exactly while the CA and
  the certificate are in force (five minutes before it was made to one hour after); the server
  demands a client certificate; and the identity the server extracts from the client's is the
  one the client asked for.
\<close>

theorem credentials_mutually_trusted:
  assumes "x509_ok lib" "dir_ok lib dir"
    and "get_client_credentials lib i j client_id dir = (Inr cc, dir1) \<and>
        get_server_credentials lib i' j' server_id (other_identities lib calls dir1) = (Inr sc, dir2) \<or>
      get_server_credentials lib i' j' server_id dir = (Inr sc, dir1) \<and>
        get_client_credentials lib i j client_id (other_identities lib calls dir1) = (Inr cc, dir2)"
  shows "\<exists>ca c s. x5_load_cert lib (cc_root_certificates cc) = Inr ca \<and>
    x5_load_cert lib (cc_certificate_chain cc) = Inr c \<and> x5_load_cert lib (sc_certificate_chain sc) = Inr s \<and>
    sc_root_certificates sc = cc_root_certificates cc \<and> sc_require_client_auth sc \<and>
    (\<forall>t. path_valid lib (sc_root_certificates sc) (cc_certificate_chain cc) t \<longleftrightarrow>
       in_force ca t \<and> ci_utcnow j - 5 * MINUTES \<le> t \<and> t \<le> ci_utcnow2 j + 60 * MINUTES) \<and>
    (\<forall>t. path_valid lib (cc_root_certificates cc) (sc_certificate_chain sc) t \<longleftrightarrow>
       in_force ca t \<and> ci_utcnow j' - 5 * MINUTES \<le> t \<and> t \<le> ci_utcnow2 j' + 60 * MINUTES) \<and>
    (startswith client_id ''spiffe://distributed-ai.local/'' \<longrightarrow> extract_spiffe_id (x5_peer lib c) = Some client_id)"
proof -
  obtain d where c: "issued lib d j client_id (cc_private_key cc) (cc_certificate_chain cc) (cc_root_certificates cc)"
    and s: "issued lib d j' server_id (sc_private_key sc) (sc_certificate_chain sc) (sc_root_certificates sc)"
    and auth: "sc_require_client_auth sc"
    using credentials_of_one_ca [OF assms] by blast
  have same: "sc_root_certificates sc = cc_root_certificates cc" using c s by (auto simp: issued_def)
  obtain ca where ca: "x5_load_cert lib (cc_root_certificates cc) = Inr ca"
    and cl: "x5_load_cert lib (cc_certificate_chain cc) = Inr (svid_certificate lib j client_id ca)"
    and cp: "path_valid lib (cc_root_certificates cc) (cc_certificate_chain cc) t \<longleftrightarrow>
      in_force ca t \<and> in_force (svid_certificate lib j client_id ca) t" for t
    using c by (rule issued_path) blast
  obtain ca' where ca': "x5_load_cert lib (sc_root_certificates sc) = Inr ca'"
    and sl: "x5_load_cert lib (sc_certificate_chain sc) = Inr (svid_certificate lib j' server_id ca')"
    and sp: "path_valid lib (sc_root_certificates sc) (sc_certificate_chain sc) t \<longleftrightarrow>
      in_force ca' t \<and> in_force (svid_certificate lib j' server_id ca') t" for t
    using s by (rule issued_path) blast
  have eq: "ca' = ca" using ca ca' same by simp
  have id: "extract_spiffe_id (x5_peer lib (svid_certificate lib j client_id ca)) = Some client_id"
    if "startswith client_id ''spiffe://distributed-ai.local/''"
    using issued_peer [OF assms(1) that] .
  show ?thesis
    using ca cl sl same auth cp sp id
    by (intro exI [of _ ca] exI [of _ "svid_certificate lib j client_id ca"] exI [of _ "svid_certificate lib j' server_id ca"])
      (auto simp: eq in_force_def svid_certificate_def)
qed

definition sample_draws :: "8 word \<Rightarrow> cert_inputs" where
  "sample_draws k = \<lparr>ci_key = [k], ci_serial = 7, ci_utcnow = 1000 * MINUTES, ci_utcnow2 = 1000 * MINUTES\<rparr>"

definition empty_dir :: secret_dir where
  "empty_dir = \<lparr>sd_key = None, sd_cert = None\<rparr>"

definition sample_ca :: "8 word \<Rightarrow> certificate" where
  "sample_ca k =
     \<lparr>ce_subject = ''SPIFFE Simulated CA (distributed-ai.local)'',
      ce_issuer = ''SPIFFE Simulated CA (distributed-ai.local)'', ce_public_key = [k], ce_serial_number = 7,
      ce_not_before = 995 * MINUTES, ce_not_after = 2440 * MINUTES, ce_is_ca = True, ce_uris = [],
      ce_dns_names = [], ce_ip_addresses = []\<rparr>"

definition sample_dir :: "8 word \<Rightarrow> secret_dir" where
  "sample_dir k = \<lparr>sd_key = Some [k], sd_cert = Some (x5_sign toy_x509 [k] (sample_ca k))\<rparr>"

lemma sample_generated: "generate_ca toy_x509 (sample_draws k) = Inr ([k], x5_sign toy_x509 [k] (sample_ca k))"
  by (simp add: generate_ca_def sample_draws_def sample_ca_def toy_x509_def name_ok_def encode_def MINUTES_def)

lemma sample_dir_ok: "dir_ok toy_x509 empty_dir" "dir_ok toy_x509 (sample_dir k)"
  "ca_pair toy_x509 [k] (x5_sign toy_x509 [k] (sample_ca k)) (sample_ca k)"
proof -
  show p: "ca_pair toy_x509 [k] (x5_sign toy_x509 [k] (sample_ca k)) (sample_ca k)"
    unfolding ca_pair_def
    by (intro exI [of _ "[k]"]) (simp add: sample_ca_def toy_x509_def name_ok_def encode_def)
  show "dir_ok toy_x509 empty_dir" by (simp add: dir_ok_def empty_dir_def)
  show "dir_ok toy_x509 (sample_dir k)" using p by (auto simp: dir_ok_def sample_dir_def)
qed

text \<open>The SVIDs of a directory that holds a CA: what has a short enough ASCII name gets one.\<close>

lemma svid_granted:
  assumes "x509_ok lib" "sd_key dir = Some k" "sd_cert dir = Some c" "ca_pair lib k c ca"
  shows "name_ok spiffe_id \<Longrightarrow> ascii spiffe_id \<Longrightarrow> 0 \<le> ci_utcnow j - 5 * MINUTES \<Longrightarrow>
      ci_utcnow j - 5 * MINUTES \<le> ci_utcnow2 j + 60 * MINUTES \<Longrightarrow>
      \<exists>svid. provider_svid lib i j spiffe_id dir = (Inr svid, dir)"
    and "\<not> name_ok spiffe_id \<Longrightarrow>
      \<exists>ex. provider_svid lib i j spiffe_id dir = (Inl ex, dir) \<and> exc_class ex = ValueErrorClass"
proof -
  obtain key where ca: "k = x5_key_pem lib key" "c = x5_sign lib key ca" "name_ok (ce_subject ca)"
    using assms(4) by (auto simp: ca_pair_def)
  have load: "x5_load_key lib k = Inr key" "x5_load_cert lib c = Inr ca"
    using ca x509D(1,2) [OF assms(1)] by simp_all
  have p: "provider_svid lib i j spiffe_id dir =
      (rbind (x5_build lib (svid_certificate lib j spiffe_id ca)) (\<lambda>cert.
         Inr (x5_key_pem lib (ci_key j), x5_sign lib key cert, c)), dir)"
    using shared_ca_again [OF assms(2,3), of lib i]
    by (simp add: provider_svid_def new_SimulatedIdentityProvider_def provider_with_ca_def get_svid_def load)
  let ?c = "svid_certificate lib j spiffe_id ca"
  show "\<exists>svid. provider_svid lib i j spiffe_id dir = (Inr svid, dir)"
    if "name_ok spiffe_id" "ascii spiffe_id" "0 \<le> ci_utcnow j - 5 * MINUTES"
      "ci_utcnow j - 5 * MINUTES \<le> ci_utcnow2 j + 60 * MINUTES"
    using x509D(6) [OF assms(1), of ?c] that ca(3) by (simp add: p svid_certificate_def)
  show "\<exists>ex. provider_svid lib i j spiffe_id dir = (Inl ex, dir) \<and> exc_class ex = ValueErrorClass"
    if "\<not> name_ok spiffe_id"
  proof -
    have "ce_subject ?c = spiffe_id" by (simp add: svid_certificate_def)
    then have "x5_build lib ?c \<noteq> Inr d" for d using x509D(7) [OF assms(1), of ?c d] that by auto
    then obtain ex where "x5_build lib ?c = Inl ex" by (cases "x5_build lib ?c") auto
    then show ?thesis using x509D(5) [OF assms(1)] by (simp add: p)
  qed
qed


lemma sample_credentials:
  assumes "name_ok spiffe_id" "ascii spiffe_id"
  shows "\<exists>cc. get_client_credentials toy_x509 i (sample_draws j) spiffe_id (sample_dir k) = (Inr cc, sample_dir k)"
    "\<exists>sc. get_server_credentials toy_x509 i (sample_draws j) spiffe_id (sample_dir k) = (Inr sc, sample_dir k)"
proof -
  have "\<exists>svid. provider_svid toy_x509 i (sample_draws j) spiffe_id (sample_dir k) = (Inr svid, sample_dir k)"
    using assms sample_dir_ok(3)
    by (intro svid_granted(1) [OF toy_x509_ok]) (simp_all add: sample_dir_def sample_draws_def MINUTES_def)
  then obtain key cert ca where
    p: "provider_svid toy_x509 i (sample_draws j) spiffe_id (sample_dir k) = (Inr (key, cert, ca), sample_dir k)"
    by (metis prod_cases3)
  show "\<exists>cc. get_client_credentials toy_x509 i (sample_draws j) spiffe_id (sample_dir k) = (Inr cc, sample_dir k)"
    "\<exists>sc. get_server_credentials toy_x509 i (sample_draws j) spiffe_id (sample_dir k) = (Inr sc, sample_dir k)"
    by (simp_all add: get_client_credentials_def get_server_credentials_def p)
qed

lemma sample_names: "name_ok ''spiffe://distributed-ai.local/node/edge-1''" "ascii ''spiffe://distributed-ai.local/node/edge-1''"
  "name_ok ''spiffe://distributed-ai.local/gateway/master''" "ascii ''spiffe://distributed-ai.local/gateway/master''"
  by (simp_all add: name_ok_def encode_def ascii_def)

lemma sample_created: "provider_svid toy_x509 (sample_draws k) j spiffe_id empty_dir = provider_svid toy_x509 i j spiffe_id (sample_dir k)"
  by (simp add: provider_svid_def new_SimulatedIdentityProvider_def get_or_create_shared_ca_def empty_dir_def
      sample_dir_def sample_generated)

theorem credentials_mutually_trusted_witness:
  "\<exists>cc sc c. get_server_credentials toy_x509 (sample_draws 1) (sample_draws 5)
       ''spiffe://distributed-ai.local/node/edge-1'' empty_dir = (Inr sc, sample_dir 1) \<and>
     get_client_credentials toy_x509 (sample_draws 2) (sample_draws 3)
       ''spiffe://distributed-ai.local/gateway/master'' (sample_dir 1) = (Inr cc, sample_dir 1) \<and>
     x5_load_cert toy_x509 (cc_certificate_chain cc) = Inr c \<and>
     path_valid toy_x509 (sc_root_certificates sc) (cc_certificate_chain cc) (1000 * MINUTES) = in_force (sample_ca 1) (1000 * MINUTES) \<and>
     extract_spiffe_id (x5_peer toy_x509 c) = Some ''spiffe://distributed-ai.local/gateway/master''"
proof -
  obtain cc where c: "get_client_credentials toy_x509 (sample_draws 2) (sample_draws 3)
      ''spiffe://distributed-ai.local/gateway/master'' (sample_dir 1) = (Inr cc, sample_dir 1)"
    using sample_credentials(1) [OF sample_names(3,4)] by blast
  obtain sc where "get_server_credentials toy_x509 (sample_draws 4) (sample_draws 5)
      ''spiffe://distributed-ai.local/node/edge-1'' (sample_dir 1) = (Inr sc, sample_dir 1)"
    using sample_credentials(2) [OF sample_names(1,2)] by blast
  then have s: "get_server_credentials toy_x509 (sample_draws 1) (sample_draws 5)
      ''spiffe://distributed-ai.local/node/edge-1'' empty_dir = (Inr sc, sample_dir 1)"
    by (simp add: get_server_credentials_def sample_created [of _ _ _ "sample_draws 4"])
  have c': "get_client_credentials toy_x509 (sample_draws 2) (sample_draws 3)
      ''spiffe://distributed-ai.local/gateway/master'' (other_identities toy_x509 [] (sample_dir 1)) = (Inr cc, sample_dir 1)"
    using c by (simp add: other_identities_def)
  note trusted = credentials_mutually_trusted [OF toy_x509_ok sample_dir_ok(1) disjI2 [OF conjI [OF s c']]]
  have root: "x5_load_cert toy_x509 (cc_root_certificates cc) = Inr (sample_ca 1)"
    using client_credentials_issued [OF toy_x509_ok sample_dir_ok(2) c]
      x509D(2) [OF toy_x509_ok, of "[1]" "sample_ca 1"]
    by (auto simp: issued_def sample_dir_def)
  have "startswith ''spiffe://distributed-ai.local/gateway/master'' ''spiffe://distributed-ai.local/''"
    by (simp add: startswith_def)
  then show ?thesis
    using trusted c s root by (auto simp: sample_draws_def MINUTES_def)
qed

text \<open>
  C11: a node registers as itself and as nobody else. With the certificate a node's client
  makes for itself, the control plane opens its telemetry streams and accepts exactly the
  registrations of this node that carry a key, whatever its state; the certificate makes the
  node neither the scheduler nor a gateway, so no node accepts tasks from it.
\<close>

theorem node_registers_itself:
  assumes "x509_ok lib" "dir_ok lib dir"
    and "get_client_credentials lib i j (''spiffe://distributed-ai.local/node/'' @ n) dir = (Inr cc, dir1)"
  shows "\<exists>c. x5_load_cert lib (cc_certificate_chain cc) = Inr c \<and> authenticate_node (x5_peer lib c) \<and>
    (\<forall>rq s e. rp_status (fst (RegisterNode (x5_peer lib c) rq (s, e))) = ''success'' \<longleftrightarrow>
       rq_node_id rq = n \<and> rq_public_signing_key rq \<noteq> []) \<and>
    (\<forall>st s e. n_node_id (st_node st) = n \<and> st_public_key_pem st \<noteq> [] \<longrightarrow>
       (case RegisterNode (x5_peer lib c) (registration_request st) (s, e) of (rp, s1, e1) \<Rightarrow>
          rp_status rp = ''success'' \<and> etcd_get (key_member n) e1 = Some (st_public_key_pem st))) \<and>
    \<not> authorize_scheduler (extract_spiffe_id (x5_peer lib c)) \<and> \<not> authorize_gateway (extract_spiffe_id (x5_peer lib c))"
proof -
  let ?id = "''spiffe://distributed-ai.local/node/'' @ n"
  have iss: "issued lib dir1 j ?id (cc_private_key cc) (cc_certificate_chain cc) (cc_root_certificates cc)"
    using client_credentials_issued [OF assms] by blast
  obtain ca where load: "x5_load_cert lib (cc_certificate_chain cc) = Inr (svid_certificate lib j ?id ca)"
    using iss by (rule issued_path) blast
  have id: "extract_spiffe_id (x5_peer lib (svid_certificate lib j ?id ca)) = Some ?id"
    by (rule issued_peer [OF assms(1)]) (simp add: startswith_def)
  show ?thesis
    using load id
    by (intro exI [of _ "svid_certificate lib j ?id ca"])
      (auto simp: authenticate_node_def startswith_def RegisterNode_def authorize_node_iff authorize_scheduler_iff
        authorize_gateway_iff registration_request_def etcd_get_def etcd_put_def)
qed

theorem node_registers_itself_witness:
  "\<exists>cc c. get_client_credentials toy_x509 (sample_draws 2) (sample_draws 3)
       (''spiffe://distributed-ai.local/node/'' @ ''edge-1'') (sample_dir 1) = (Inr cc, sample_dir 1) \<and>
     x5_load_cert toy_x509 (cc_certificate_chain cc) = Inr c \<and>
     (\<forall>s e. rp_status (fst (RegisterNode (x5_peer toy_x509 c)
        ((registration_request sample_streamer)\<lparr>rq_node_id := ''edge-2''\<rparr>) (s, e))) \<noteq> ''success'')"
proof -
  obtain cc where c: "get_client_credentials toy_x509 (sample_draws 2) (sample_draws 3)
      (''spiffe://distributed-ai.local/node/'' @ ''edge-1'') (sample_dir 1) = (Inr cc, sample_dir 1)"
    using sample_credentials(1) [OF sample_names(1,2)] unfolding append.simps by blast
  show ?thesis using node_registers_itself [OF toy_x509_ok sample_dir_ok(2) c] c by fastforce
qed

text \<open>
  C35: node identifiers have at most 29 characters. The SPIFFE id is also the common name of
  the certificate, which X.509 bounds at 64 bytes: a node whose identifier is ASCII gets
  client and server credentials exactly when it has at most 29 characters. For a longer one
  both functions raise \<open>ValueError\<close>: the node cannot open its port, and its telemetry thread
  retries every five seconds without ever registering.
\<close>

theorem node_id_length_bounded:
  assumes "x509_ok lib" "sd_key dir = Some k" "sd_cert dir = Some c" "ca_pair lib k c ca" "ascii n"
    and "0 \<le> ci_utcnow j - 5 * MINUTES" "ci_utcnow j - 5 * MINUTES \<le> ci_utcnow2 j + 60 * MINUTES"
  shows "(case get_client_credentials lib i j (''spiffe://distributed-ai.local/node/'' @ n) dir of (r, dir1) \<Rightarrow> dir1 = dir \<and>
      (if length n \<le> 29 then \<exists>cc. r = Inr cc else \<exists>ex. r = Inl ex \<and> exc_class ex = ValueErrorClass \<and> retry_delay ex = 5)) \<and>
    (case get_server_credentials lib i j (''spiffe://distributed-ai.local/node/'' @ n) dir of (r, dir1) \<Rightarrow> dir1 = dir \<and>
      (if length n \<le> 29 then \<exists>sc. r = Inr sc else \<exists>ex. r = Inl ex \<and> exc_class ex = ValueErrorClass))"
proof (cases "length n \<le> 29")
  case True
  have "ascii (''spiffe://distributed-ai.local/node/'' @ n)" using assms(5) by (simp add: ascii_def)
  then obtain key cert ca' where
    "provider_svid lib i j (''spiffe://distributed-ai.local/node/'' @ n) dir = (Inr (key, cert, ca'), dir)"
    using svid_granted(1) [OF assms(1-4) _ _ assms(6,7)] True node_name_ok by (metis prod_cases3)
  then show ?thesis using True by (simp add: get_client_credentials_def get_server_credentials_def)
next
  case False
  then obtain ex where
    "provider_svid lib i j (''spiffe://distributed-ai.local/node/'' @ n) dir = (Inl ex, dir)" "exc_class ex = ValueErrorClass"
    using svid_granted(2) [OF assms(1-4)] node_name_ok by metis
  then show ?thesis using False
    by (simp add: get_client_credentials_def get_server_credentials_def retry_delay_def)
qed

theorem node_id_length_bounded_witness:
  "\<exists>ex. fst (get_client_credentials toy_x509 (sample_draws 2) (sample_draws 3)
     (''spiffe://distributed-ai.local/node/'' @ ''factory-floor-east-vision-edge-gateway-0001'') (sample_dir 1)) = Inl ex"
proof -
  have "ascii ''factory-floor-east-vision-edge-gateway-0001''" by (simp add: ascii_def)
  then show ?thesis
    using node_id_length_bounded [OF toy_x509_ok _ _ sample_dir_ok(3) [of 1], of "sample_dir 1" _ "sample_draws 3" "sample_draws 2"]
    by (fastforce simp: sample_dir_def sample_draws_def MINUTES_def split: prod.splits)
qed

text \<open>
  The CA is never renewed. The files of the CA are used as they are, however old: once
  its certificate (made for one day) has expired, every credential made from the directory is
  rejected by TLS, and no call replaces the files. The cluster cannot connect again until
  someone deletes them.
\<close>

lemma expired_ca_never_replaced:
  assumes "x509_ok lib" "sd_key dir = Some k" "sd_cert dir = Some c" "ca_pair lib k c ca" "ce_not_after ca < t"
  shows "(case get_client_credentials lib i j spiffe_id dir of (r, dir1) \<Rightarrow> dir1 = dir \<and>
      (\<forall>cc. r = Inr cc \<longrightarrow> \<not> path_valid lib (cc_root_certificates cc) (cc_certificate_chain cc) t)) \<and>
    (case get_server_credentials lib i j spiffe_id dir of (r, dir1) \<Rightarrow> dir1 = dir \<and>
      (\<forall>sc. r = Inr sc \<longrightarrow> \<not> path_valid lib (sc_root_certificates sc) (sc_certificate_chain sc) t))"
proof -
  have ok: "dir_ok lib dir" using assms(2-4) by (auto simp: dir_ok_def)
  have load: "x5_load_cert lib c = Inr ca" using assms(1,4) x509D(2) by (auto simp: ca_pair_def)
  have dead: "\<not> path_valid lib root_pem cert t" if "issued lib dir j spiffe_id key cert root_pem" for key cert root_pem
  proof -
    have "root_pem = c" using that assms(3) by (auto simp: issued_def)
    then show ?thesis using load assms(5) by (auto simp: path_valid_def split: sum.splits)
  qed
  obtain r1 r2 where r: "get_client_credentials lib i j spiffe_id dir = (r1, dir)"
    "get_server_credentials lib i j spiffe_id dir = (r2, dir)"
    using dir_kept(2,3) [OF assms(2,3)] by (metis prod.collapse)
  show ?thesis
    using dead client_credentials_issued [OF assms(1) ok, of i j spiffe_id]
      server_credentials_issued(1) [OF assms(1) ok, of i j spiffe_id] r by auto
qed

lemma generated_ca:
  assumes "x509_ok lib" "generate_ca lib i = Inr (k, c)"
  shows "x5_load_key lib k = Inr (ci_key i)"
    "\<exists>ca. x5_load_cert lib c = Inr ca \<and> ce_public_key ca = x5_public lib (ci_key i)"
  using assms(2) x509D(1,2,4) [OF assms(1)] by (fastforce simp: generate_ca_def rbind_Inr_iff)+

text \<open>What an identity provider signs passes under a foreign root only by a crossed signature.\<close>

lemma crossed_svid:
  assumes "get_svid lib j spiffe_id p = Inr (key, cert, root_pem)" "path_valid lib anchor cert t"
    and "x5_load_cert lib anchor = Inr ca"
  shows "crossed lib (ip_ca_key p) (ce_public_key ca) cert"
  using assms by (auto simp: crossed_def get_svid_def rbind_Inr_iff path_valid_def split: sum.splits)

text \<open>
  C34: two processes that start together can break the CA. Both find no files and make a CA
  of their own; when their writes interleave, the directory is left with the key of one and
  the certificate of the other, and each of the two keeps its own CA. A certificate that either
  of them issues is then rejected under the root of the other, and every certificate issued from
  the directory afterwards is rejected under the very root it comes with: TLS would accept it
  only if its signature, made with the key of one CA, verified under the public key of the other.
\<close>

theorem ca_race_breaks_trust:
  assumes "x509_ok lib"
    and "generate_ca lib i0 = Inr (k0, c0)" "generate_ca lib i1 = Inr (k1, c1)"
  shows "ca_run lib [0, 1, 0, 1, 1, 0] ([Looking i0, Looking i1], \<lparr>sd_key = None, sd_cert = None\<rparr>) =
      ([Has_ca k0 c0, Has_ca k1 c1], \<lparr>sd_key = Some k1, sd_cert = Some c0\<rparr>) \<and>
    (\<forall>p j spiffe_id key cert root_pem t.
       provider_with_ca lib (k0, c0) = Inr p \<and> get_svid lib j spiffe_id p = Inr (key, cert, root_pem) \<and> path_valid lib c1 cert t \<longrightarrow>
       crossed lib (ci_key i0) (x5_public lib (ci_key i1)) cert) \<and>
    (\<forall>p j spiffe_id key cert root_pem t.
       provider_with_ca lib (k1, c1) = Inr p \<and> get_svid lib j spiffe_id p = Inr (key, cert, root_pem) \<and> path_valid lib c0 cert t \<longrightarrow>
       crossed lib (ci_key i1) (x5_public lib (ci_key i0)) cert) \<and>
    (\<forall>i j spiffe_id key cert root_pem dir1 t.
       provider_svid lib i j spiffe_id \<lparr>sd_key = Some k1, sd_cert = Some c0\<rparr> = (Inr (key, cert, root_pem), dir1) \<and>
         path_valid lib root_pem cert t \<longrightarrow>
       crossed lib (ci_key i1) (x5_public lib (ci_key i0)) cert)"
proof (intro conjI allI impI; (elim conjE)?)
  note g0 = generated_ca [OF assms(1,2)] and g1 = generated_ca [OF assms(1,3)]
  show "ca_run lib [0, 1, 0, 1, 1, 0] ([Looking i0, Looking i1], \<lparr>sd_key = None, sd_cert = None\<rparr>) =
      ([Has_ca k0 c0, Has_ca k1 c1], \<lparr>sd_key = Some k1, sd_cert = Some c0\<rparr>)"
    using assms(2,3) by simp
  obtain ca0 ca1 where ca: "x5_load_cert lib c0 = Inr ca0" "ce_public_key ca0 = x5_public lib (ci_key i0)"
    "x5_load_cert lib c1 = Inr ca1" "ce_public_key ca1 = x5_public lib (ci_key i1)"
    using g0(2) g1(2) by blast
  fix p j spiffe_id key cert root_pem t
  show "crossed lib (ci_key i0) (x5_public lib (ci_key i1)) cert"
    if "provider_with_ca lib (k0, c0) = Inr p" "get_svid lib j spiffe_id p = Inr (key, cert, root_pem)" "path_valid lib c1 cert t"
    using crossed_svid [OF that(2,3) ca(3)] that(1) g0(1) ca(4) by (auto simp: provider_with_ca_def rbind_Inr_iff)
  show "crossed lib (ci_key i1) (x5_public lib (ci_key i0)) cert"
    if "provider_with_ca lib (k1, c1) = Inr p" "get_svid lib j spiffe_id p = Inr (key, cert, root_pem)" "path_valid lib c0 cert t"
    using crossed_svid [OF that(2,3) ca(1)] that(1) g1(1) ca(2) by (auto simp: provider_with_ca_def rbind_Inr_iff)
next
  note g0 = generated_ca [OF assms(1,2)] and g1 = generated_ca [OF assms(1,3)]
  fix i j spiffe_id key cert root_pem dir1 t
  assume issue: "provider_svid lib i j spiffe_id \<lparr>sd_key = Some k1, sd_cert = Some c0\<rparr> = (Inr (key, cert, root_pem), dir1)"
    and valid: "path_valid lib root_pem cert t"
  let ?p = "\<lparr>ip_ca_key_bytes = k1, ip_ca_cert_bytes = c0, ip_ca_key = ci_key i1\<rparr>"
  have svid: "get_svid lib j spiffe_id ?p = Inr (key, cert, root_pem)"
    using issue g1(1) by (simp add: provider_svid_def new_SimulatedIdentityProvider_def get_or_create_shared_ca_def provider_with_ca_def)
  then have "root_pem = c0" by (auto simp: get_svid_def rbind_Inr_iff)
  then show "crossed lib (ci_key i1) (x5_public lib (ci_key i0)) cert"
    using crossed_svid [OF svid valid] g0(2) by auto
qed

theorem ca_race_breaks_trust_witness:
  "\<exists>svid. fst (provider_svid toy_x509 (sample_draws 5) (sample_draws 6) ''spiffe://distributed-ai.local/node/edge-1''
       (snd (ca_run toy_x509 [0, 1, 0, 1, 1, 0] ([Looking (sample_draws 1), Looking (sample_draws 2)],
          \<lparr>sd_key = None, sd_cert = None\<rparr>)))) = Inr svid \<and>
     \<not> path_valid toy_x509 (snd (snd svid)) (fst (snd svid)) (1000 * MINUTES)"
proof -
  note race = ca_race_breaks_trust [OF toy_x509_ok sample_generated [of 1] sample_generated [of 2]]
  have "\<exists>key cert root_pem dir1. provider_svid toy_x509 (sample_draws 5) (sample_draws 6) ''spiffe://distributed-ai.local/node/edge-1''
      \<lparr>sd_key = Some [2], sd_cert = Some (x5_sign toy_x509 [1] (sample_ca 1))\<rparr> = (Inr (key, cert, root_pem), dir1)"
  proof -
    have l: "x5_load_key toy_x509 [2] = Inr [2]" by (simp add: toy_x509_def)
    have "x5_build toy_x509 (svid_certificate toy_x509 (sample_draws 6) ''spiffe://distributed-ai.local/node/edge-1'' (sample_ca 1)) =
        Inr (svid_certificate toy_x509 (sample_draws 6) ''spiffe://distributed-ai.local/node/edge-1'' (sample_ca 1))"
      by (rule x509D(6) [OF toy_x509_ok])
        (simp_all add: svid_certificate_def sample_draws_def sample_ca_def name_ok_def encode_def ascii_def MINUTES_def)
    then show ?thesis
      by (simp add: provider_svid_def new_SimulatedIdentityProvider_def provider_with_ca_def get_or_create_shared_ca_def get_svid_def l
          x509D(2) [OF toy_x509_ok])
  qed
  then obtain key cert root_pem dir1 where
    p: "provider_svid toy_x509 (sample_draws 5) (sample_draws 6) ''spiffe://distributed-ai.local/node/edge-1''
      \<lparr>sd_key = Some [2], sd_cert = Some (x5_sign toy_x509 [1] (sample_ca 1))\<rparr> = (Inr (key, cert, root_pem), dir1)"
    by blast
  have "\<not> crossed toy_x509 (ci_key (sample_draws 2)) (x5_public toy_x509 (ci_key (sample_draws 1))) cert"
    using toy_crossed by (fastforce simp: sample_draws_def toy_x509_def)
  then have "\<not> path_valid toy_x509 root_pem cert (1000 * MINUTES)" using race p by blast
  then show ?thesis using race p by simp
qed

end
