(* ===== verification/Gateway.thy ===== *)
theory Gateway
  imports ControlPlane
begin

text \<open>
  The network gateway (\<open>gateway/app.py\<close>): the endpoints of the FastAPI application over the
  telemetry store, the decision engine, the scheduler and the results aggregator.

  An endpoint returns its response or the \<open>HTTPException\<close> it raises (status and detail). The
  bearer token is the text FastAPI's \<open>HTTPBearer\<close> hands over; FastAPI checks the dependency on
  the token before it validates the body. An unhandled exception is a plain 500. Tracing
  and metrics are not modelled; the request log is in \<open>Logging\<close>. The application's components are the
  fields of a record; the authoritative state and the world (nodes and network) are passed
  beside it.
\<close>

section \<open>State\<close>

record http_exception =
  he_status :: int
  he_detail :: json

record gateway =
  gw_store :: TelemetryStore
  gw_engine :: DecisionEngine
  gw_scheduler :: TaskScheduler
  gw_ledger :: TamperEvidentLedger
  gw_decision_engine_enabled :: bool
  gw_shadow_mode_enabled :: bool

definition create_gateway_app ::
    "environ \<Rightarrow> TelemetryStore \<Rightarrow> DecisionEngine \<Rightarrow> TaskScheduler \<Rightarrow> TamperEvidentLedger \<Rightarrow> gateway" where
  "create_gateway_app env store engine scheduler ledger =
     \<lparr>gw_store = store, gw_engine = engine, gw_scheduler = scheduler, gw_ledger = ledger,
      gw_decision_engine_enabled = True,
      gw_shadow_mode_enabled = (lower (getenv env ''SHADOW_MODE'' ''false'') = ''true'')\<rparr>"

section \<open>Authentication\<close>

definition verify_gateway_token :: "environ \<Rightarrow> str \<Rightarrow> http_exception + str" where
  "verify_gateway_token env credentials =
     (let expected_token = env ''GATEWAY_AUTH_TOKEN'' in
      if \<not> truthy expected_token then
        Inl \<lparr>he_status = 500, he_detail = JStr ''Gateway authentication is not configured correctly''\<rparr>
      else if credentials \<noteq> the expected_token then
        Inl \<lparr>he_status = 401, he_detail = JStr ''Invalid authentication token''\<rparr>
      else Inr credentials)"

section \<open>Observation endpoints\<close>

definition health_check :: "pyfloat \<Rightarrow> gateway \<Rightarrow> HealthCheckResponse" where
  "health_check now g =
     (let snaps = get_all_snapshots (gw_store g);
          de_status = (if gw_decision_engine_enabled g then ''healthy'' else ''disabled'')
      in \<lparr>hc_status = ''healthy'', hc_service_name = ''network-gateway'', hc_timestamp = now,
          hc_version = ''1.0.0'',
          hc_dependencies = [(''decision_engine'', de_status),
            (''telemetry_nodes_count'', show_int (int (length snaps))),
            (''scheduler_workers_count'', show_int (int (length (sc_node_targets (gw_scheduler g)))))]\<rparr>)"

definition get_node_telemetry :: "gateway \<Rightarrow> NodeTelemetrySnapshot list" where
  "get_node_telemetry g = get_all_snapshots (gw_store g)"

definition record_telemetry :: "NodeTelemetrySnapshot \<Rightarrow> gateway \<Rightarrow> jobj \<times> gateway" where
  "record_telemetry snapshot g =
     ([(''status'', JStr ''recorded''), (''node_id'', JStr (s_node_id snapshot))],
      g\<lparr>gw_store := record_snapshot snapshot (gw_store g)\<rparr>)"

definition internal_error :: http_exception where
  "internal_error = \<lparr>he_status = 500, he_detail = JStr ''Internal Server Error''\<rparr>"

definition get_audit_events ::
    "environ \<Rightarrow> event_io \<Rightarrow> str \<Rightarrow> str option \<Rightarrow> gateway \<Rightarrow> http_exception + AuditEvent list" where
  "get_audit_events env io token task_id g =
     rbind (verify_gateway_token env token) (\<lambda>_.
       (case get_all io task_id (gw_ledger g) of Inl ex \<Rightarrow> Inl internal_error | Inr evs \<Rightarrow> Inr evs))"

text \<open>The body's weights are validated by \<open>SLAWeights\<close>: FastAPI answers 422 otherwise.\<close>

definition update_sla_weights ::
    "environ \<Rightarrow> str \<Rightarrow> SLAClass \<Rightarrow> exc + SLAWeights \<Rightarrow> gateway \<Rightarrow> (http_exception + jobj) \<times> gateway" where
  "update_sla_weights env token sla_class body g =
     (case verify_gateway_token env token of
        Inl err \<Rightarrow> (Inl err, g)
      | Inr _ \<Rightarrow>
          (case body of
             Inl ex \<Rightarrow> (Inl \<lparr>he_status = 422, he_detail = JStr (message ex)\<rparr>, g)
           | Inr weights \<Rightarrow>
               (Inr [(''status'', JStr ''updated''), (''sla_class'', JStr (sla_value sla_class)),
                  (''weights'', JObj (map (\<lambda>(k, v). (k, JFloat v)) (to_dict weights)))],
                g\<lparr>gw_engine := update_sla_profiles [(sla_class, weights)] (gw_engine g)\<rparr>)))"

section \<open>Submission of a task\<close>

text \<open>The clock readings and generated identifiers of one submission, in the order of their use.\<close>

record submit_inputs =
  si_score_start :: pyfloat
  si_score_end :: pyfloat
  si_static_start :: pyfloat
  si_static_end :: pyfloat
  si_shadow_event_id :: str
  si_shadow_time :: pyfloat
  si_dispatch_time :: pyfloat
  si_dispatch :: dispatch_inputs
  si_event_id :: str
  si_event_time :: pyfloat

definition shadow_scoring :: "submit_inputs \<Rightarrow> TaskRequest \<Rightarrow> gateway \<Rightarrow> PlacementDecision option \<times> DecisionEngine" where
  "shadow_scoring si task g =
     (case evaluate_placement task (get_all_snapshots (gw_store g)) None (si_score_start si) (si_score_end si) (gw_engine g) of
        Inr (d, en) \<Rightarrow> (Some d, en)
      | Inl ex \<Rightarrow> (None, gw_engine g))"

definition routing_decision ::
    "submit_inputs \<Rightarrow> TaskRequest \<Rightarrow> gateway \<Rightarrow> PlacementDecision option \<Rightarrow> DecisionEngine \<Rightarrow> PlacementDecision" where
  "routing_decision si task g shadow_decision en =
     (let static = (\<lambda>why. get_static_fallback_decision en task why (si_static_start si) (si_static_end si)) in
      if gw_shadow_mode_enabled g then static ''shadow_mode_active''
      else if \<not> gw_decision_engine_enabled g then static ''decision_engine_service_offline''
      else (case shadow_decision of
          Some d \<Rightarrow> d
        | None \<Rightarrow> static ''decision_engine_error''))"

definition shadow_event :: "submit_inputs \<Rightarrow> TaskRequest \<Rightarrow> PlacementDecision \<Rightarrow> AuditEvent" where
  "shadow_event si task d =
     \<lparr>a_event_id = si_shadow_event_id si, a_schema_version = ''1.0'', a_task_id = t_task_id task,
      a_model_digest = None, a_timestamp = si_shadow_time si, a_decision = d,
      a_execution = \<lparr>x_task_id = t_task_id task, x_node_id = ''none'', x_node_class = EDGE, x_status = SUCCESS,
        x_execution_time_ms = 0, x_model_digest = None, x_output = Some [], x_error = Some [], x_cached = False,
        x_idempotency_key = []\<rparr>,
      a_fallback_activated = False, a_attempts = 1, a_gateway_rtt_observed_ms = None, a_is_shadow_mode = True,
      a_previous_event_hash = [], a_event_hash = []\<rparr>"

definition audit_shadow ::
    "crypto \<Rightarrow> event_io \<Rightarrow> submit_inputs \<Rightarrow> TaskRequest \<Rightarrow> gateway \<Rightarrow> PlacementDecision option \<Rightarrow>
     TamperEvidentLedger \<times> etcd \<Rightarrow> TamperEvidentLedger \<times> etcd" where
  "audit_shadow cr io si task g shadow_decision s =
     (if gw_shadow_mode_enabled g
      then (case shadow_decision of None \<Rightarrow> s | Some d \<Rightarrow> snd (append_event cr io (shadow_event si task d) s))
      else s)"

definition error_detail :: "ErrorResponse \<Rightarrow> json" where
  "error_detail er = JObj
     [(''error_code'', JStr (er_error_code er)), (''message'', JStr (er_message er)),
      (''task_id'', json_of_opt (er_task_id er)),
      (''details'', (case er_details er of None \<Rightarrow> JNull | Some d \<Rightarrow> JObj d))]"

definition dispatch_error :: "TaskRequest \<Rightarrow> exc \<Rightarrow> http_exception" where
  "dispatch_error task ex =
     (if exc_class ex = FallbackExhaustionErrorClass then
        \<lparr>he_status = 503, he_detail = error_detail
          \<lparr>er_error_code = ''FALLBACK_CHAIN_EXHAUSTED'', er_message = message ex,
           er_task_id = Some (t_task_id task), er_details = Some (details ex)\<rparr>\<rparr>
      else
        \<lparr>he_status = 500, he_detail = error_detail
          \<lparr>er_error_code = ''EXECUTION_FAILURE'', er_message = ''Execution failed: '' @ message ex,
           er_task_id = Some (t_task_id task), er_details = None\<rparr>\<rparr>)"

definition submit_inference_task ::
    "platform \<Rightarrow> event_io \<Rightarrow> 'w network \<Rightarrow> submit_inputs \<Rightarrow> str \<Rightarrow> TaskRequest \<Rightarrow> gateway \<times> etcd \<times> 'w \<Rightarrow>
     (http_exception + jobj) \<times> gateway \<times> etcd \<times> 'w" where
  "submit_inference_task pl io rpc si token task = (\<lambda>(g, e, w).
     case verify_gateway_token (pl_environ pl) token of
       Inl err \<Rightarrow> (Inl err, g, e, w)
     | Inr _ \<Rightarrow>
         (let (shadow_decision, en) = shadow_scoring si task g;
              decision = routing_decision si task g shadow_decision en;
              (lg1, e1) = audit_shadow (pl_crypto pl) io si task g shadow_decision (gw_ledger g, e);
              (r, s, e2, w2) = dispatch pl rpc (si_dispatch si) (si_dispatch_time si) task decision (gw_scheduler g, e1, w);
              g1 = g\<lparr>gw_engine := en, gw_ledger := lg1, gw_scheduler := s\<rparr>
          in case r of
               Inl ex \<Rightarrow> (Inl (dispatch_error task ex), g1, e2, w2)
             | Inr (res, fallback_activated, attempts) \<Rightarrow>
                 (let (response, lg2, e3) = aggregate (pl_crypto pl) io (si_event_id si) (si_event_time si)
                        (t_task_id task) decision res fallback_activated (int attempts) (Some 5) (lg1, e2)
                  in (Inr response, g1\<lparr>gw_ledger := lg2\<rparr>, e3, w2))))"

section \<open>The decision of a submission\<close>

text \<open>The engine never raises, so the shadow decision exists.\<close>

lemma shadow_scoring_Some: "\<exists>d en. shadow_scoring si task g = (Some d, en) \<and>
    evaluate_placement task (get_all_snapshots (gw_store g)) None (si_score_start si) (si_score_end si) (gw_engine g) = Inr (d, en)"
  using placement_decided [of task "get_all_snapshots (gw_store g)" None "si_score_start si" "si_score_end si" "gw_engine g"]
  by (auto simp: shadow_scoring_def)

lemma verify_gateway_token_iff:
  "verify_gateway_token env token = Inr t \<longleftrightarrow> t = token \<and> token \<noteq> [] \<and> env ''GATEWAY_AUTH_TOKEN'' = Some token"
  by (cases "env ''GATEWAY_AUTH_TOKEN''") (auto simp: verify_gateway_token_def)

lemma verify_gateway_token_Inl:
  "verify_gateway_token env token = Inl err \<Longrightarrow> he_status err \<in> {401, 500}"
  by (auto simp: verify_gateway_token_def Let_def split: if_splits)

text \<open>The result of a submission with a valid token, from its decision and the dispatch.\<close>

definition decision_of :: "submit_inputs \<Rightarrow> TaskRequest \<Rightarrow> gateway \<Rightarrow> PlacementDecision" where
  "decision_of si task g = (case shadow_scoring si task g of (sd, en) \<Rightarrow> routing_decision si task g sd en)"

lemma submit_unauthorized:
  "verify_gateway_token (pl_environ pl) token = Inl err \<Longrightarrow>
     submit_inference_task pl io rpc si token task st = (Inl err, st)"
  by (cases st) (simp add: submit_inference_task_def)

lemma submit_authorized:
  assumes "verify_gateway_token (pl_environ pl) token = Inr u"
    and "audit_shadow (pl_crypto pl) io si task g (fst (shadow_scoring si task g)) (gw_ledger g, e) = (lg1, e1)"
    and "dispatch pl rpc (si_dispatch si) (si_dispatch_time si) task (decision_of si task g) (gw_scheduler g, e1, w)
      = (r, s, e2, w2)"
    and "submit_inference_task pl io rpc si token task (g, e, w) = (resp, g', e', w')"
  shows "w' = w2 \<and> gw_scheduler g' = s \<and> gw_store g' = gw_store g \<and>
    gw_engine g' = snd (shadow_scoring si task g) \<and>
    (case r of
       Inl ex \<Rightarrow> resp = Inl (dispatch_error task ex) \<and> gw_ledger g' = lg1 \<and> e' = e2
     | Inr (res, fb, n) \<Rightarrow>
         resp = Inr (response_envelope (si_event_id si) (t_task_id task) (decision_of si task g) res fb (int n)) \<and>
         (gw_ledger g', e') = snd (append_event (pl_crypto pl) io
           (audit_record (si_event_id si) (si_event_time si) (t_task_id task) (decision_of si task g) res fb (int n) (Some 5))
           (lg1, e2)))"
  using assms
  by (auto simp: submit_inference_task_def decision_of_def aggregate_def Let_def
      split: prod.splits sum.splits)

text \<open>A dispatch that answers was made by a leader with a valid lease.\<close>

lemma dispatch_Inr_leader:
  assumes "fst (dispatch pl rpc di now t d (s, e, w)) = Inr x"
  shows "sc_is_leader s \<and> (\<exists>e1. is_lease_valid (sc_lease_id s) now e = (True, e1))"
  using assms
  by (cases "is_lease_valid (sc_lease_id s) now e")
    (auto simp: dispatch_def check_leadership_def split: if_splits bool.splits)

text \<open>
  The scored decision of a gateway whose engine decides: its chain names admissible nodes.
\<close>

lemma decision_of_scored:
  assumes "\<not> gw_shadow_mode_enabled g" "gw_decision_engine_enabled g"
    and "\<exists>s\<in>set (get_all_snapshots (gw_store g)). admissible (filter_engine (gw_engine g)) task s"
  shows "set (dispatch_chain (decision_of si task g)) \<subseteq> s_node_id `
      {s \<in> set (get_all_snapshots (gw_store g)). admissible (filter_engine (gw_engine g)) task s} \<and>
    dispatch_chain (decision_of si task g) \<noteq> []"
proof -
  obtain d en where d: "shadow_scoring si task g = (Some d, en)"
    "evaluate_placement task (get_all_snapshots (gw_store g)) None (si_score_start si) (si_score_end si) (gw_engine g) = Inr (d, en)"
    using shadow_scoring_Some by blast
  have dd: "decision_of si task g = d" using assms(1,2) d(1) by (simp add: decision_of_def routing_decision_def)
  have "survivors (gw_engine g) task (get_all_snapshots (gw_store g)) \<noteq> []"
    using assms(3) by (auto simp: survivors_def filter_empty_conv)
  from evaluate_placement_some [OF this, of None "si_score_start si" "si_score_end si"]
  have "\<not> d_used_fallback_policy d" unfolding d(2) by auto
  note sc = scored_admissible [OF d(2) this]
  note c = dispatch_chain_spec [of d]
  have "set (dispatch_chain d) \<noteq> {}" using c sc by auto
  then show ?thesis unfolding dd using sc c by (auto split: if_splits)
qed

text \<open>
  The nodes of the static policy for a task, each once: those of the override for the task's
  residency when there is one, else the default ones, else one name that is built in.
\<close>

definition static_nodes :: "StaticPolicy \<Rightarrow> TaskRequest \<Rightarrow> str list" where
  "static_nodes policy t =
     (let chain = (case t_data_residency t of
          None \<Rightarrow> default_fallback_chain policy
        | Some r \<Rightarrow> (case dget (residency_overrides policy) (lower r) of
            Some chain \<Rightarrow> if r = [] then default_fallback_chain policy else chain
          | None \<Rightarrow> default_fallback_chain policy))
      in if chain = [] then [''cloud-default-fallback''] else rev (remdups (rev chain)))"

lemma fold_first_occurrences:
  "fold (\<lambda>n chain. if n \<notin> set chain then chain @ [n] else chain) ns [] = rev (remdups (rev ns))"
  by (induction ns rule: rev_induct) simp_all

lemma last_remdups_snoc: "last (remdups (xs @ [x])) = x"
  by (induction xs) auto

lemma static_decision_nodes:
  "dispatch_chain (get_static_fallback_decision en t why t0 t1) = static_nodes (static_policy en) t \<and>
   d_chosen_node (get_static_fallback_decision en t why t0 t1) = hd (static_nodes (static_policy en) t) \<and>
   d_used_fallback_policy (get_static_fallback_decision en t why t0 t1)"
proof -
  let ?d = "get_static_fallback_decision en t why t0 t1" and ?chain = "fallback_chain_for en t"
  have chain: "static_nodes (static_policy en) t =
      (if ?chain = [] then [''cloud-default-fallback''] else rev (remdups (rev ?chain)))"
    by (auto simp: static_nodes_def fallback_chain_for_def Let_def dget_or_def split: option.splits)
  show ?thesis
  proof (cases ?chain)
    case Nil
    then show ?thesis unfolding chain by (simp add: get_static_fallback_decision_def dispatch_chain_def Let_def)
  next
    case (Cons c cs)
    have "dispatch_chain ?d = fold (\<lambda>n chain. if n \<notin> set chain then chain @ [n] else chain) (c # cs) []"
      by (simp add: get_static_fallback_decision_def dispatch_chain_def Cons Let_def)
    moreover have "hd (rev (remdups (rev (c # cs)))) = c"
      by (simp add: hd_rev last_remdups_snoc)
    ultimately show ?thesis
      unfolding chain fold_first_occurrences by (simp add: get_static_fallback_decision_def Cons Let_def)
  qed
qed

lemma decision_of_static:
  assumes "gw_shadow_mode_enabled g \<or> \<not> gw_decision_engine_enabled g \<or>
    (\<forall>s\<in>set (get_all_snapshots (gw_store g)). \<not> admissible (filter_engine (gw_engine g)) task s)"
  shows "\<exists>en why t0 t1. static_policy en = static_policy (gw_engine g) \<and>
    decision_of si task g = get_static_fallback_decision en task why t0 t1"
proof -
  obtain d en where d: "shadow_scoring si task g = (Some d, en)"
    "evaluate_placement task (get_all_snapshots (gw_store g)) None (si_score_start si) (si_score_end si) (gw_engine g) = Inr (d, en)"
    using shadow_scoring_Some by blast
  show ?thesis
  proof (cases "survivors (gw_engine g) task (get_all_snapshots (gw_store g)) = []")
    case True
    from evaluate_placement_none [OF this, of None "si_score_start si" "si_score_end si"] d(2) have
      "d = get_static_fallback_decision (gw_engine g) task ''all_candidates_failed_hard_constraints'' (si_score_start si) (si_score_end si)"
      "en = gw_engine g" by simp_all
    then show ?thesis by (auto simp: decision_of_def d(1) routing_decision_def Let_def)
  next
    case False
    from evaluate_placement_some [OF this, of None "si_score_start si" "si_score_end si"] d(2)
    have "static_policy en = static_policy (gw_engine g)" by auto
    moreover have "gw_shadow_mode_enabled g \<or> \<not> gw_decision_engine_enabled g"
      using assms False by (auto simp: survivors_def filter_empty_conv)
    ultimately show ?thesis by (auto simp: decision_of_def d(1) routing_decision_def Let_def)
  qed
qed

section \<open>Sample values\<close>

definition gateway_platform :: platform where
  "gateway_platform = sample_platform\<lparr>pl_environ := [''GATEWAY_AUTH_TOKEN'' \<mapsto> ''secret'']\<rparr>"

definition sample_gateway :: gateway where
  "sample_gateway = \<lparr>gw_store = record_snapshot (sample_node ''edge-1'' 10) (new_TelemetryStore 3000),
     gw_engine = sample_engine, gw_scheduler = sample_scheduler,
     gw_ledger = fst (new_TamperEvidentLedger toy_crypto None 10 [1] new_etcd),
     gw_decision_engine_enabled = True, gw_shadow_mode_enabled = False\<rparr>"

definition sample_submit :: submit_inputs where
  "sample_submit = \<lparr>si_score_start = 0, si_score_end = 0, si_static_start = 0, si_static_end = 0,
     si_shadow_event_id = ''e0'', si_shadow_time = 0, si_dispatch_time = 0, si_dispatch = sample_dispatch,
     si_event_id = ''e1'', si_event_time = 0\<rparr>"

definition sample_result :: ExecutionResult where
  "sample_result = execution_result (sample_request ''k'') sample_record (exec_duration_ms 0 0) sample_worker_node"

text \<open>A network in which every node answers with the sample result.\<close>

definition answering_network :: "unit network" where
  "answering_network target timeout req st =
     (Inr (sign_response gateway_platform req (success_payload fraction_text sample_result) sample_inputs sample_worker_node), st)"

lemma gateway_platform_facts:
  "pl_crypto gateway_platform = toy_crypto" "ftext toy_crypto = fraction_text"
  "verify_gateway_token (pl_environ gateway_platform) ''secret'' = Inr ''secret''"
  by (simp_all add: gateway_platform_def sample_platform_def toy_crypto_def verify_gateway_token_def)

lemma sample_candidates: "get_all_snapshots (gw_store sample_gateway) = [sample_node ''edge-1'' 10]"
  by (simp add: sample_gateway_def record_snapshot_def new_TelemetryStore_def get_all_snapshots_def dvalues_def)

abbreviation sample_eu_task :: TaskRequest where
  "sample_eu_task \<equiv> sample_task (Some ''eu-ONLY'')"

lemma singleton_list: "set xs \<subseteq> {x} \<Longrightarrow> xs \<noteq> [] \<Longrightarrow> distinct xs \<Longrightarrow> xs = [x]"
  by (cases xs; cases "tl xs") auto

lemma sample_gateway_chain: "dispatch_chain (decision_of sample_submit sample_eu_task sample_gateway) = [''edge-1'']"
proof -
  have "admissible (filter_engine sample_engine) sample_eu_task (sample_node ''edge-1'' 10)"
    using sample_survives [of "''edge-1''" 10] by (simp add: survivors_def split: if_splits)
  then have "set (dispatch_chain (decision_of sample_submit sample_eu_task sample_gateway)) \<subseteq> {''edge-1''}"
    "dispatch_chain (decision_of sample_submit sample_eu_task sample_gateway) \<noteq> []"
    using decision_of_scored [of sample_gateway sample_eu_task sample_submit] sample_candidates
    by (auto simp: sample_gateway_def sample_node_def)
  moreover have "distinct (dispatch_chain (decision_of sample_submit sample_eu_task sample_gateway))"
    using dispatch_chain_spec by blast
  ultimately show ?thesis by (rule singleton_list)
qed

lemma sample_answer:
  assumes "get_stub c s = Inr (target, s1)" "\<not> sc_dual_required s1"
  shows "\<exists>res. fst (attempt gateway_platform answering_network sample_dispatch sample_eu_task n c (s, e, ())) = Inr res"
proof -
  have o: "x_output sample_result = Some (output_payload (sample_request ''k'') sample_record (exec_duration_ms 0 0) sample_worker_node)"
    "x_model_digest sample_result = Some sample_digest" "sample_digest \<noteq> []" "x_status sample_result = SUCCESS"
    "is_float (x_execution_time_ms sample_result)"
    using sample_fields by (simp_all add: sample_result_def execution_result_def sample_digest_def)
  have j: "json_ok (JObj (output_payload q rcd dur node))" "output_payload q rcd dur node \<noteq> []" for q rcd dur node
    by (simp_all add: output_payload_def list_all_iff)
  have r: "rnd_ok (ni_random sample_inputs)" by (simp add: sample_inputs_def rnd_ok_def sample_random_def)
  note rr = response_read [of gateway_platform sample_inputs s1 sample_result, unfolded gateway_platform_facts,
      OF toy_ok(1) toy_ok(3) [unfolded gateway_platform_facts] r assms(2) o(4,5,1) j o(2,3)]
  show ?thesis
    using assms(1) rr by (simp add: attempt_def answering_network_def gateway_platform_facts Let_def)
qed

lemma sample_no_dual: "\<not> sc_dual_required sample_scheduler" "sc_channels sample_scheduler = []"
  "sc_node_targets sample_scheduler = [(''edge-1'', ''host:1'')]"
  by (simp_all add: sample_scheduler_def new_TaskScheduler_def etcd_defs new_etcd_def Let_def pl_dual_def
      dual_required_def load_PqcConfig_def getenv_def sample_platform_def)

lemma sample_attempt:
  "\<exists>res. attempt_outcome gateway_platform answering_network sample_dispatch sample_eu_task [''edge-1''] 0 0
     (sample_scheduler, sample_scheduler_etcd, ()) = Inr res"
proof -
  have "get_stub ''edge-1'' sample_scheduler = Inr (''host:1'', sample_scheduler\<lparr>sc_channels := [(''edge-1'', ''host:1'')]\<rparr>)"
    by (simp add: get_stub_def sample_no_dual Let_def)
  from sample_answer [OF this] show ?thesis by (simp add: attempt_outcome_0 sample_no_dual)
qed

lemma sample_leader:
  "sc_is_leader (gw_scheduler sample_gateway)"
  "is_lease_valid (sc_lease_id (gw_scheduler sample_gateway)) 0 sample_scheduler_etcd = (True, sample_scheduler_etcd)"
  using sample_elected by (simp_all add: sample_gateway_def)

lemma sample_not_shadow:
  "\<not> gw_shadow_mode_enabled sample_gateway" "gw_decision_engine_enabled sample_gateway"
  "si_dispatch_time sample_submit = 0" "si_dispatch sample_submit = sample_dispatch"
  by (simp_all add: sample_gateway_def sample_submit_def)

text \<open>The sample submission answers.\<close>

lemma submit_answers:
  assumes "verify_gateway_token (pl_environ pl) token = Inr u"
    and "audit_shadow (pl_crypto pl) io si task g (fst (shadow_scoring si task g)) (gw_ledger g, e) = (lg1, e1)"
    and "sc_is_leader (gw_scheduler g)"
    and "is_lease_valid (sc_lease_id (gw_scheduler g)) (si_dispatch_time si) e1 = (True, e2)"
    and "j < length (dispatch_chain (decision_of si task g))"
    and "attempt_outcome pl rpc (si_dispatch si) task (dispatch_chain (decision_of si task g)) 0 j
      (gw_scheduler g, e2, w) = Inr res"
  shows "\<exists>resp g' e' w'. submit_inference_task pl io rpc si token task (g, e, w) = (Inr resp, g', e', w')"
proof -
  obtain r s e3 w3 where d: "dispatch pl rpc (si_dispatch si) (si_dispatch_time si) task (decision_of si task g)
      (gw_scheduler g, e1, w) = (r, s, e3, w3)" by (metis prod_cases4)
  obtain resp g' e' w' where sub: "submit_inference_task pl io rpc si token task (g, e, w) = (resp, g', e', w')"
    by (metis prod_cases4)
  have "\<exists>x. r = Inr x"
    using dispatch_spec [OF assms(3,4), where pl = pl and rpc = rpc and di = "si_dispatch si" and t = task and
        d = "decision_of si task g" and w = w] d assms(5,6)
    by (cases r) auto
  then have "\<exists>x. resp = Inr x" using submit_authorized [OF assms(1,2) d sub] by auto
  then show ?thesis using sub by blast
qed

lemma sample_ready:
  "audit_shadow (pl_crypto gateway_platform) toy_io sample_submit sample_eu_task sample_gateway
     (fst (shadow_scoring sample_submit sample_eu_task sample_gateway)) (gw_ledger sample_gateway, sample_scheduler_etcd) =
   (gw_ledger sample_gateway, sample_scheduler_etcd)"
  "is_lease_valid (sc_lease_id (gw_scheduler sample_gateway)) (si_dispatch_time sample_submit) sample_scheduler_etcd =
   (True, sample_scheduler_etcd)"
  "0 < length (dispatch_chain (decision_of sample_submit sample_eu_task sample_gateway))"
  "\<exists>res. attempt_outcome gateway_platform answering_network (si_dispatch sample_submit) sample_eu_task
     (dispatch_chain (decision_of sample_submit sample_eu_task sample_gateway)) 0 0
     (gw_scheduler sample_gateway, sample_scheduler_etcd, ()) = Inr res"
  using sample_leader sample_attempt
  by (simp_all add: audit_shadow_def sample_not_shadow sample_gateway_chain) (simp add: sample_gateway_def)

lemma sample_submission:
  "\<exists>resp g' e' w'. submit_inference_task gateway_platform toy_io answering_network sample_submit ''secret'' sample_eu_task
     (sample_gateway, sample_scheduler_etcd, ()) = (Inr resp, g', e', w')"
  using sample_ready(4) submit_answers [OF gateway_platform_facts(3) sample_ready(1) sample_leader(1) sample_ready(2,3),
      where rpc = answering_network]
  by blast

section \<open>Properties\<close>

text \<open>
  Nothing happens without the token. When the configured token is missing, empty or not
  the caller's, a submission, a change of weights and a query of the audit trail are refused
  with status 401 or 500 and change no state.
\<close>

lemma unauthenticated_requests_inert:
  assumes "pl_environ pl ''GATEWAY_AUTH_TOKEN'' \<noteq> Some token \<or> token = []"
  shows "\<exists>err. he_status err \<in> {401, 500} \<and>
    submit_inference_task pl io rpc si token task st = (Inl err, st) \<and>
    update_sla_weights (pl_environ pl) token c body g = (Inl err, g) \<and>
    get_audit_events (pl_environ pl) io token q g = Inl err"
proof -
  obtain err where v: "verify_gateway_token (pl_environ pl) token = Inl err"
    using assms verify_gateway_token_iff by (cases "verify_gateway_token (pl_environ pl) token") blast+
  have "update_sla_weights (pl_environ pl) token c body g = (Inl err, g)"
    "get_audit_events (pl_environ pl) io token q g = Inl err"
    using v by (simp_all add: update_sla_weights_def get_audit_events_def)
  then show ?thesis using verify_gateway_token_Inl [OF v] submit_unauthorized [OF v] by blast
qed

text \<open>
  C12: inference runs on admissible nodes. When the engine decides and some node satisfies all
  hard constraints of the task, a submission that answers was executed by an attempt on a
  node whose latest snapshot satisfies all of them, and the answer is the envelope of that
  attempt's result; the scheduler held a valid lease.
\<close>

theorem inference_on_admissible_node:
  assumes "submit_inference_task pl io rpc si token task (g, e, w) = (Inr resp, g', e', w')"
    and "\<not> gw_shadow_mode_enabled g" "gw_decision_engine_enabled g"
    and "\<exists>s\<in>set (get_all_snapshots (gw_store g)). admissible (filter_engine (gw_engine g)) task s"
  shows "\<exists>s i e1 res fb. s \<in> set (get_all_snapshots (gw_store g)) \<and> admissible (filter_engine (gw_engine g)) task s \<and>
    is_lease_valid (sc_lease_id (gw_scheduler g)) (si_dispatch_time si) e = (True, e1) \<and>
    i < length (dispatch_chain (decision_of si task g)) \<and> dispatch_chain (decision_of si task g) ! i = s_node_id s \<and>
    attempt_outcome pl rpc (si_dispatch si) task (dispatch_chain (decision_of si task g)) 0 i (gw_scheduler g, e1, w) = Inr res \<and>
    resp = response_envelope (si_event_id si) (t_task_id task) (decision_of si task g) res fb (int (i + 1))"
proof -
  let ?d = "decision_of si task g"
  obtain u where t: "verify_gateway_token (pl_environ pl) token = Inr u"
    using assms(1) submit_unauthorized [of pl token _ io rpc si task "(g, e, w)"]
    by (cases "verify_gateway_token (pl_environ pl) token") simp_all
  have a: "audit_shadow (pl_crypto pl) io si task g (fst (shadow_scoring si task g)) (gw_ledger g, e) = (gw_ledger g, e)"
    using assms(2) by (simp add: audit_shadow_def)
  obtain r s e2 w2 where d: "dispatch pl rpc (si_dispatch si) (si_dispatch_time si) task ?d (gw_scheduler g, e, w) = (r, s, e2, w2)"
    by (metis prod_cases4)
  note sub = submit_authorized [OF t a d assms(1)]
  obtain res fb n where r: "r = Inr (res, fb, n)" using sub by (cases r) auto
  obtain e1 where l: "sc_is_leader (gw_scheduler g)" "is_lease_valid (sc_lease_id (gw_scheduler g)) (si_dispatch_time si) e = (True, e1)"
    using dispatch_Inr_leader [where pl = pl and rpc = rpc and di = "si_dispatch si" and now = "si_dispatch_time si" and
        t = task and d = ?d and s = "gw_scheduler g" and e = e and w = w] d r by auto
  have n: "1 \<le> n" "n \<le> length (dispatch_chain ?d)"
    "attempt_outcome pl rpc (si_dispatch si) task (dispatch_chain ?d) 0 (n - 1) (gw_scheduler g, e1, w) = Inr res"
    using dispatch_spec [OF l, where pl = pl and rpc = rpc and di = "si_dispatch si" and t = task and d = ?d and w = w] d r by auto
  have "dispatch_chain ?d ! (n - 1) \<in> set (dispatch_chain ?d)" using n by (intro nth_mem) simp
  then obtain x where "x \<in> set (get_all_snapshots (gw_store g))" "admissible (filter_engine (gw_engine g)) task x"
    "dispatch_chain ?d ! (n - 1) = s_node_id x"
    using decision_of_scored [OF assms(2-4), of si] by auto
  moreover have "resp = response_envelope (si_event_id si) (t_task_id task) ?d res fb (int (n - 1 + 1))" "n - 1 < length (dispatch_chain ?d)"
    using sub r n(1,2) by auto
  ultimately show ?thesis using l(2) n(3) by blast
qed

theorem inference_on_admissible_node_witness:
  "\<exists>resp res fb i. fst (submit_inference_task gateway_platform toy_io answering_network sample_submit ''secret'' sample_eu_task
     (sample_gateway, sample_scheduler_etcd, ())) = Inr resp \<and>
   resp = response_envelope ''e1'' ''task-1'' (decision_of sample_submit sample_eu_task sample_gateway) res fb i"
proof -
  obtain resp g' e' w' where s: "submit_inference_task gateway_platform toy_io answering_network sample_submit ''secret''
      sample_eu_task (sample_gateway, sample_scheduler_etcd, ()) = (Inr resp, g', e', w')"
    using sample_submission by blast
  have "admissible (filter_engine sample_engine) sample_eu_task (sample_node ''edge-1'' 10)"
    using sample_survives [of "''edge-1''" 10] by (simp add: survivors_def split: if_splits)
  then have "\<exists>x\<in>set (get_all_snapshots (gw_store sample_gateway)).
      admissible (filter_engine (gw_engine sample_gateway)) sample_eu_task x"
    unfolding sample_candidates by (simp add: sample_gateway_def)
  from inference_on_admissible_node [OF s sample_not_shadow(1,2) this] s
  show ?thesis by (auto simp: sample_submit_def sample_task_def)
qed

text \<open>
  Every answered inference is audited. Outside shadow mode an answered submission appends
  exactly one event, chained to the last one, that records the decision, the execution and
  the number of attempts; a submission that fails appends nothing and answers 503 (chain
  exhausted) or 500.
\<close>

lemma submissions_audited:
  assumes "verify_gateway_token (pl_environ pl) token = Inr u" "\<not> gw_shadow_mode_enabled g"
    and "dispatch pl rpc (si_dispatch si) (si_dispatch_time si) task (decision_of si task g) (gw_scheduler g, e, w)
      = (r, s, e2, w2)"
    and "submit_inference_task pl io rpc si token task (g, e, w) = (resp, g', e', w')"
  shows "case r of
      Inr (res, fb, n) \<Rightarrow> file_lines (gw_ledger g') = file_lines (gw_ledger g) @
        [stamped_line (pl_crypto pl) io (lg_last_hash (gw_ledger g))
          (audit_record (si_event_id si) (si_event_time si) (t_task_id task) (decision_of si task g) res fb (int n) (Some 5))]
    | Inl ex \<Rightarrow> gw_ledger g' = gw_ledger g \<and>
        (\<exists>err. resp = Inl err \<and> he_status err = (if exc_class ex = FallbackExhaustionErrorClass then 503 else 500))"
proof -
  have a: "audit_shadow (pl_crypto pl) io si task g (fst (shadow_scoring si task g)) (gw_ledger g, e) = (gw_ledger g, e)"
    using assms(2) by (simp add: audit_shadow_def)
  note sub = submit_authorized [OF assms(1) a assms(3,4)]
  show ?thesis
  proof (cases r)
    case (Inl ex)
    then show ?thesis using sub by (simp add: dispatch_error_def)
  next
    case (Inr p)
    obtain res fb n where p: "p = (res, fb, n)" by (cases p) auto
    let ?ev = "audit_record (si_event_id si) (si_event_time si) (t_task_id task) (decision_of si task g) res fb (int n) (Some 5)"
    have "(gw_ledger g', e') = snd (append_event (pl_crypto pl) io ?ev (gw_ledger g, e2))"
      using sub by (simp add: Inr p)
    then have "gw_ledger g' = fst (snd (append_event (pl_crypto pl) io ?ev (gw_ledger g, e2)))"
      by (metis fst_conv)
    then show ?thesis
      using append_event_file(1) [of "pl_crypto pl" io ?ev "gw_ledger g" e2] by (simp add: Inr p file_lines_def)
  qed
qed

text \<open>
  C16: the gateway fails open. In shadow mode, with the decision engine disabled or with no node
  that satisfies the hard constraints, a submission with the token is sent along the nodes of
  the static policy (there is always one), provided the scheduler leads with a valid lease. It is
  answered exactly when an attempt on one of them succeeds: with the result of the first that
  does, the number of attempts and the fallback flag, and a decision that names the first node of
  the policy. Otherwise the answer is 503.
\<close>

theorem gateway_fails_open:
  assumes "verify_gateway_token (pl_environ pl) token = Inr u"
    and "gw_shadow_mode_enabled g \<or> \<not> gw_decision_engine_enabled g \<or>
      (\<forall>s\<in>set (get_all_snapshots (gw_store g)). \<not> admissible (filter_engine (gw_engine g)) task s)"
    and "audit_shadow (pl_crypto pl) io si task g (fst (shadow_scoring si task g)) (gw_ledger g, e) = (lg1, e1)"
    and "sc_is_leader (gw_scheduler g)"
    and "is_lease_valid (sc_lease_id (gw_scheduler g)) (si_dispatch_time si) e1 = (True, e2)"
    and "nodes = static_nodes (static_policy (gw_engine g)) task"
    and "submit_inference_task pl io rpc si token task (g, e, w) = (resp, g', e', w')"
  shows "nodes \<noteq> [] \<and>
    (case resp of
       Inl err \<Rightarrow> he_status err = 503 \<and>
         (\<forall>i<length nodes. \<exists>ex. attempt_outcome pl rpc (si_dispatch si) task nodes 0 i (gw_scheduler g, e2, w) = Inl ex)
     | Inr answer \<Rightarrow> (\<exists>i res d. i < length nodes \<and>
         attempt_outcome pl rpc (si_dispatch si) task nodes 0 i (gw_scheduler g, e2, w) = Inr res \<and>
         (\<forall>k<i. \<exists>ex. attempt_outcome pl rpc (si_dispatch si) task nodes 0 k (gw_scheduler g, e2, w) = Inl ex) \<and>
         answer = response_envelope (si_event_id si) (t_task_id task) d res (0 < i) (int i + 1) \<and>
         d_used_fallback_policy d \<and> d_chosen_node d = hd nodes))"
proof -
  let ?d = "decision_of si task g"
  have d: "dispatch_chain ?d = nodes" "d_chosen_node ?d = hd nodes" "d_used_fallback_policy ?d"
    using decision_of_static [OF assms(2), of si] static_decision_nodes assms(6) by metis+
  have ne: "nodes \<noteq> []" by (simp add: assms(6) static_nodes_def Let_def)
  obtain r s e3 w3 where r: "dispatch pl rpc (si_dispatch si) (si_dispatch_time si) task ?d (gw_scheduler g, e1, w) = (r, s, e3, w3)"
    by (metis prod_cases4)
  note out = submit_authorized [OF assms(1,3) r assms(7)]
  note spec = dispatch_spec [OF assms(4,5), where pl = pl and rpc = rpc and di = "si_dispatch si" and t = task and d = ?d and w = w,
      unfolded r fst_conv d(1)]
  show ?thesis
  proof (cases r)
    case (Inl ex)
    then show ?thesis using out spec ne by (simp add: dispatch_error_def)
  next
    case (Inr p)
    obtain res fb n where p: "p = (res, fb, n)" by (cases p) auto
    then have n: "1 \<le> n" "n \<le> length nodes" "fb = (1 < n)"
      "attempt_outcome pl rpc (si_dispatch si) task nodes 0 (n - 1) (gw_scheduler g, e2, w) = Inr res"
      "\<forall>k<n - 1. \<exists>ex. attempt_outcome pl rpc (si_dispatch si) task nodes 0 k (gw_scheduler g, e2, w) = Inl ex"
      using spec Inr by auto
    have "resp = Inr (response_envelope (si_event_id si) (t_task_id task) ?d res (0 < n - 1) (int (n - 1) + 1))"
      using out Inr p n(1,3) by (simp add: of_nat_diff)
    then show ?thesis using n d ne by (auto intro!: exI [of _ "n - 1"] exI [of _ res] exI [of _ ?d])
  qed
qed

text \<open>The engine disabled, the first node of the policy unknown to the scheduler, the second answering.\<close>

definition offline_gateway :: gateway where
  "offline_gateway = sample_gateway\<lparr>gw_decision_engine_enabled := False,
     gw_scheduler := register_worker ''cloud-aws-eu-central'' ''host:1'' sample_scheduler\<rparr>"

theorem gateway_fails_open_witness:
  "\<exists>res d g' e' w'. submit_inference_task gateway_platform toy_io answering_network sample_submit ''secret'' sample_eu_task
     (offline_gateway, sample_scheduler_etcd, ()) =
       (Inr (response_envelope ''e1'' (t_task_id sample_eu_task) d res True 2), g', e', w') \<and>
     d_used_fallback_policy d \<and> d_chosen_node d = ''edge-frankfurt-1''"
proof -
  let ?s = "register_worker ''cloud-aws-eu-central'' ''host:1'' sample_scheduler"
  let ?nodes = "[''edge-frankfurt-1'', ''cloud-aws-eu-central'']"
  have f: "gw_scheduler offline_gateway = ?s" "\<not> gw_decision_engine_enabled offline_gateway"
    "\<not> gw_shadow_mode_enabled offline_gateway" "gw_engine offline_gateway = sample_engine"
    "gw_ledger offline_gateway = gw_ledger sample_gateway"
    using sample_not_shadow by (simp_all add: offline_gateway_def) (simp add: sample_gateway_def)
  have au: "audit_shadow (pl_crypto gateway_platform) toy_io sample_submit sample_eu_task offline_gateway
     (fst (shadow_scoring sample_submit sample_eu_task offline_gateway)) (gw_ledger offline_gateway, sample_scheduler_etcd) =
     (gw_ledger sample_gateway, sample_scheduler_etcd)"
    by (simp add: audit_shadow_def f)
  have lead: "sc_is_leader (gw_scheduler offline_gateway)"
    "is_lease_valid (sc_lease_id (gw_scheduler offline_gateway)) (si_dispatch_time sample_submit) sample_scheduler_etcd =
     (True, sample_scheduler_etcd)"
    using sample_elected by (simp_all add: f sample_not_shadow register_worker_def Let_def)
  have nodes: "?nodes = static_nodes (static_policy (gw_engine offline_gateway)) sample_eu_task"
    by (simp add: f static_nodes_def sample_engine_def load_static_routing_policy_def sample_task_def sample_residency)
  have g0: "get_stub ''edge-frankfurt-1'' ?s = Inl (NodeUnavailableError ''No gRPC target registered for edge-frankfurt-1'' ''edge-frankfurt-1'' [])"
    by (simp add: get_stub_def register_worker_def sample_no_dual Let_def)
  obtain s1 where g1: "get_stub ''cloud-aws-eu-central'' ?s = Inr (''host:1'', s1)" "\<not> sc_dual_required s1"
    by (simp add: get_stub_def register_worker_def sample_no_dual Let_def)
  have a0: "attempt gateway_platform answering_network sample_dispatch sample_eu_task 1 ''edge-frankfurt-1'' (?s, sample_scheduler_etcd, ()) =
      (Inl (NodeUnavailableError ''No gRPC target registered for edge-frankfurt-1'' ''edge-frankfurt-1'' []), ?s, sample_scheduler_etcd, ())"
    by (simp add: attempt_def g0)
  obtain res where a1: "fst (attempt gateway_platform answering_network sample_dispatch sample_eu_task 2 ''cloud-aws-eu-central''
      (?s, sample_scheduler_etcd, ())) = Inr res"
    using sample_answer [OF g1] by blast
  let ?out = "\<lambda>i. attempt_outcome gateway_platform answering_network (si_dispatch sample_submit) sample_eu_task ?nodes 0 i
      (gw_scheduler offline_gateway, sample_scheduler_etcd, ())"
  have o: "\<exists>ex. ?out 0 = Inl ex" "?out 1 = Inr res"
    using a0 a1 by (simp_all add: attempt_outcome_0 attempt_outcome_Suc f sample_not_shadow numeral_2_eq_2)
  obtain resp g' e' w' where sub: "submit_inference_task gateway_platform toy_io answering_network sample_submit ''secret'' sample_eu_task
     (offline_gateway, sample_scheduler_etcd, ()) = (resp, g', e', w')" by (metis prod_cases4)
  note along = gateway_fails_open [OF gateway_platform_facts(3) disjI2 [OF disjI1 [OF f(2)]] au lead nodes sub, THEN conjunct2]
  show ?thesis
  proof (cases resp)
    case (Inl err)
    then show ?thesis using along o(2) by force
  next
    case (Inr answer)
    then obtain i r d where i: "i < length ?nodes" "?out i = Inr r"
      "answer = response_envelope (si_event_id sample_submit) (t_task_id sample_eu_task) d r (0 < i) (int i + 1)"
      "d_used_fallback_policy d" "d_chosen_node d = hd ?nodes"
      using along unfolding Inr sum.case by blast
    have "i \<noteq> 0" using o(1) i(2) by (metis sum.distinct(1))
    then have "i = 1" using i(1) by simp
    then show ?thesis using i sub Inr by (auto simp: sample_submit_def)
  qed
qed

end
