(* ===== verification/Sbom.thy ===== *)
theory Sbom
  imports Security
begin

text \<open>
  The bill of materials (\<open>tools/generate_sbom.py\<close>): reading \<open>requirements.txt\<close> and the
  CycloneDX and SPDX documents. The files are arguments (their lines, their bytes, \<open>None\<close> when
  they do not exist), as are the formatted times and the MD5 text of the serial number. The
  command line is in \<open>Tools\<close>.
\<close>

text \<open>\<open>s.split(sep, 1)\<close> when \<open>sep\<close> occurs in \<open>s\<close>, \<open>None\<close> when it does not.\<close>

fun split_once :: "str \<Rightarrow> str \<Rightarrow> (str \<times> str) option" where
  "split_once sep [] = (if sep = [] then Some ([], []) else None)"
| "split_once sep (c # cs) =
     (if startswith (c # cs) sep then Some ([], drop (length sep) (c # cs))
      else map_option (\<lambda>(a, b). (c # a, b)) (split_once sep cs))"

text \<open>One line: \<open>None\<close> for a blank line or a comment, else the name and the version.\<close>

definition parse_requirement :: "str \<Rightarrow> (str \<times> str) option" where
  "parse_requirement raw =
     (let line = strip raw in
      if line = [] \<or> startswith line ''#'' then None
      else (case split_once ''=='' line of
        Some (name, version) \<Rightarrow> Some (strip name, strip version)
      | None \<Rightarrow>
          (case split_once ''>='' line of
             Some (name, version) \<Rightarrow> Some (strip name, ''>='' @ strip version)
           | None \<Rightarrow> Some (strip line, ''unknown''))))"

definition parse_requirements :: "str list option \<Rightarrow> (str \<times> str) list" where
  "parse_requirements file = (case file of None \<Rightarrow> [] | Some lines \<Rightarrow> List.map_filter parse_requirement lines)"

text \<open>Reading a file in chunks and hashing them one after the other.\<close>

function read_chunks :: "nat \<Rightarrow> bytes \<Rightarrow> bytes list" where
  "read_chunks n bs = (if n = 0 \<or> bs = [] then [] else take n bs # read_chunks n (drop n bs))"
  by pat_completeness auto
termination
  by (relation "measure (\<lambda>(n, bs). length bs)") auto

declare read_chunks.simps [simp del]

definition calculate_sha256 :: "crypto \<Rightarrow> bytes \<Rightarrow> str" where
  "calculate_sha256 cr content = hex (sha256 cr (fold (\<lambda>chunk h. h @ chunk) (read_chunks 65536 content) []))"

definition core_modules :: "(str \<times> str) list" where
  "core_modules =
     [(''gateway'', ''gateway/app.py''),
      (''decision_engine'', ''decision_engine/engine.py''),
      (''scheduler'', ''scheduler/dispatcher.py''),
      (''node_agent'', ''node_agent/worker.py''),
      (''results_aggregator'', ''results_aggregator/aggregator.py''),
      (''telemetry'', ''telemetry/store.py''),
      (''common'', ''common/supply_chain.py'')]"

definition module_component :: "crypto \<Rightarrow> (str \<Rightarrow> bytes option) \<Rightarrow> str \<Rightarrow> str \<Rightarrow> str \<times> str \<Rightarrow> json" where
  "module_component cr files project_name version = (\<lambda>(mod_name, file_rel).
     JObj ([(''type'', JStr ''application''),
            (''name'', JStr (project_name @ ''/'' @ mod_name)),
            (''version'', JStr version),
            (''description'', JStr (''Internal microservice/module: '' @ mod_name))] @
       (case files file_rel of
          None \<Rightarrow> []
        | Some content \<Rightarrow>
            [(''hashes'', JArr [JObj [(''alg'', JStr ''SHA-256''), (''content'', JStr (calculate_sha256 cr content))]])])))"

definition purl :: "str \<times> str \<Rightarrow> str" where
  "purl dep = ''pkg:pypi/'' @ fst dep @ ''@'' @ snd dep"

definition library_component :: "str \<times> str \<Rightarrow> json" where
  "library_component dep = JObj
     [(''type'', JStr ''library''), (''name'', JStr (fst dep)), (''version'', JStr (snd dep)),
      (''purl'', JStr (purl dep)), (''scope'', JStr ''required'')]"

definition cyclonedx_components ::
    "crypto \<Rightarrow> (str \<Rightarrow> bytes option) \<Rightarrow> str \<Rightarrow> str \<Rightarrow> (str \<times> str) list \<Rightarrow> json list" where
  "cyclonedx_components cr files project_name version dependencies =
     map (module_component cr files project_name version) core_modules @ map library_component dependencies"

definition generate_cyclonedx_sbom ::
    "crypto \<Rightarrow> (str \<Rightarrow> bytes option) \<Rightarrow> str \<Rightarrow> str \<Rightarrow> (str \<times> str) list \<Rightarrow> str \<Rightarrow> str \<Rightarrow> jobj" where
  "generate_cyclonedx_sbom cr files serial timestamp dependencies project_name version =
     [(''bomFormat'', JStr ''CycloneDX''),
      (''specVersion'', JStr ''1.5''),
      (''serialNumber'', JStr (''urn:uuid:'' @ serial)),
      (''version'', JInt 1),
      (''metadata'', JObj
        [(''timestamp'', JStr timestamp),
         (''tools'', JArr [JObj [(''vendor'', JStr ''DistributedAI''), (''name'', JStr ''sbom-generator''),
            (''version'', JStr ''1.0.0'')]]),
         (''component'', JObj
           [(''type'', JStr ''application''), (''name'', JStr project_name), (''version'', JStr version),
            (''description'', JStr ''Distributed AI Workload Orchestration Platform'')])]),
      (''components'', JArr (cyclonedx_components cr files project_name version dependencies))]"

definition root_package :: "str \<Rightarrow> str \<Rightarrow> json" where
  "root_package project_name version = JObj
     [(''SPDXID'', JStr ''SPDXRef-RootPackage''), (''name'', JStr project_name), (''versionInfo'', JStr version),
      (''downloadLocation'', JStr ''https://github.com/distributed-ai/orchestration''),
      (''packageSupplier'', JStr ''Organization: Distributed AI Security Team'')]"

definition spdx_package :: "nat \<times> str \<times> str \<Rightarrow> json" where
  "spdx_package = (\<lambda>(i, dep). JObj
     [(''SPDXID'', JStr (''SPDXRef-Package-'' @ show_int (int i))), (''name'', JStr (fst dep)),
      (''versionInfo'', JStr (snd dep)), (''downloadLocation'', JStr ''NOASSERTION''),
      (''externalRefs'', JArr [JObj
        [(''referenceCategory'', JStr ''PACKAGE-MANAGER''), (''referenceType'', JStr ''purl''),
         (''referenceLocator'', JStr (purl dep))]])])"

definition generate_spdx_sbom :: "int \<Rightarrow> str \<Rightarrow> (str \<times> str) list \<Rightarrow> str \<Rightarrow> str \<Rightarrow> jobj" where
  "generate_spdx_sbom seconds timestamp dependencies project_name version =
     [(''spdxVersion'', JStr ''SPDX-2.3''),
      (''dataLicense'', JStr ''CC0-1.0''),
      (''SPDXID'', JStr ''SPDXRef-DOCUMENT''),
      (''name'', JStr (project_name @ ''-SBOM'')),
      (''documentNamespace'', JStr (''https://spdx.org/spdxdocs/'' @ project_name @ ''-'' @ version @ ''-'' @ show_int seconds)),
      (''creationInfo'', JObj [(''created'', JStr timestamp),
         (''creators'', JArr [JStr ''Tool: DistributedAI-SBOMGenerator-1.0''])]),
      (''packages'', JArr (root_package project_name version #
         map spdx_package (enumerate 1 dependencies)))]"

section \<open>Chunks, splitting and white space\<close>

lemma concat_read_chunks: "0 < n \<Longrightarrow> concat (read_chunks n bs) = bs"
  by (induction n bs rule: read_chunks.induct) (subst read_chunks.simps, simp)

lemma fold_append: "fold (\<lambda>chunk h. h @ chunk) xs h = h @ concat xs"
  by (induction xs arbitrary: h) simp_all

lemma calculate_sha256_whole: "calculate_sha256 cr content = hex (sha256 cr content)"
  by (simp add: calculate_sha256_def fold_append concat_read_chunks)

text \<open>A name without an equals sign ends at the first pair of equals signs.\<close>

lemma split_once_pinned: "CHR ''='' \<notin> set name \<Longrightarrow> split_once ''=='' (name @ ''=='' @ v) = Some (name, v)"
  by (induction name) (auto simp: startswith_def)

definition trimmed :: "str \<Rightarrow> bool" where
  "trimmed s \<longleftrightarrow> s \<noteq> [] \<and> \<not> is_space (hd s) \<and> \<not> is_space (last s)"

lemma strip_trimmed: "trimmed s \<Longrightarrow> strip s = s"
proof -
  assume t: "trimmed s"
  then have "dropWhile is_space s = s" by (cases s) (simp_all add: trimmed_def)
  moreover have "dropWhile is_space (rev s) = rev s"
    using t by (cases "rev s") (auto simp: trimmed_def hd_rev [symmetric])
  ultimately show ?thesis by (simp add: strip_def)
qed

text \<open>A dependency that a line \<open>name==version\<close> can pin.\<close>

definition pinnable :: "str \<times> str \<Rightarrow> bool" where
  "pinnable dep \<longleftrightarrow> trimmed (fst dep) \<and> trimmed (snd dep) \<and> CHR ''='' \<notin> set (fst dep) \<and> hd (fst dep) \<noteq> CHR ''#''"

definition pinned_line :: "str \<times> str \<Rightarrow> str" where
  "pinned_line dep = fst dep @ ''=='' @ snd dep"

lemma parse_pinned: "pinnable dep \<Longrightarrow> parse_requirement (pinned_line dep) = Some dep"
proof -
  assume p: "pinnable dep"
  obtain n v where d: "dep = (n, v)" by fastforce
  have t: "trimmed n" "trimmed v" using p by (simp_all add: pinnable_def d)
  then have "trimmed (n @ ''=='' @ v)" by (simp add: trimmed_def)
  then have "strip (n @ ''=='' @ v) = n @ ''=='' @ v" by (rule strip_trimmed)
  then have s: "strip (n @ CHR ''='' # CHR ''='' # v) = n @ CHR ''='' # CHR ''='' # v" by simp
  have "\<not> startswith (n @ ''=='' @ v) ''#''" using p t by (cases n) (auto simp: startswith_def pinnable_def d trimmed_def)
  then show ?thesis using p t split_once_pinned [of n v]
    by (simp add: parse_requirement_def pinned_line_def d s Let_def strip_trimmed pinnable_def)
qed

section \<open>The bill of materials is complete\<close>

lemma requirements_roundtrip:
  assumes "\<forall>dep\<in>set deps. pinnable dep"
  shows "parse_requirements (Some (map pinned_line deps)) = deps"
  using assms by (induction deps) (simp_all add: parse_requirements_def parse_pinned)

end
