(* ===== verification/Bootstrap.thy ===== *)
theory Bootstrap
  imports Gateway Sbom
begin

text \<open>
  Putting the parts together: the seeding of the registry and the simulated cluster
  (\<open>common/cluster.py\<close>), the constructor of the decision engine, and the command-line check of a
  registered model (\<open>tools/verify_supply_chain.py\<close>).

  Clock readings, generated keys and the parsed routing file are arguments. Starting the gRPC
  servers is the dictionary from their addresses to the workers they serve. A raise aborts the
  construction of the cluster, whose result is then the exception.
\<close>

section \<open>Seeding the registry\<close>

definition bootstrap_policy :: SupplyChainPolicy where
  "bootstrap_policy =
     \<lparr>sp_require_immutable_digest = True, sp_require_signature = True,
      sp_allowed_builders = [''spiffe://distributed-ai.local/ci-builder''],
      sp_max_allowed_critical_vulns = 0, sp_max_allowed_high_vulns = 0\<rparr>"

definition vision_digest :: str where
  "vision_digest = ''sha256:4a3b84175317b6a1e3b5e40854378f56193d56a31c5040f7d5440798e4f55e09''"

definition vision_provenance :: "str \<Rightarrow> pyfloat \<Rightarrow> exc + ArtifactProvenance" where
  "vision_provenance model_name now =
     create_provenance model_name vision_digest ''spiffe://distributed-ai.local/ci-builder''
       ''a1b2c3d4e5f67890123456789abcdef012345678''
       ''sha256:ba7816bf8f01cfea414140de5dae2223b00361a396177a9cb410ff61f20015ad''
       (Some [(''CRITICAL'', 0), (''HIGH'', 0), (''MEDIUM'', 0), (''LOW'', 0)])
       ''https://github.com/distributed-ai/orchestration'' now"

text \<open>The loop over the model names, each with the clock reading of its provenance.\<close>

fun register_models ::
    "crypto \<Rightarrow> codecs \<Rightarrow> bytes \<Rightarrow> (str \<times> pyfloat) list \<Rightarrow> etcd \<Rightarrow> (exc + unit) \<times> etcd" where
  "register_models cr co ci_signer_key [] e = (Inr (), e)"
| "register_models cr co ci_signer_key ((model_name, now) # rest) e =
     (case vision_provenance model_name now of
        Inl ex \<Rightarrow> (Inl ex, e)
      | Inr provenance \<Rightarrow>
          (case register_approved_model cr co model_name vision_digest provenance ci_signer_key ''ci-release-signer-1'' e of
             Inl ex \<Rightarrow> (Inl ex, e)
           | Inr (rcd, e1) \<Rightarrow> register_models cr co ci_signer_key rest e1))"

definition bootstrap_supply_chain ::
    "crypto \<Rightarrow> codecs \<Rightarrow> bytes \<Rightarrow> pyfloat \<Rightarrow> pyfloat \<Rightarrow> etcd \<Rightarrow> (exc + unit) \<times> etcd" where
  "bootstrap_supply_chain cr co ci_signer_key t1 t2 e =
     register_models cr co ci_signer_key [(''vision-classifier-v3'', t1), (''v3'', t2)]
       (set_supply_chain_policy co bootstrap_policy e)"

section \<open>The cluster\<close>

definition new_DecisionEngine :: "StaticPolicy \<Rightarrow> DecisionEngine" where
  "new_DecisionEngine policy =
     \<lparr>custom_sla_profiles = [], filter_engine = new_ConstraintFilter, ema_alpha = 1 / 2,
      challenger_margin = fl (1 / 10), node_ema_scores = [], static_policy = policy\<rparr>"

text \<open>What each node's construction takes from outside: two clock readings and its keys.\<close>

record node_birth =
  nb_created :: pyfloat
  nb_emitted :: pyfloat
  nb_key :: bytes
  nb_pq_key :: bytes

definition simulated_node ::
    "platform \<Rightarrow> (str \<Rightarrow> node_birth) \<Rightarrow> str \<Rightarrow> NodeClass \<Rightarrow> pyfloat \<Rightarrow> pyfloat \<Rightarrow> pyfloat \<Rightarrow> str list \<Rightarrow> pyfloat \<Rightarrow> pyfloat \<Rightarrow>
     int \<Rightarrow> str \<times> SimulatedNode" where
  "simulated_node pl births node_id node_class rtt bandwidth cost zones cpu gpu queue =
     (let b = births node_id in
      (node_id, new_SimulatedNode pl node_id node_class rtt bandwidth cost zones cpu gpu queue HEALTHY STANDARD
        (nb_created b) (nb_key b) (nb_pq_key b)))"

definition simulated_nodes :: "platform \<Rightarrow> (str \<Rightarrow> node_birth) \<Rightarrow> (str, SimulatedNode) dict" where
  "simulated_nodes pl births =
     [simulated_node pl births ''edge-frankfurt-1'' EDGE (fl (71 / 5)) 120 (fl (3 / 1000))
        [''eu-only'', ''eu-central-1''] 42 38 2,
      simulated_node pl births ''edge-london-1'' EDGE (fl (37 / 2)) 90 (fl (4 / 1000))
        [''uk-only'', ''eu-west-2''] 60 52 5,
      simulated_node pl births ''cloud-aws-eu-central'' CLOUD 45 1000 (fl (24 / 1000))
        [''eu-only'', ''eu-central-1''] 25 18 1,
      simulated_node pl births ''cloud-aws-us-east'' CLOUD 115 2500 (fl (18 / 1000))
        [''us-only'', ''us-east-1''] 15 10 0]"

text \<open>The loop over the nodes: worker, server address, target and first snapshot.\<close>

record wiring =
  wi_targets :: "(str, str) dict"
  wi_servers :: "(str, InferenceWorker) dict"
  wi_store :: TelemetryStore

fun start_nodes :: "(str \<Rightarrow> node_birth) \<Rightarrow> int \<Rightarrow> (str, SimulatedNode) dict \<Rightarrow> wiring \<Rightarrow> exc + wiring" where
  "start_nodes births port [] w = Inr w"
| "start_nodes births port ((node_id, node) # rest) w =
     (let target = ''localhost:'' @ show_int port in
      case emit_snapshot None (nb_emitted (births node_id)) node of
        Inl ex \<Rightarrow> Inl ex
      | Inr snapshot \<Rightarrow> start_nodes births (port + 1) rest
          (w\<lparr>wi_targets := dset node_id target (wi_targets w),
             wi_servers := dset target (new_InferenceWorker node) (wi_servers w),
             wi_store := record_snapshot snapshot (wi_store w)\<rparr>))"

record cluster_inputs =
  ci_signer_key :: bytes
  ci_clock1 :: pyfloat
  ci_clock2 :: pyfloat
  ci_policy :: StaticPolicy
  ci_audit_file :: "str list option"
  ci_audit_key :: bytes
  ci_births :: "str \<Rightarrow> node_birth"
  ci_scheduler_key :: bytes
  ci_scheduler_pq_key :: bytes
  ci_grant_time :: pyfloat
  ci_check_time :: pyfloat

record cluster =
  cl_nodes :: "(str, SimulatedNode) dict"
  cl_servers :: "(str, InferenceWorker) dict"
  cl_gateway :: gateway

definition create_simulated_cluster :: "platform \<Rightarrow> cluster_inputs \<Rightarrow> etcd \<Rightarrow> (exc + cluster) \<times> etcd" where
  "create_simulated_cluster pl ci e =
     (let cr = pl_crypto pl in
      case bootstrap_supply_chain cr (pl_codecs pl) (ci_signer_key ci) (ci_clock1 ci) (ci_clock2 ci) e of
        (Inl ex, e1) \<Rightarrow> (Inl ex, e1)
      | (Inr u, e1) \<Rightarrow>
          (let engine = new_DecisionEngine (ci_policy ci);
               (ledger, e2) = new_TamperEvidentLedger cr (ci_audit_file ci) 10 (ci_audit_key ci) e1;
               nodes = simulated_nodes pl (ci_births ci)
           in case start_nodes (ci_births ci) 50051 nodes
                  \<lparr>wi_targets = [], wi_servers = [], wi_store = new_TelemetryStore 3000\<rparr> of
                Inl ex \<Rightarrow> (Inl ex, e2)
              | Inr w \<Rightarrow>
                  (let (scheduler, e3) = new_TaskScheduler pl (wi_targets w) ''scheduler-1'' (ci_scheduler_key ci)
                         (ci_scheduler_pq_key ci) (ci_grant_time ci) (ci_check_time ci) e2
                   in (Inr \<lparr>cl_nodes = nodes, cl_servers = wi_servers w,
                         cl_gateway = create_gateway_app (pl_environ pl) (wi_store w) engine scheduler ledger\<rparr>, e3))))"

section \<open>The command-line check\<close>

text \<open>
  A resolved digest that is a JSON value other than a text has no \<open>strip\<close>: the call raises
  before the handlers. The output is not modelled.
\<close>

definition resolved_digest :: "crypto \<Rightarrow> str \<Rightarrow> str option \<Rightarrow> etcd \<Rightarrow> json" where
  "resolved_digest cr model_id digest e =
     (if truthy digest then json_of_opt digest
      else
        (let raw_rec = etcd_get (key_model model_id) e in
         if truthy raw_rec then
           (case loads (ftext cr) (the raw_rec) of
              Some (JObj parsed) \<Rightarrow> (case dget parsed ''digest'' of Some j \<Rightarrow> j | None \<Rightarrow> JNull)
            | _ \<Rightarrow> json_of_opt digest)
         else json_of_opt digest))"

definition inspect_and_verify_model :: "crypto \<Rightarrow> codecs \<Rightarrow> str \<Rightarrow> str option \<Rightarrow> etcd \<Rightarrow> exc + bool" where
  "inspect_and_verify_model cr co model_id digest e =
     (let d = resolved_digest cr model_id digest e;
          verified = (\<lambda>x. case verify_artifact_for_execution cr co model_id x e of Inl ex \<Rightarrow> False | Inr rcd \<Rightarrow> True)
      in if json_truthy d then
           (case d of
              JStr s \<Rightarrow> Inr (is_immutable_digest s \<and> verified (Some s))
            | _ \<Rightarrow> Inl (py_exc AttributeErrorClass []))
         else Inr (verified None))"

section \<open>The seeded registry\<close>

text \<open>The provenance and the record the loop makes for a model.\<close>

definition vision_prov :: "str \<Rightarrow> pyfloat \<Rightarrow> ArtifactProvenance" where
  "vision_prov model_name now =
     \<lparr>p_artifact_name = model_name, p_digest = vision_digest,
      p_builder_identity = ''spiffe://distributed-ai.local/ci-builder'',
      p_source_repo = ''https://github.com/distributed-ai/orchestration'',
      p_commit_sha = ''a1b2c3d4e5f67890123456789abcdef012345678'', p_build_timestamp = now,
      p_sbom_digest = ''sha256:ba7816bf8f01cfea414140de5dae2223b00361a396177a9cb410ff61f20015ad'',
      p_vulnerabilities_summary = [(''CRITICAL'', 0), (''HIGH'', 0), (''MEDIUM'', 0), (''LOW'', 0)]\<rparr>"

definition vision_record :: "crypto \<Rightarrow> bytes \<Rightarrow> str \<Rightarrow> pyfloat \<Rightarrow> ApprovedArtifactRecord" where
  "vision_record cr sk model_name now =
     \<lparr>ar_model_id = model_name, ar_digest = vision_digest, ar_provenance = vision_prov model_name now,
      ar_signature_algorithm = ''Ed25519'',
      ar_signature = sign_artifact_provenance cr (vision_prov model_name now) sk,
      ar_signing_key_id = ''ci-release-signer-1'', ar_revoked = False\<rparr>"

text \<open>The writer and the reader of records and policies agree on what the bootstrap writes.\<close>

definition codecs_seed :: "codecs \<Rightarrow> crypto \<Rightarrow> bytes \<Rightarrow> (str \<times> pyfloat) list \<Rightarrow> bool" where
  "codecs_seed co cr sk models \<longleftrightarrow>
     dump_policy co bootstrap_policy \<noteq> [] \<and> parse_policy co (dump_policy co bootstrap_policy) = Some bootstrap_policy \<and>
     (\<forall>(m, t)\<in>set models. dump_record co (vision_record cr sk m t) \<noteq> [] \<and>
        parse_record co (dump_record co (vision_record cr sk m t)) = Some (vision_record cr sk m t))"

lemma vision_digest_ok: "is_immutable_digest vision_digest" "lower vision_digest = vision_digest"
    "lower ''sha256:ba7816bf8f01cfea414140de5dae2223b00361a396177a9cb410ff61f20015ad'' =
      ''sha256:ba7816bf8f01cfea414140de5dae2223b00361a396177a9cb410ff61f20015ad''"
    "vision_digest \<noteq> []"
  by code_simp+

lemma vision_provenance_eq: "vision_provenance m t = Inr (vision_prov m t)"
  unfolding vision_provenance_def create_provenance_def vision_prov_def
  by (simp only: vision_digest_ok not_True_eq_False if_False option.case list.case)

lemma register_vision:
  "register_approved_model cr co m vision_digest (vision_prov m t) sk ''ci-release-signer-1'' e =
    Inr (vision_record cr sk m t, etcd_put (key_model m) (dump_record co (vision_record cr sk m t))
      (etcd_put (key_signer ''ci-release-signer-1'') (ed_pem cr sk) e))"
  unfolding register_approved_model_def Let_def vision_record_def
  by (simp only: vision_digest_ok not_True_eq_False if_False)

lemma bootstrap_eq:
  "bootstrap_supply_chain cr co sk t1 t2 e =
    (Inr (), etcd_put (key_model ''v3'') (dump_record co (vision_record cr sk ''v3'' t2))
      (etcd_put (key_signer ''ci-release-signer-1'') (ed_pem cr sk)
      (etcd_put (key_model ''vision-classifier-v3'') (dump_record co (vision_record cr sk ''vision-classifier-v3'' t1))
      (etcd_put (key_signer ''ci-release-signer-1'') (ed_pem cr sk)
      (etcd_put key_policy (dump_policy co bootstrap_policy) e)))))"
  by (simp only: bootstrap_supply_chain_def set_supply_chain_policy_def register_models.simps vision_provenance_eq
      register_vision sum.case prod.case)

definition seed_models :: "pyfloat \<Rightarrow> pyfloat \<Rightarrow> (str \<times> pyfloat) list" where
  "seed_models t1 t2 = [(''vision-classifier-v3'', t1), (''v3'', t2)]"

lemma bootstrap_get:
  assumes "bootstrap_supply_chain cr co sk t1 t2 e = (r, e')"
  shows "r = Inr ()" "etcd_get key_policy e' = Some (dump_policy co bootstrap_policy)"
    and "(m, t) \<in> set (seed_models t1 t2) \<Longrightarrow> etcd_get (key_model m) e' = Some (dump_record co (vision_record cr sk m t))"
    and "etcd_get (key_signer ''ci-release-signer-1'') e' = Some (ed_pem cr sk)"
    and "etcd_get (key_revocation d) e' = etcd_get (key_revocation d) e"
    and "\<lbrakk>\<And>m. k \<noteq> key_model m; k \<noteq> key_signer ''ci-release-signer-1''; k \<noteq> key_policy\<rbrakk> \<Longrightarrow> etcd_get k e' = etcd_get k e"
  using assms by (auto simp: bootstrap_eq etcd_kv.get_put seed_models_def)

text \<open>A seeded record is admitted unless its digest has been revoked.\<close>

lemma vision_admitted:
  assumes "signing_ok cr" "ed_pem cr sk \<noteq> []"
    and pol: "etcd_get key_policy e = Some (dump_policy co bootstrap_policy)" "dump_policy co bootstrap_policy \<noteq> []"
      "parse_policy co (dump_policy co bootstrap_policy) = Some bootstrap_policy"
    and rcd: "etcd_get (key_model m) e = Some (dump_record co r)" "dump_record co r \<noteq> []"
      "parse_record co (dump_record co r) = Some r" "r = vision_record cr sk m t"
    and key: "etcd_get (key_signer ''ci-release-signer-1'') e = Some (ed_pem cr sk)"
  shows "may_execute cr co m (Some vision_digest) e r' \<longleftrightarrow>
    r' = r \<and> etcd_get (key_revocation vision_digest) e = None"
proof -
  have p: "get_supply_chain_policy co e = bootstrap_policy"
    using pol by (simp add: get_supply_chain_policy_def Let_def)
  have st: "stored_record co m e r' \<longleftrightarrow> r' = r"
    using rcd(1-3) by (auto simp: stored_record_def)
  have sg: "signature_valid cr r e"
    using key assms(1,2) by (simp add: signature_valid_def rcd(4) vision_record_def sign_artifact_provenance_def signing_ok_def)
  have adm: "policy_admits bootstrap_policy (ar_provenance r)"
    by (simp add: policy_admits_def bootstrap_policy_def rcd(4) vision_record_def vision_prov_def dget_or_def)
  have f: "ar_digest r = vision_digest" "\<not> ar_revoked r" by (simp_all add: rcd(4) vision_record_def)
  show ?thesis
    unfolding may_execute_def Let_def p st
    using sg adm f vision_digest_ok by (auto simp del: truthy.simps simp: truthy_iff)
qed

lemma seeded_admitted:
  assumes "bootstrap_supply_chain cr co sk t1 t2 e = (r, e')" "signing_ok cr" "ed_pem cr sk \<noteq> []"
    and "codecs_seed co cr sk (seed_models t1 t2)" "(m, t) \<in> set (seed_models t1 t2)"
    and "\<And>k. k = key_policy \<or> (\<exists>x. k \<in> {key_model x, key_signer x, key_revocation x}) \<Longrightarrow> etcd_get k e2 = etcd_get k e'"
  shows "verify_artifact_for_execution cr co m (Some vision_digest) e2 = Inr rcd \<longleftrightarrow>
    rcd = vision_record cr sk m t \<and> \<not> is_digest_revoked vision_digest e"
proof -
  have c: "dump_policy co bootstrap_policy \<noteq> []" "parse_policy co (dump_policy co bootstrap_policy) = Some bootstrap_policy"
    "dump_record co (vision_record cr sk m t) \<noteq> []"
    "parse_record co (dump_record co (vision_record cr sk m t)) = Some (vision_record cr sk m t)"
    using assms(4,5) by (auto simp: codecs_seed_def)
  note g = bootstrap_get [OF assms(1)]
  have e2: "etcd_get key_policy e2 = etcd_get key_policy e'" "etcd_get (key_model m) e2 = etcd_get (key_model m) e'"
    "etcd_get (key_signer x) e2 = etcd_get (key_signer x) e'"
    "etcd_get (key_revocation x) e2 = etcd_get (key_revocation x) e'" for x
    using assms(6) by blast+
  show ?thesis
    unfolding verify_iff is_digest_revoked_def vision_digest_ok(2)
    using vision_admitted [OF assms(2,3), of e2 co m "vision_record cr sk m t" t rcd] e2 g(2,4,5) g(3) [OF assms(5)] c
    by simp
qed

section \<open>The wiring of the nodes\<close>

lemma show_int_inj: "show_int i = show_int j \<Longrightarrow> i = j"
  by (metis option.inject read_show_int)

text \<open>A node is reachable under its target, by a fresh worker, and its snapshot is stored.\<close>

definition wired :: "(str \<Rightarrow> node_birth) \<Rightarrow> wiring \<Rightarrow> int \<Rightarrow> str \<Rightarrow> SimulatedNode \<Rightarrow> bool" where
  "wired births w port n node \<longleftrightarrow>
     dget (wi_targets w) n = Some (''localhost:'' @ show_int port) \<and>
     dget (wi_servers w) (''localhost:'' @ show_int port) = Some (new_InferenceWorker node) \<and>
     store_ok (wi_store w) \<and>
     (\<exists>s. emit_snapshot None (nb_emitted (births n)) node = Inr s \<and> get_snapshot n (wi_store w) = Some s)"

lemma emit_node: "emit_snapshot g t node = Inr s \<Longrightarrow> s_node_id s = n_node_id node"
  by (auto simp: emit_snapshot_def mk_NodeTelemetrySnapshot_def split: if_splits)

lemma start_nodes_kept:
  assumes "start_nodes births p nodes w = Inr w'" "wired births w q n node" "q < p" "n \<notin> fst ` set nodes"
    and "\<forall>(k, x)\<in>set nodes. n_node_id x = k"
  shows "wired births w' q n node"
  using assms
proof (induction nodes arbitrary: p w)
  case (Cons kx rest)
  obtain k x where kx: "kx = (k, x)" by fastforce
  obtain s where s: "emit_snapshot None (nb_emitted (births k)) x = Inr s"
    using Cons.prems(1) by (auto simp: kx Let_def split: sum.splits)
  have "s_node_id s = k" using emit_node [OF s] Cons.prems(5) by (simp add: kx)
  moreover have "show_int p \<noteq> show_int q" using Cons.prems(3) show_int_inj by fastforce
  ultimately have "wired births (w\<lparr>wi_targets := dset k (''localhost:'' @ show_int p) (wi_targets w),
      wi_servers := dset (''localhost:'' @ show_int p) (new_InferenceWorker x) (wi_servers w),
      wi_store := record_snapshot s (wi_store w)\<rparr>) q n node"
    using Cons.prems(2,4) by (auto simp: wired_def kx mem.lookup_record)
  then show ?case
    using Cons.IH [of "p + 1"] Cons.prems by (simp add: kx s Let_def)
qed simp

lemma start_nodes_wired:
  assumes "distinct (map fst nodes)" "\<forall>(k, x)\<in>set nodes. n_node_id x = k" "store_ok (wi_store w)"
    and "\<forall>(k, x)\<in>set nodes. \<exists>s. emit_snapshot None (nb_emitted (births k)) x = Inr s"
  shows "\<exists>w'. start_nodes births p nodes w = Inr w' \<and> (\<forall>(k, x)\<in>set nodes. \<exists>q. wired births w' q k x)"
  using assms
proof (induction nodes arbitrary: p w)
  case (Cons kx rest)
  obtain k x where kx: "kx = (k, x)" by fastforce
  obtain s where s: "emit_snapshot None (nb_emitted (births k)) x = Inr s" using Cons.prems(4) by (auto simp: kx)
  let ?w = "w\<lparr>wi_targets := dset k (''localhost:'' @ show_int p) (wi_targets w),
      wi_servers := dset (''localhost:'' @ show_int p) (new_InferenceWorker x) (wi_servers w),
      wi_store := record_snapshot s (wi_store w)\<rparr>"
  have "s_node_id s = k" using emit_node [OF s] Cons.prems(2) by (simp add: kx)
  then have w: "wired births ?w p k x"
    using Cons.prems(3) s by (auto simp: wired_def mem.lookup_record)
  have "store_ok (wi_store ?w)" using Cons.prems(3) by auto
  then obtain w' where w': "start_nodes births (p + 1) rest ?w = Inr w'" "\<forall>(k, x)\<in>set rest. \<exists>q. wired births w' q k x"
    using Cons.IH [of ?w "p + 1"] Cons.prems by (auto simp: kx)
  have "wired births w' p k x"
    using start_nodes_kept [OF w'(1) w] Cons.prems(1,2) by (auto simp: kx)
  then show ?case using w' by (auto simp: kx s Let_def)
qed simp

lemma simulated_nodes_ids:
  "map fst (simulated_nodes pl births) =
     [''edge-frankfurt-1'', ''edge-london-1'', ''cloud-aws-eu-central'', ''cloud-aws-us-east'']"
  "\<forall>(k, x)\<in>set (simulated_nodes pl births). n_node_id x = k"
  by (simp_all add: simulated_nodes_def simulated_node_def new_SimulatedNode_def Let_def)

text \<open>A node emits a valid snapshot as long as the clock does not run backwards.\<close>

lemma simulated_node_emits:
  assumes "nb_created (births n) \<le> nb_emitted (births n)"
    and "0 \<le> rtt" "1 \<le> bw" "0 \<le> cost" "0 \<le> cpu" "cpu \<le> 100" "0 \<le> gpu" "gpu \<le> 100" "0 \<le> queue"
    and "(k, x) = simulated_node pl births n cl rtt bw cost zones cpu gpu queue"
  shows "\<exists>s. emit_snapshot None (nb_emitted (births k)) x = Inr s"
proof -
  have "fl (1 / 1000) \<le> 1" using fl_mono [of "1 / 1000" 1] by simp
  then have "fl (1 / 1000) \<le> bw" using assms(3) by linarith
  moreover have "0 \<le> fmul (fsub (nb_emitted (births n)) (nb_created (births n))) 1000"
    using assms(1) by (auto simp: fmul_def fsub_def intro!: fl_nonneg)
  ultimately show ?thesis
    using assms by (simp add: simulated_node_def new_SimulatedNode_def emit_snapshot_def mk_NodeTelemetrySnapshot_def
        valid_NodeTelemetrySnapshot_def Let_def)
qed

lemma simulated_nodes_emit:
  assumes "\<And>n. nb_created (births n) \<le> nb_emitted (births n)"
  shows "\<forall>(k, x)\<in>set (simulated_nodes pl births). \<exists>s. emit_snapshot None (nb_emitted (births k)) x = Inr s"
proof (intro ballI, clarify)
  fix k x
  assume "(k, x) \<in> set (simulated_nodes pl births)"
  then show "\<exists>s. emit_snapshot None (nb_emitted (births k)) x = Inr s"
    unfolding simulated_nodes_def list.set insert_iff empty_iff
    by (elim disjE FalseE) (erule simulated_node_emits [OF assms, rotated -1]; simp add: fl_nonneg)+
qed

section \<open>The scheduler of the cluster\<close>

lemma key_leader_distinct [simp]:
  "key_leader \<noteq> key_model m" "key_leader \<noteq> key_signer k" "key_leader \<noteq> key_revocation d" "key_leader \<noteq> key_policy"
  "key_leader \<noteq> key_audit_identity" "key_model m \<noteq> key_leader" "key_signer k \<noteq> key_leader"
  "key_revocation d \<noteq> key_leader" "key_policy \<noteq> key_leader" "key_audit_identity \<noteq> key_leader"
  by (simp_all add: key_leader_def key_model_def key_signer_def key_revocation_def key_policy_def key_audit_identity_def)

lemma key_audit_distinct [simp]:
  "key_audit_identity \<noteq> key_model m" "key_audit_identity \<noteq> key_signer k" "key_audit_identity \<noteq> key_revocation d"
  "key_audit_identity \<noteq> key_policy" "key_model m \<noteq> key_audit_identity" "key_signer k \<noteq> key_audit_identity"
  "key_revocation d \<noteq> key_audit_identity" "key_policy \<noteq> key_audit_identity"
  by (simp_all add: key_model_def key_signer_def key_revocation_def key_policy_def key_audit_identity_def)

lemma new_scheduler_get_other:
  "k \<noteq> key_leader \<Longrightarrow> k \<noteq> key_scheduler i \<Longrightarrow>
    etcd_get k (snd (new_TaskScheduler pl tg i sk pq t1 t2 e)) = etcd_get k e"
  unfolding new_scheduler_steps by (simp add: etcd_kv.get_put_other get_compare_and_swap)

lemma new_scheduler_elected:
  assumes "t2 \<le> fadd t1 30"
  shows "sc_is_leader (fst (new_TaskScheduler pl tg i sk pq t1 t2 e)) \<longleftrightarrow> etcd_get key_leader e = None"
proof -
  obtain l e1 where g: "grant_lease 30 t1 e = (l, e1)" by fastforce
  then have v: "fst (is_lease_valid l t2 e1)" and k: "etcd_get key_leader e1 = etcd_get key_leader e"
    using assms get_grant_lease [of key_leader 30 t1 e]
    by (auto simp: grant_lease_def is_lease_valid_def Let_def)
  have "fst (compare_and_swap key_leader None i (Some l) t2 e1) \<longleftrightarrow> etcd_get key_leader e = None"
    using v k by (simp add: compare_and_swap_eq swap_key_def etcd_get_def)
  then show ?thesis
    by (cases "compare_and_swap key_leader None i (Some l) t2 e1") (simp add: new_TaskScheduler_def g Let_def)
qed

text \<open>The store of what the cluster is made of, one step at a time.\<close>

lemma create_simulated_cluster_spec:
  assumes "bootstrap_supply_chain (pl_crypto pl) (pl_codecs pl) (ci_signer_key ci) (ci_clock1 ci) (ci_clock2 ci) e = (r, e1)"
    and "start_nodes (ci_births ci) 50051 (simulated_nodes pl (ci_births ci))
       \<lparr>wi_targets = [], wi_servers = [], wi_store = new_TelemetryStore 3000\<rparr> = Inr w"
  shows "\<exists>cl e2. create_simulated_cluster pl ci e = (Inr cl, snd (new_TaskScheduler pl (wi_targets w) ''scheduler-1''
      (ci_scheduler_key ci) (ci_scheduler_pq_key ci) (ci_grant_time ci) (ci_check_time ci) e2)) \<and>
    e2 = etcd_put key_audit_identity (ed_pem (pl_crypto pl) (ci_audit_key ci)) e1 \<and>
    cl_nodes cl = simulated_nodes pl (ci_births ci) \<and> cl_servers cl = wi_servers w \<and>
    gw_store (cl_gateway cl) = wi_store w \<and>
    gw_scheduler (cl_gateway cl) = fst (new_TaskScheduler pl (wi_targets w) ''scheduler-1''
      (ci_scheduler_key ci) (ci_scheduler_pq_key ci) (ci_grant_time ci) (ci_check_time ci) e2)"
  using assms(1) bootstrap_get(1) [OF assms(1)] assms(2)
  by (simp add: create_simulated_cluster_def new_TamperEvidentLedger_def create_gateway_app_def Let_def
      split: prod.split)

section \<open>The command-line check agrees with the node\<close>

text \<open>
  For a digest given on the command line, the tool accepts exactly the immutable digests that
  the node's own check admits: under a policy that allows mutable references it is stricter.
\<close>

lemma inspect_exact:
  "inspect_and_verify_model cr co m (Some (c # cs)) e =
     Inr (is_immutable_digest (c # cs) \<and> (\<exists>rcd. may_execute cr co m (Some (c # cs)) e rcd))"
  unfolding verify_iff [symmetric]
  by (cases "verify_artifact_for_execution cr co m (Some (c # cs)) e")
    (simp_all add: inspect_and_verify_model_def resolved_digest_def json_of_opt_def Let_def)

section \<open>Sample values\<close>

text \<open>A codec for the two records of the bootstrap, told apart by the model's name.\<close>

definition seed_codecs :: "crypto \<Rightarrow> bytes \<Rightarrow> codecs" where
  "seed_codecs cr sk = \<lparr>dump_record = (\<lambda>r. if ar_model_id r = ''v3'' then ''b'' else ''a''),
     parse_record = (\<lambda>s. Some (vision_record cr sk (if s = ''b'' then ''v3'' else ''vision-classifier-v3'') 0)),
     dump_policy = (\<lambda>_. ''p''), parse_policy = (\<lambda>_. Some bootstrap_policy)\<rparr>"

lemma seed_codecs_ok: "codecs_seed (seed_codecs cr sk) cr sk (seed_models 0 0)"
  by (simp add: codecs_seed_def seed_codecs_def seed_models_def) (simp add: vision_record_def)

definition seed_platform :: platform where
  "seed_platform = \<lparr>pl_crypto = toy_crypto, pl_codecs = seed_codecs toy_crypto [7], pl_environ = Map.empty, pl_oqs = False\<rparr>"

definition seed_inputs :: cluster_inputs where
  "seed_inputs = \<lparr>ci_signer_key = [7], ci_clock1 = 0, ci_clock2 = 0, ci_policy = load_static_routing_policy None None,
     ci_audit_file = None, ci_audit_key = [1],
     ci_births = (\<lambda>n. \<lparr>nb_created = 0, nb_emitted = 1, nb_key = [2], nb_pq_key = []\<rparr>),
     ci_scheduler_key = [5], ci_scheduler_pq_key = [], ci_grant_time = 0, ci_check_time = 0\<rparr>"

section \<open>Properties\<close>

text \<open>
  The bootstrap makes the shipped models executable, and never lifts a revocation. Whatever
  the registry held before, after \<open>bootstrap_supply_chain\<close> a node's pre-execution check of either
  seeded model passes for the seeded digest, with the record just registered, exactly when that
  digest had not been revoked.
\<close>

lemma bootstrap_seeds_registry:
  assumes "bootstrap_supply_chain cr co sk t1 t2 e = (r, e')" "signing_ok cr" "ed_pem cr sk \<noteq> []"
    and "codecs_seed co cr sk (seed_models t1 t2)" "(m, t) \<in> set (seed_models t1 t2)"
  shows "r = Inr () \<and> (verify_artifact_for_execution cr co m (Some vision_digest) e' = Inr rcd \<longleftrightarrow>
    rcd = vision_record cr sk m t \<and> \<not> is_digest_revoked vision_digest e)"
  using bootstrap_get(1) [OF assms(1)] seeded_admitted [OF assms refl] by blast

end
