(* ===== verification/EndToEnd.thy ===== *)
theory EndToEnd
  imports Bootstrap
begin

text \<open>
  The parts together: a submission to the gateway over the network of the cluster, in which
  every target is served by the execution service of its worker (\<open>create_simulated_cluster\<close>
  builds these servers). The TLS identity of the scheduler's calls and the readings and random
  bytes of each call are arguments.

  The lemmas follow a task whose artifact the registry does not admit through the node, one
  attempt, the chain and the gateway: it changes no worker, and every node refuses it that does
  not hold a result for its idempotency key already.
\<close>

section \<open>The network of the cluster\<close>

definition cluster_network ::
    "platform \<Rightarrow> auth_context \<Rightarrow> (str \<Rightarrow> SignedTaskEnvelope \<Rightarrow> node_inputs) \<Rightarrow> (str, InferenceWorker) dict network" where
  "cluster_network pl ctx nis target timeout req st =
     (case st of (e, servers) \<Rightarrow>
       (case dget servers target of
          None \<Rightarrow> (Inl (py_exc RpcErrorClass []), e, servers)
        | Some w \<Rightarrow>
            (case ExecuteTask pl ctx req (nis target req) w e of
               (Inr resp, w1, e1) \<Rightarrow> (Inr resp, e1, dset target w1 servers)
             | (Inl status, w1, e1) \<Rightarrow> (Inl (py_exc RpcErrorClass []), e1, dset target w1 servers))))"

section \<open>An artifact that is not admitted\<close>

definition refused :: "platform \<Rightarrow> TaskRequest \<Rightarrow> str \<Rightarrow> etcd \<Rightarrow> bool" where
  "refused pl t digest e \<longleftrightarrow>
     (\<forall>rcd. \<not> may_execute (pl_crypto pl) (pl_codecs pl) (t_model_id t) (Some digest) e rcd)"

text \<open>Only the keys of the registry matter.\<close>

lemma refused_frame:
  assumes "etcd_get key_policy e' = etcd_get key_policy e"
    and "\<And>m. etcd_get (key_model m) e' = etcd_get (key_model m) e"
    and "\<And>k. etcd_get (key_signer k) e' = etcd_get (key_signer k) e"
    and "\<And>d. etcd_get (key_revocation d) e' = etcd_get (key_revocation d) e"
  shows "refused pl t digest e' = refused pl t digest e"
  unfolding refused_def verify_iff [symmetric] verify_frame [OF assms] by (rule refl)

lemma refused_lease: "refused pl t digest (snd (is_lease_valid l now e)) = refused pl t digest e"
  by (rule refused_frame) simp_all

text \<open>A worker that remembers no result for the task cannot produce one, and one that does computes nothing.\<close>

definition fresh_for :: "TaskRequest \<Rightarrow> InferenceWorker \<Rightarrow> bool" where
  "fresh_for t w \<longleftrightarrow> worker_ok w \<and> dget (w_processed w) (t_idempotency_key t) = None"

lemma execute_refused:
  assumes "refused pl t digest e"
  shows "case execute pl (request_of t c digest) e t0 t1 w of Inl ex \<Rightarrow> True | Inr (res, w') \<Rightarrow> w' = w \<and> \<not> fresh_for t w"
proof (cases "execute pl (request_of t c digest) e t0 t1 w")
  case (Inr p)
  obtain res w' where p: "p = (res, w')" by fastforce
  have k: "r_idempotency_key (request_of t c digest) = t_idempotency_key t" by (simp add: request_of_def)
  show ?thesis
  proof (cases "dget (w_processed w) (t_idempotency_key t)")
    case None
    then show ?thesis
      using executeD(1) [OF Inr [unfolded p]] assms by (auto simp: k refused_def verify_iff [symmetric] request_of_def)
  next
    case (Some r)
    then show ?thesis using executeD(2) [OF Inr [unfolded p]] by (simp add: Inr p k fresh_for_def)
  qed
qed simp

lemma process_failed:
  assumes "decrypt_envelope (pl_crypto pl) (re_encrypted_result resp) (re_encrypted_dek resp) get_master_kek = Inr (JObj d)"
    and "map_of d ''status'' = Some (JStr st)" "st = ''failed'' \<or> st = ''rejected''"
  shows "\<exists>ex. process_response pl s c j resp = Inl ex"
  using assms
  by (cases "process_response pl s c j resp") (auto simp: process_response_def rbind_Inr_iff split: if_splits)

lemma run_worker_kept:
  "(\<And>res w'. execute pl r e (ni_perf0 ni) (ni_perf1 ni) w = Inr (res, w') \<Longrightarrow> w' = w) \<Longrightarrow> snd (run_worker pl r e ni w) = w"
  by (auto simp: run_worker_def split: sum.split)

text \<open>The node leaves a worker untouched whose execution would, and changes the state by the lease check at most.\<close>

lemma task_kept:
  assumes laws: "aead_ok (pl_crypto pl)" "float_text_ok (ftext (pl_crypto pl))" "rnd_ok rnd" "is_float (t_max_latency_ms t)"
    and req: "req = sign_envelope pl s t c (JStr digest) now rnd"
    and l: "l = snd (is_lease_valid (te_leader_lease_id req) (ni_now_lease ni) e)"
    and f: "\<And>res w'. execute pl (request_of t c digest) l (ni_perf0 ni) (ni_perf1 ni) w = Inr (res, w') \<Longrightarrow> w' = w"
    and x: "ExecuteTask pl ctx req ni w e = (r, w', e')"
  shows "w' = w \<and> (e' = e \<or> e' = l)"
proof -
  obtain p where p: "decrypt_envelope (pl_crypto pl) (te_encrypted_payload req) (te_encrypted_dek req) get_master_kek = Inr p"
    "build_request req p = Inr (request_of t c digest)"
    using envelope_opened [OF laws, of s c digest now] by (auto simp: req)
  have "snd (run_worker pl (request_of t c digest) l ni w) = w" using f by (rule run_worker_kept)
  then show ?thesis
    using x by (auto simp: l ExecuteTask_def p split: if_splits sum.splits prod.splits bool.splits)
qed

text \<open>
  The node: when the execution fails the worker is untouched, and what it answers is a failure.
  Its state after the lease check is the lease check's.
\<close>

lemma task_failed:
  assumes laws: "signing_ok (pl_crypto pl)" "aead_ok (pl_crypto pl)" "float_text_ok (ftext (pl_crypto pl))"
    and rnd: "rnd_ok rnd" "rnd_ok (ni_random ni)" "is_float (t_max_latency_ms t)"
    and w: "worker_ok w"
    and req: "req = sign_envelope pl s t c (JStr digest) now rnd"
    and l: "l = snd (is_lease_valid (te_leader_lease_id req) (ni_now_lease ni) e)"
    and f: "execute pl (request_of t c digest) l (ni_perf0 ni) (ni_perf1 ni) w = Inl ex"
    and x: "ExecuteTask pl ctx req ni w e = (r, w', e')"
  shows "w' = w \<and> (e' = e \<or> e' = l) \<and> (\<forall>resp. r = Inr resp \<longrightarrow> (\<exists>ex. process_response pl s1 c1 j resp = Inl ex))"
proof -
  obtain p where p: "decrypt_envelope (pl_crypto pl) (te_encrypted_payload req) (te_encrypted_dek req) get_master_kek = Inr p"
    "build_request req p = Inr (request_of t c digest)"
    using envelope_opened [OF laws(2,3) rnd(1,3), of s c digest now] by (auto simp: req)
  have "\<exists>ex. process_response pl s1 c1 j resp = Inl ex" if "r = Inr resp" for resp
  proof -
    have x': "ExecuteTask pl ctx req ni w e = (Inr resp, w', e')" using x that by simp
    have "e' = l"
      using x' by (auto simp: l ExecuteTask_def p split: if_splits sum.splits prod.splits bool.splits)
    moreover obtain d exec_req where "build_request req p = Inr exec_req"
      "decrypt_envelope (pl_crypto pl) (re_encrypted_result resp) (re_encrypted_dek resp) get_master_kek = Inr (JObj d)"
      "map_of d ''status'' = Some (JStr (outcome (execute pl exec_req e' (ni_perf0 ni) (ni_perf1 ni) w)))"
      using response_spec [OF laws rnd(2) w x'] by (auto simp: p)
    ultimately have d: "decrypt_envelope (pl_crypto pl) (re_encrypted_result resp) (re_encrypted_dek resp) get_master_kek = Inr (JObj d)"
      "map_of d ''status'' = Some (JStr (outcome (Inl ex :: exc + unit)))"
      using p(2) f by (simp_all add: outcome_def)
    show ?thesis by (rule process_failed [OF d]) (simp add: outcome_def)
  qed
  then show ?thesis using task_kept [OF laws(2,3) rnd(1,3) req l _ x] by (simp add: f)
qed

lemma task_refused:
  assumes laws: "signing_ok (pl_crypto pl)" "aead_ok (pl_crypto pl)" "float_text_ok (ftext (pl_crypto pl))"
    and rnd: "rnd_ok rnd" "rnd_ok (ni_random ni)" "is_float (t_max_latency_ms t)"
    and r: "refused pl t digest e"
    and req: "req = sign_envelope pl s t c (JStr digest) now rnd"
    and x: "ExecuteTask pl ctx req ni w e = (r, w', e')"
  shows "w' = w \<and> (e' = e \<or> e' = snd (is_lease_valid (te_leader_lease_id req) (ni_now_lease ni) e)) \<and>
    (fresh_for t w \<longrightarrow> (\<forall>resp. r = Inr resp \<longrightarrow> (\<exists>ex. process_response pl s1 c1 j resp = Inl ex)))"
proof -
  let ?l = "snd (is_lease_valid (te_leader_lease_id req) (ni_now_lease ni) e)"
  have l: "refused pl t digest ?l" using r by (simp add: refused_lease)
  note ex = execute_refused [OF l, where c = c and ?t0.0 = "ni_perf0 ni" and ?t1.0 = "ni_perf1 ni" and w = w]
  have "\<exists>ex. process_response pl s1 c1 j resp = Inl ex" if f: "fresh_for t w" and resp: "r = Inr resp" for resp
  proof -
    obtain err where "execute pl (request_of t c digest) ?l (ni_perf0 ni) (ni_perf1 ni) w = Inl err"
      using ex f by (auto split: sum.splits prod.splits)
    then show ?thesis
      using task_failed [OF laws rnd _ req HOL.refl _ x, of err s1 c1 j] f resp by (auto simp: fresh_for_def)
  qed
  moreover have "w' = w \<and> (e' = e \<or> e' = ?l)"
    by (rule task_kept [OF laws(2,3) rnd(1,3) req HOL.refl _ x]) (use ex in auto)
  ultimately show ?thesis by blast
qed

section \<open>Along the chain\<close>

definition servers_fresh :: "TaskRequest \<Rightarrow> (str, InferenceWorker) dict \<Rightarrow> bool" where
  "servers_fresh t servers \<longleftrightarrow> (\<forall>target w. dget servers target = Some w \<longrightarrow> fresh_for t w)"

text \<open>The laws of the primitives, and well-formed random bytes of scheduler and nodes.\<close>

definition channel_ok :: "platform \<Rightarrow> dispatch_inputs \<Rightarrow> (str \<Rightarrow> SignedTaskEnvelope \<Rightarrow> node_inputs) \<Rightarrow> bool" where
  "channel_ok pl di nis \<longleftrightarrow> signing_ok (pl_crypto pl) \<and> aead_ok (pl_crypto pl) \<and> float_text_ok (ftext (pl_crypto pl)) \<and>
     (\<forall>n. rnd_ok (di_random di n)) \<and> (\<forall>target req. rnd_ok (ni_random (nis target req)))"

text \<open>The digest a task asks for: the one it names, or the one the registry has for its model.\<close>

definition asks_for :: "platform \<Rightarrow> TaskRequest \<Rightarrow> str \<Rightarrow> etcd \<Rightarrow> bool" where
  "asks_for pl t digest e \<longleftrightarrow> resolve_digest (ftext (pl_crypto pl)) t e = JStr digest \<and> is_float (t_max_latency_ms t)"

lemma asks_for_frame:
  "etcd_get (key_model (t_model_id t)) e' = etcd_get (key_model (t_model_id t)) e \<Longrightarrow> asks_for pl t digest e' = asks_for pl t digest e"
  by (simp add: asks_for_def resolve_digest_def)

lemma asks_for_lease: "asks_for pl t digest (snd (is_lease_valid l now e)) = asks_for pl t digest e"
  by (rule asks_for_frame) simp

lemma dset_same [simp]: "dget d k = Some v \<Longrightarrow> dset k v d = d"
  by (induction d) (auto split: if_splits)

lemma attempt_refused:
  assumes c: "channel_ok pl di nis" and r: "asks_for pl t digest e" "refused pl t digest e"
    and a: "attempt pl (cluster_network pl ctx nis) di t n c (s, e, servers) = (res, s', e', servers')"
  shows "servers' = servers \<and> asks_for pl t digest e' \<and> refused pl t digest e' \<and>
    (servers_fresh t servers \<longrightarrow> (\<exists>ex. res = Inl ex))"
proof (cases "get_stub c s")
  case (Inl err)
  then show ?thesis using a r by (auto simp: attempt_def)
next
  case (Inr p)
  obtain target s1 where p: "p = (target, s1)" by fastforce
  have dig: "resolve_digest (ftext (pl_crypto pl)) t e = JStr digest" using r(1) by (simp add: asks_for_def)
  let ?req = "sign_envelope pl s1 t c (JStr digest) (di_now di n) (di_random di n)"
  show ?thesis
  proof (cases "dget servers target")
    case None
    then show ?thesis using a r by (auto simp: attempt_def Inr p dig Let_def cluster_network_def)
  next
    case (Some w)
    obtain x w1 e1 where x: "ExecuteTask pl ctx ?req (nis target ?req) w e = (x, w1, e1)" by (metis surj_pair)
    have laws: "signing_ok (pl_crypto pl)" "aead_ok (pl_crypto pl)" "float_text_ok (ftext (pl_crypto pl))"
      "rnd_ok (di_random di n)" "rnd_ok (ni_random (nis target ?req))" "is_float (t_max_latency_ms t)"
      using c r(1) by (simp_all add: channel_ok_def asks_for_def)
    note k = task_refused [OF laws r(2) HOL.refl x, of s1 c "JStr digest"]
    have e: "asks_for pl t digest e1 \<and> refused pl t digest e1" using k r by (auto simp: asks_for_lease refused_lease)
    have f: "fresh_for t w" if "servers_fresh t servers" using that Some by (auto simp: servers_fresh_def)
    show ?thesis
      using a k e f Some by (cases x) (auto simp: attempt_def Inr p dig Let_def cluster_network_def x)
  qed
qed

lemma try_candidates_refused:
  assumes "channel_ok pl di nis" "asks_for pl t digest e" "refused pl t digest e"
    and "try_candidates pl (cluster_network pl ctx nis) di t chain cs k (s, e, servers) = (res, s', e', servers')"
  shows "servers' = servers \<and> (servers_fresh t servers \<longrightarrow> (\<exists>ex. res = Inl ex))"
  using assms(2-4)
proof (induction cs arbitrary: k s e)
  case (Cons c cs)
  obtain r1 s1 e1 ws1 where a: "attempt pl (cluster_network pl ctx nis) di t (k + 1) c (s, e, servers) = (r1, s1, e1, ws1)"
    by (metis surj_pair)
  note n = attempt_refused [OF assms(1) Cons.prems(1,2) a]
  show ?case using Cons.IH [of e1 "k + 1" s1] Cons.prems(3) n a by (cases r1) (auto simp: Let_def)
qed auto

lemma dispatch_refused:
  assumes "channel_ok pl di nis" "asks_for pl t digest e" "refused pl t digest e"
    and "dispatch pl (cluster_network pl ctx nis) di now t d (s, e, servers) = (res, s', e', servers')"
  shows "servers' = servers \<and> (servers_fresh t servers \<longrightarrow> (\<exists>ex. res = Inl ex))"
proof -
  obtain s1 e1 where l: "check_leadership now s e = (s1, e1)" by fastforce
  have "e1 = e \<or> e1 = snd (is_lease_valid (sc_lease_id s) now e)"
    using l by (auto simp: check_leadership_def split: if_splits prod.splits bool.splits)
  then have "asks_for pl t digest e1" "refused pl t digest e1" using assms(2,3) refused_lease asks_for_lease by blast+
  from try_candidates_refused [OF assms(1) this] show ?thesis
    using assms(4) by (auto simp: dispatch_def l Let_def split: if_splits)
qed

section \<open>Through the gateway\<close>

lemma get_append_event:
  "(\<And>c. k \<noteq> key_checkpoint c) \<Longrightarrow> etcd_get k (snd (snd (append_event cr io ev (lg, e)))) = etcd_get k e"
  by (simp add: append_event_def create_checkpoint_def Let_def etcd_kv.get_put_other)

lemma key_checkpoint_distinct [simp]:
  "key_checkpoint c \<noteq> key_model m" "key_checkpoint c \<noteq> key_signer k" "key_checkpoint c \<noteq> key_revocation d"
  "key_checkpoint c \<noteq> key_policy" "key_model m \<noteq> key_checkpoint c" "key_signer k \<noteq> key_checkpoint c"
  "key_revocation d \<noteq> key_checkpoint c" "key_policy \<noteq> key_checkpoint c"
  by (simp_all add: key_model_def key_signer_def key_revocation_def key_policy_def key_checkpoint_def)

lemma refused_append: "refused pl t digest (snd (snd (append_event cr io ev (lg, e)))) = refused pl t digest e"
  by (rule refused_frame; rule get_append_event; simp)

lemma refused_audit_shadow:
  "refused pl t digest (snd (audit_shadow cr io si task g sd (lg, e))) = refused pl t digest e"
  by (auto simp: audit_shadow_def refused_append split: option.split)

lemma asks_for_audit_shadow:
  "asks_for pl t digest (snd (audit_shadow cr io si task g sd (lg, e))) = asks_for pl t digest e"
  by (rule asks_for_frame) (auto simp: audit_shadow_def get_append_event split: option.split)

lemma submit_refused:
  assumes "channel_ok pl (si_dispatch si) nis" "asks_for pl task digest e" "refused pl task digest e"
    and "submit_inference_task pl io (cluster_network pl ctx nis) si token task (g, e, servers) = (resp, g', e', servers')"
  shows "servers' = servers \<and>
    (servers_fresh task servers \<longrightarrow> (\<exists>err. resp = Inl err \<and> he_status err \<in> {401, 500, 503}))"
proof (cases "verify_gateway_token (pl_environ pl) token")
  case (Inl err)
  then show ?thesis using assms(4) verify_gateway_token_Inl [OF Inl] by (auto simp: submit_inference_task_def)
next
  case (Inr u)
  obtain sd en where sc: "shadow_scoring si task g = (sd, en)" by fastforce
  obtain lg1 e1 where au: "audit_shadow (pl_crypto pl) io si task g sd (gw_ledger g, e) = (lg1, e1)" by fastforce
  let ?d = "routing_decision si task g sd en"
  obtain r s e2 ws2 where d: "dispatch pl (cluster_network pl ctx nis) (si_dispatch si) (si_dispatch_time si) task ?d
      (gw_scheduler g, e1, servers) = (r, s, e2, ws2)"
    by (metis surj_pair)
  have "asks_for pl task digest e1" "refused pl task digest e1"
    using assms(2,3) refused_audit_shadow [of pl task digest "pl_crypto pl" io si task g sd "gw_ledger g" e]
      asks_for_audit_shadow [of pl task digest "pl_crypto pl" io si task g sd "gw_ledger g" e] by (simp_all add: au)
  note out = dispatch_refused [OF assms(1) this d]
  show ?thesis
    using assms(4) out by (cases r) (auto simp: submit_inference_task_def Inr sc au d Let_def dispatch_error_def split: prod.splits)
qed

text \<open>In particular, a revoked digest is refused.\<close>

lemma revoked_refused: "digest \<noteq> [] \<Longrightarrow> is_digest_revoked digest e \<Longrightarrow> refused pl t digest e"
  by (auto simp: refused_def may_execute_def is_digest_revoked_def Let_def)

end
