(* ===== verification/Servers.thy ===== *)
theory Servers
  imports Identity EndToEnd
begin

text \<open>
  The gRPC servers and the channels to them: \<open>serve\<close> (\<open>node_agent/grpc_server.py\<close>),
  \<open>serve_control_plane\<close> (\<open>gateway/grpc_server.py\<close>), the channels of \<open>_get_stub\<close>
  (\<open>scheduler/dispatcher.py\<close>) and of \<open>_stream_loop\<close> (\<open>node_agent/grpc_client.py\<close>).

  A server is its address, the services added to it and its credentials. Whether the TLS
  handshake of a channel with a server succeeds is a field of the record \<open>tls_lib\<close>, a parameter
  with the documented law \<open>tls_ok\<close>; the sockets themselves (a port in use, a host that is down)
  are not modelled. \<open>secure_network\<close> is the network of the scheduler over such channels: it
  replaces the identity that \<open>cluster_network\<close> takes as an argument by the one the handshake
  establishes.
\<close>

section \<open>Servers and channels\<close>

record grpc_server =
  gs_address :: str
  gs_services :: "str list"
  gs_credentials :: "ServerCredentials option"

definition serve ::
    "x509_lib \<Rightarrow> cert_inputs \<Rightarrow> cert_inputs \<Rightarrow> InferenceWorker \<Rightarrow> int \<Rightarrow> bool \<Rightarrow> secret_dir \<Rightarrow> (exc + grpc_server) \<times> secret_dir" where
  "serve lib i j worker port use_tls dir =
     (let address = ''[::]:'' @ show_int port; services = [''orchestrator.Execution''] in
      if use_tls then
        (case get_server_credentials lib i j (''spiffe://distributed-ai.local/node/'' @ n_node_id (w_node worker)) dir of
           (r, dir1) \<Rightarrow>
             (rbind r (\<lambda>creds. Inr \<lparr>gs_address = address, gs_services = services, gs_credentials = Some creds\<rparr>), dir1))
      else (Inr \<lparr>gs_address = address, gs_services = services, gs_credentials = None\<rparr>, dir))"

definition serve_control_plane ::
    "x509_lib \<Rightarrow> cert_inputs \<Rightarrow> cert_inputs \<Rightarrow> int \<Rightarrow> bool \<Rightarrow> secret_dir \<Rightarrow> (exc + grpc_server) \<times> secret_dir" where
  "serve_control_plane lib i j port use_tls dir =
     (let address = ''[::]:'' @ show_int port; services = [''orchestrator.NodeRegistry'', ''orchestrator.Telemetry''] in
      if use_tls then
        (case get_server_credentials lib i j ''spiffe://distributed-ai.local/gateway/master'' dir of
           (r, dir1) \<Rightarrow>
             (rbind r (\<lambda>creds. Inr \<lparr>gs_address = address, gs_services = services, gs_credentials = Some creds\<rparr>), dir1))
      else (Inr \<lparr>gs_address = address, gs_services = services, gs_credentials = None\<rparr>, dir))"

record grpc_channel =
  ch_target :: str
  ch_credentials :: "ChannelCredentials option"

definition open_channel ::
    "x509_lib \<Rightarrow> cert_inputs \<Rightarrow> cert_inputs \<Rightarrow> str \<Rightarrow> str \<Rightarrow> bool \<Rightarrow> secret_dir \<Rightarrow> (exc + grpc_channel) \<times> secret_dir" where
  "open_channel lib i j spiffe_id target use_tls dir =
     (if use_tls then
        (case get_client_credentials lib i j spiffe_id dir of
           (r, dir1) \<Rightarrow> (rbind r (\<lambda>creds. Inr \<lparr>ch_target = target, ch_credentials = Some creds\<rparr>), dir1))
      else (Inr \<lparr>ch_target = target, ch_credentials = None\<rparr>, dir))"

text \<open>The channels of the scheduler to a node and of a node to the control plane.\<close>

definition scheduler_channel ::
    "x509_lib \<Rightarrow> cert_inputs \<Rightarrow> cert_inputs \<Rightarrow> str \<Rightarrow> bool \<Rightarrow> secret_dir \<Rightarrow> (exc + grpc_channel) \<times> secret_dir" where
  "scheduler_channel lib i j target use_tls dir =
     open_channel lib i j ''spiffe://distributed-ai.local/scheduler/master'' target use_tls dir"

definition node_channel ::
    "x509_lib \<Rightarrow> cert_inputs \<Rightarrow> cert_inputs \<Rightarrow> SimulatedNode \<Rightarrow> str \<Rightarrow> bool \<Rightarrow> secret_dir \<Rightarrow> (exc + grpc_channel) \<times> secret_dir" where
  "node_channel lib i j node target use_tls dir =
     open_channel lib i j (''spiffe://distributed-ai.local/node/'' @ n_node_id node) target use_tls dir"

section \<open>Handshakes\<close>

text \<open>The host of a target \<open>host:port\<close>.\<close>

definition host_of :: "str \<Rightarrow> str" where
  "host_of target = takeWhile (\<lambda>c. c \<noteq> CHR '':'') target"

record tls_lib =
  tl_handshake :: "ChannelCredentials \<Rightarrow> str \<Rightarrow> ServerCredentials \<Rightarrow> int \<Rightarrow> bool"

text \<open>
  What a handshake checks: the client, the path of the server's certificate to its root and the
  name of the host it meant to reach among the names of the certificate (in any case of
  letters); the server, the path of the client's certificate when it requires one.
\<close>

definition names_host :: "certificate \<Rightarrow> str \<Rightarrow> bool" where
  "names_host c host \<longleftrightarrow> lower host \<in> lower ` set (ce_dns_names c) \<or> host \<in> set (ce_ip_addresses c)"

definition tls_ok :: "x509_lib \<Rightarrow> tls_lib \<Rightarrow> bool" where
  "tls_ok lib tls \<longleftrightarrow> (\<forall>cc host sc t. tl_handshake tls cc host sc t \<longleftrightarrow>
     path_valid lib (cc_root_certificates cc) (sc_certificate_chain sc) t \<and>
     (\<exists>c. x5_load_cert lib (sc_certificate_chain sc) = Inr c \<and> names_host c host) \<and>
     (sc_require_client_auth sc \<longrightarrow> path_valid lib (sc_root_certificates sc) (cc_certificate_chain cc) t))"

text \<open>
  Whether gRPC connects a channel and a server: its own behaviour, not code of the repository. Two
  ends without credentials connect, two with credentials when the handshake succeeds, others never.
\<close>

definition connects :: "tls_lib \<Rightarrow> int \<Rightarrow> grpc_channel \<Rightarrow> grpc_server \<Rightarrow> bool" where
  "connects tls t ch server =
     (case (ch_credentials ch, gs_credentials server) of
        (Some cc, Some sc) \<Rightarrow> tl_handshake tls cc (host_of (ch_target ch)) sc t
      | (None, None) \<Rightarrow> True
      | _ \<Rightarrow> False)"

text \<open>The identity a server sees: the certificate of the channel, nobody without TLS.\<close>

definition peer_context :: "x509_lib \<Rightarrow> grpc_channel \<Rightarrow> auth_context" where
  "peer_context lib ch =
     (case ch_credentials ch of
        None \<Rightarrow> \<lparr>x509_san_uri = [], x509_common_name = []\<rparr>
      | Some cc \<Rightarrow> (case x5_load_cert lib (cc_certificate_chain cc) of
          Inl ex \<Rightarrow> \<lparr>x509_san_uri = [], x509_common_name = []\<rparr> | Inr c \<Rightarrow> x5_peer lib c))"

text \<open>
  The network of a scheduler with its channels and the servers at their targets, when the
  handshakes are made at time \<open>t\<close>: a call fails when they do, and is otherwise the handler's.
\<close>

definition secure_network ::
    "platform \<Rightarrow> x509_lib \<Rightarrow> tls_lib \<Rightarrow> int \<Rightarrow> (str \<Rightarrow> grpc_channel) \<Rightarrow> (str, grpc_server) dict \<Rightarrow>
     (str \<Rightarrow> SignedTaskEnvelope \<Rightarrow> node_inputs) \<Rightarrow> (str, InferenceWorker) dict network" where
  "secure_network pl lib tls t channel servers nis target timeout req st =
     (case dget servers target of
        None \<Rightarrow> (Inl (py_exc RpcErrorClass []), st)
      | Some server \<Rightarrow>
          if connects tls t (channel target) server
          then cluster_network pl (peer_context lib (channel target)) nis target timeout req st
          else (Inl (py_exc RpcErrorClass []), st))"

section \<open>Handshakes under one CA\<close>

definition HOSTS :: "str list" where
  "HOSTS = [''localhost'', ''test-node-1'', ''test-node-2'', ''wrong-node'']"

definition reachable_host :: "str \<Rightarrow> bool" where
  "reachable_host host \<longleftrightarrow> lower host \<in> set HOSTS \<or> host \<in> {''127.0.0.1'', ''::1''}"

lemma svid_hosts: "names_host (svid_certificate lib j spiffe_id ca) host \<longleftrightarrow> reachable_host host"
  by (simp add: names_host_def svid_certificate_def reachable_host_def HOSTS_def lower_def lower_char_def)

definition svid_in_force :: "cert_inputs \<Rightarrow> int \<Rightarrow> bool" where
  "svid_in_force j t \<longleftrightarrow> ci_utcnow j - 5 * MINUTES \<le> t \<and> t \<le> ci_utcnow2 j + 60 * MINUTES"

lemma in_force_svid: "in_force (svid_certificate lib j spiffe_id ca) t = svid_in_force j t"
  by (simp add: in_force_def svid_in_force_def svid_certificate_def)

lemma handshake_issued:
  assumes "tls_ok lib tls" "issued lib dir j cid ck (cc_certificate_chain cc) (cc_root_certificates cc)"
    and "issued lib dir j' sid sk (sc_certificate_chain sc) (sc_root_certificates sc)"
    and "sd_cert dir = Some c" "x5_load_cert lib c = Inr ca"
  shows "tl_handshake tls cc host sc t \<longleftrightarrow> in_force ca t \<and> svid_in_force j' t \<and> reachable_host host \<and>
    (sc_require_client_auth sc \<longrightarrow> svid_in_force j t)"
proof -
  have roots: "cc_root_certificates cc = c" "sc_root_certificates sc = c"
    using assms(2-4) by (auto simp: issued_def)
  have C: "path_valid lib c (cc_certificate_chain cc) t \<longleftrightarrow> in_force ca t \<and> svid_in_force j t"
    using assms(2) unfolding roots
    by (rule issued_path) (use assms(5) in \<open>simp add: in_force_svid\<close>)
  have S: "path_valid lib c (sc_certificate_chain sc) t \<longleftrightarrow> in_force ca t \<and> svid_in_force j' t"
    "x5_load_cert lib (sc_certificate_chain sc) = Inr (svid_certificate lib j' sid ca)"
    using assms(3) unfolding roots
    by (rule issued_path, use assms(5) in \<open>simp add: in_force_svid\<close>)+
  have "tl_handshake tls cc host sc t \<longleftrightarrow>
     path_valid lib (cc_root_certificates cc) (sc_certificate_chain sc) t \<and>
     (\<exists>c. x5_load_cert lib (sc_certificate_chain sc) = Inr c \<and> names_host c host) \<and>
     (sc_require_client_auth sc \<longrightarrow> path_valid lib (sc_root_certificates sc) (cc_certificate_chain cc) t)"
    using assms(1) unfolding tls_ok_def by blast
  then show ?thesis unfolding roots C S by (auto simp: svid_hosts)
qed

lemma channelE:
  assumes "open_channel lib i j spiffe_id target True dir = (Inr ch, dir1)"
  obtains cc where "get_client_credentials lib i j spiffe_id dir = (Inr cc, dir1)"
    "ch = \<lparr>ch_target = target, ch_credentials = Some cc\<rparr>"
  using assms by (auto simp: open_channel_def rbind_Inr_iff split: prod.splits)

lemma serveE:
  assumes "serve lib i j w port True dir = (Inr server, dir1)"
  obtains sc where "get_server_credentials lib i j (''spiffe://distributed-ai.local/node/'' @ n_node_id (w_node w)) dir = (Inr sc, dir1)"
    "gs_credentials server = Some sc"
  using assms by (auto simp: serve_def rbind_Inr_iff split: prod.splits)

lemma serve_control_planeE:
  assumes "serve_control_plane lib i j port True dir = (Inr server, dir1)"
  obtains sc where "get_server_credentials lib i j ''spiffe://distributed-ai.local/gateway/master'' dir = (Inr sc, dir1)"
    "gs_credentials server = Some sc"
  using assms by (auto simp: serve_control_plane_def rbind_Inr_iff split: prod.splits)

lemma ExecuteTask_identity:
  "extract_spiffe_id ctx = extract_spiffe_id ctx' \<Longrightarrow> ExecuteTask pl ctx = ExecuteTask pl ctx'"
  by (intro ext) (simp add: ExecuteTask_def)

lemma cluster_network_identity:
  assumes "extract_spiffe_id ctx = extract_spiffe_id ctx'"
  shows "cluster_network pl ctx = cluster_network pl ctx'"
  by (intro ext) (simp only: cluster_network_def ExecuteTask_identity [OF assms])

lemma peer_issued:
  assumes "x509_ok lib" "issued lib dir j spiffe_id ck (cc_certificate_chain cc) r" "ch_credentials ch = Some cc"
    and "startswith spiffe_id ''spiffe://distributed-ai.local/''"
  shows "extract_spiffe_id (peer_context lib ch) = Some spiffe_id"
  using assms(2) by (rule issued_path) (simp add: peer_context_def assms issued_peer)

section \<open>What a certificate does not say\<close>

text \<open>
  Servers and channels with CAs of their own: a handshake succeeds only if a certificate that
  the server's CA signed verifies under the root of the channel.
\<close>

lemma separate_cas_never_connect:
  assumes "x509_ok lib" "tls_ok lib tls"
    and d1: "issued lib dir1 j cid ck (cc_certificate_chain cc) (cc_root_certificates cc)"
    and d2: "sd_key dir2 = Some (x5_key_pem lib key)" "sd_cert dir2 = Some c2"
    and sv: "serve lib i' j' w port True dir2 = (Inr server, dir3)"
    and ch: "ch_credentials ch = Some cc" "connects tls t ch server"
  shows "\<exists>ca1 cert. x5_load_cert lib (cc_root_certificates cc) = Inr ca1 \<and> crossed lib key (ce_public_key ca1) cert"
proof -
  obtain sc where sc: "get_server_credentials lib i' j' (''spiffe://distributed-ai.local/node/'' @ n_node_id (w_node w)) dir2 = (Inr sc, dir3)"
    "gs_credentials server = Some sc"
    using sv by (rule serveE)
  obtain p where p: "get_svid lib j' (''spiffe://distributed-ai.local/node/'' @ n_node_id (w_node w)) p =
      Inr (sc_private_key sc, sc_certificate_chain sc, sc_root_certificates sc)" "ip_ca_key p = key"
    using sc(1) d2 x509D(1) [OF assms(1)]
    by (auto simp: get_server_credentials_def provider_svid_def new_SimulatedIdentityProvider_def
        provider_with_ca_def get_or_create_shared_ca_def rbind_Inr_iff)
  obtain ca1 where ca1: "x5_load_cert lib (cc_root_certificates cc) = Inr ca1"
    using d1 by (auto simp: issued_def)
  have "path_valid lib (cc_root_certificates cc) (sc_certificate_chain sc) t"
    using ch assms(2) by (auto simp: connects_def sc(2) tls_ok_def)
  then show ?thesis using crossed_svid [OF p(1) _ ca1] p(2) ca1 by blast
qed

text \<open>A server whose certificate does not name the host of the target cannot be called at all.\<close>

lemma unnamed_host:
  assumes "x509_ok lib" "tls_ok lib tls" "dir_ok lib dir" "serve lib i j w port True dir = (Inr server, dir1)"
    and "\<not> reachable_host (host_of (ch_target ch))"
  shows "\<not> connects tls t ch server"
proof -
  obtain sc where sc: "get_server_credentials lib i j (''spiffe://distributed-ai.local/node/'' @ n_node_id (w_node w)) dir = (Inr sc, dir1)"
    "gs_credentials server = Some sc"
    using assms(4) by (rule serveE)
  note si = conjunct1 [OF server_credentials_issued(1) [OF assms(1,3) sc(1)]]
  obtain ca where ca: "x5_load_cert lib (sc_certificate_chain sc) =
      Inr (svid_certificate lib j (''spiffe://distributed-ai.local/node/'' @ n_node_id (w_node w)) ca)"
    using si by (rule issued_path) blast
  show ?thesis
    using assms(2,5) by (auto simp: connects_def sc(2) tls_ok_def ca svid_hosts split: option.splits)
qed

text \<open>A scheduler whose nodes registered themselves.\<close>

definition registered_targets :: "TaskScheduler \<Rightarrow> bool" where
  "registered_targets s \<longleftrightarrow>
     (\<forall>n target. dget (sc_node_targets s) n = Some target \<or> dget (sc_channels s) n = Some target \<longrightarrow>
        target = n @ '':50051'')"

lemma registered_targets_new: "registered_targets (fst (new_TaskScheduler pl [] scheduler_id sk pq_sk t0 t1 e))"
  by (simp add: new_TaskScheduler_def registered_targets_def Let_def split: prod.splits)

lemma registered_targets_register:
  "registered_targets s \<Longrightarrow> registered_targets (fst (snd (RegisterNode ctx rq (s, e))))"
  by (auto simp: registered_targets_def RegisterNode_def register_worker_def Let_def split: if_splits)

lemma registered_targets_stub:
  "registered_targets s \<Longrightarrow> get_stub n s = Inr (target, s1) \<Longrightarrow> target = n @ '':50051'' \<and> registered_targets s1"
  by (auto simp: registered_targets_def get_stub_def Let_def split: option.splits if_splits elim!: truthyE)

lemma host_of_node: "CHR '':'' \<notin> set n \<Longrightarrow> host_of (n @ '':50051'') = n"
  by (induction n) (auto simp: host_of_def)

lemma try_candidates_unreachable:
  assumes "\<And>c st timeout req. c \<in> set cs \<Longrightarrow> rpc (c @ '':50051'') timeout req st = (Inl err, st)" "registered_targets s"
  shows "\<exists>ex s1. try_candidates pl rpc di t chain cs n (s, e, w) = (Inl ex, s1, e, w) \<and>
    exc_class ex = FallbackExhaustionErrorClass"
  using assms
proof (induction cs arbitrary: n s)
  case Nil
  then show ?case by (simp add: FallbackExhaustionError_def)
next
  case (Cons c cs)
  obtain ex s1 where a: "attempt pl rpc di t (n + 1) c (s, e, w) = (Inl ex, s1, e, w)" "registered_targets s1"
  proof (cases "get_stub c s")
    case (Inl err)
    then show ?thesis using that [of err s] Cons.prems(2) by (simp add: attempt_def)
  next
    case (Inr p)
    obtain target s1 where p: "get_stub c s = Inr (target, s1)" using Inr by (cases p) auto
    have "target = c @ '':50051''" "registered_targets s1"
      using registered_targets_stub [OF Cons.prems(2) p] by blast+
    then show ?thesis using that [of err s1] Cons.prems(1) [of c] by (simp add: attempt_def p Let_def)
  qed
  then show ?case using Cons.IH [of s1 "n + 1"] Cons.prems(1) by simp
qed

text \<open>Without TLS there is no identity.\<close>

lemma no_identity: "ch_credentials ch = None \<Longrightarrow> extract_spiffe_id (peer_context lib ch) = None"
  by (simp add: peer_context_def extract_spiffe_id_def)

section \<open>Properties\<close>

text \<open>
  C8: the scheduler's calls over mutual TLS are the calls of the plain network. A channel the
  scheduler opens and a server of a node, with credentials from one directory, connect exactly
  while the CA and both certificates are in force (each for one hour from when it was made:
  nothing renews the credentials of an open server or channel) and only when the host of the
  target is one of the names put into every certificate. Then a call is the handler's call by
  the scheduler's identity, whichever node the server belongs to; otherwise it is an
  \<open>RpcError\<close> and nothing changes. So the network with the scheduler as its caller is
  what the other properties of calls assume.
\<close>

theorem scheduler_calls_over_tls:
  assumes "x509_ok lib" "tls_ok lib tls"
    and "sd_key dir = Some k" "sd_cert dir = Some c" "ca_pair lib k c ca"
    and ch: "scheduler_channel lib i j target True dir = (Inr (channel target), dir1)"
    and sv: "serve lib i' j' w port True dir = (Inr server, dir2)"
    and "dget servers target = Some server"
    and ctx: "authorize_scheduler (extract_spiffe_id ctx)"
  shows "secure_network pl lib tls t channel servers nis target timeout req st =
    (if in_force ca t \<and> svid_in_force j t \<and> svid_in_force j' t \<and> reachable_host (host_of target)
     then cluster_network pl ctx nis target timeout req st
     else (Inl (py_exc RpcErrorClass []), st))"
proof -
  have ok: "dir_ok lib dir" using assms(3-5) by (auto simp: dir_ok_def)
  have load: "x5_load_cert lib c = Inr ca" using assms(1,5) x509D(2) by (auto simp: ca_pair_def)
  obtain cc where cc: "get_client_credentials lib i j ''spiffe://distributed-ai.local/scheduler/master'' dir = (Inr cc, dir1)"
    "channel target = \<lparr>ch_target = target, ch_credentials = Some cc\<rparr>"
    using ch unfolding scheduler_channel_def by (rule channelE)
  obtain sc where sc: "get_server_credentials lib i' j' (''spiffe://distributed-ai.local/node/'' @ n_node_id (w_node w)) dir = (Inr sc, dir2)"
    "gs_credentials server = Some sc"
    using sv by (rule serveE)
  have dirs: "dir1 = dir" "dir2 = dir" using cc(1) sc(1) dir_kept [OF assms(3,4)] by (metis snd_conv)+
  note ci = conjunct1 [OF client_credentials_issued [OF assms(1) ok cc(1)], unfolded dirs]
  note si = conjunct1 [OF server_credentials_issued(1) [OF assms(1) ok sc(1)], unfolded dirs]
  have con: "connects tls t (channel target) server \<longleftrightarrow>
      in_force ca t \<and> svid_in_force j t \<and> svid_in_force j' t \<and> reachable_host (host_of target)"
    using handshake_issued [OF assms(2) ci si assms(4) load] server_credentials_issued(2) [OF assms(1) ok sc(1)]
    by (auto simp: connects_def cc(2) sc(2))
  have "extract_spiffe_id (peer_context lib (channel target)) = extract_spiffe_id ctx"
    using ctx peer_issued [OF assms(1) ci, of "channel target"] by (simp add: cc(2) startswith_def authorize_scheduler_iff)
  then have "cluster_network pl (peer_context lib (channel target)) = cluster_network pl ctx"
    by (rule cluster_network_identity)
  then show ?thesis by (simp add: secure_network_def assms(8) con)
qed

definition toy_tls :: "x509_lib \<Rightarrow> tls_lib" where
  "toy_tls lib =
     \<lparr>tl_handshake = (\<lambda>cc host sc t.
        path_valid lib (cc_root_certificates cc) (sc_certificate_chain sc) t \<and>
        (case x5_load_cert lib (sc_certificate_chain sc) of Inl _ \<Rightarrow> False | Inr c \<Rightarrow> names_host c host) \<and>
        (sc_require_client_auth sc \<longrightarrow> path_valid lib (sc_root_certificates sc) (cc_certificate_chain cc) t))\<rparr>"

lemma toy_tls_ok: "tls_ok lib (toy_tls lib)"
  by (auto simp: tls_ok_def toy_tls_def split: sum.splits)

definition edge_worker :: InferenceWorker where
  "edge_worker = new_InferenceWorker sample_worker_node"

lemma sample_served:
  "\<exists>server sc. serve toy_x509 (sample_draws 4) (sample_draws 5) edge_worker 50051 True (sample_dir k) = (Inr server, sample_dir k) \<and>
     gs_credentials server = Some sc"
  using sample_credentials(2) [OF sample_names(1,2), of "sample_draws 4" 5 k]
  by (auto simp: serve_def edge_worker_def new_InferenceWorker_def sample_worker_node_def new_SimulatedNode_def)

lemma sample_channel:
  "\<exists>ch. scheduler_channel toy_x509 (sample_draws 2) (sample_draws 3) target True (sample_dir k) = (Inr ch, sample_dir k)"
proof -
  have "name_ok ''spiffe://distributed-ai.local/scheduler/master''" "ascii ''spiffe://distributed-ai.local/scheduler/master''"
    by (simp_all add: name_ok_def encode_def ascii_def)
  from sample_credentials(1) [OF this, of "sample_draws 2" 3 k] show ?thesis
    by (auto simp: scheduler_channel_def open_channel_def)
qed

theorem scheduler_calls_over_tls_witness:
  "\<exists>channel servers. \<forall>pl nis timeout req st.
     secure_network pl toy_x509 (toy_tls toy_x509) (1000 * MINUTES) channel servers nis ''localhost:50051'' timeout req st =
       cluster_network pl sample_context nis ''localhost:50051'' timeout req st \<and>
     secure_network pl toy_x509 (toy_tls toy_x509) (1061 * MINUTES) channel servers nis ''localhost:50051'' timeout req st =
       (Inl (py_exc RpcErrorClass []), st)"
proof -
  obtain ch where ch: "scheduler_channel toy_x509 (sample_draws 2) (sample_draws 3) ''localhost:50051'' True (sample_dir 1) = (Inr ch, sample_dir 1)"
    using sample_channel by blast
  obtain server where sv: "serve toy_x509 (sample_draws 4) (sample_draws 5) edge_worker 50051 True (sample_dir 1) = (Inr server, sample_dir 1)"
    using sample_served by blast
  have a: "authorize_scheduler (extract_spiffe_id sample_context)"
    by (simp add: sample_context_def extract_spiffe_id_def startswith_def authorize_scheduler_def)
  note calls = scheduler_calls_over_tls [OF toy_x509_ok toy_tls_ok, of "sample_dir 1" _ _ "sample_ca 1"
      "sample_draws 2" "sample_draws 3" "''localhost:50051''" "\<lambda>_. ch" _ "sample_draws 4" "sample_draws 5" edge_worker 50051 server _
      "[(''localhost:50051'', server)]"]
  have d: "sd_key (sample_dir 1) = Some [1]" "sd_cert (sample_dir 1) = Some (x5_sign toy_x509 [1] (sample_ca 1))"
    by (simp_all add: sample_dir_def)
  have g: "dget [(''localhost:50051'', server)] ''localhost:50051'' = Some server" by simp
  have h: "reachable_host (host_of ''localhost:50051'')"
    by (simp add: reachable_host_def host_of_def HOSTS_def lower_def lower_char_def)
  have t: "in_force (sample_ca 1) (1000 * MINUTES)" "svid_in_force (sample_draws j) (1000 * MINUTES)"
    "\<not> svid_in_force (sample_draws j) (1061 * MINUTES)" for j
    by (simp_all add: in_force_def svid_in_force_def sample_ca_def sample_draws_def MINUTES_def)
  show ?thesis
    by (rule exI [of _ "\<lambda>_. ch"], rule exI [of _ "[(''localhost:50051'', server)]"])
      (simp only: calls [OF d sample_dir_ok(3) ch sv g a] t h simp_thms if_True if_False)
qed

text \<open>
  C36: nodes that register under their own names are never reached over TLS. The control
  plane gives a registered node \<open>n\<close> the target \<open>n:50051\<close>, but the certificate of its server,
  whatever CA made it, names only \<open>localhost\<close>, three names of the tests and the loopback
  addresses. When no node of the chain has one of these names, every attempt fails at every time,
  no worker is called, and the task ends as exhausted (as an error in any case).
\<close>

theorem registered_nodes_unreachable:
  assumes "x509_ok lib" "tls_ok lib tls" "registered_targets s"
    and sv: "\<And>target server. dget servers target = Some server \<Longrightarrow>
      \<exists>i j w port dir dir1. dir_ok lib dir \<and> serve lib i j w port True dir = (Inr server, dir1)"
    and ch: "\<And>target. ch_target (channel target) = target"
    and n: "\<And>n. n \<in> set (dispatch_chain d) \<Longrightarrow> CHR '':'' \<notin> set n \<and> \<not> reachable_host n"
  shows "\<exists>ex s1 e1. dispatch pl (secure_network pl lib tls t channel servers nis) di now task d (s, e, workers) =
      (Inl ex, s1, e1, workers) \<and>
    (fst (is_lease_valid (sc_lease_id s) now e) \<and> sc_is_leader s \<longrightarrow> exc_class ex = FallbackExhaustionErrorClass)"
proof -
  let ?net = "secure_network pl lib tls t channel servers nis"
  have down: "?net (c @ '':50051'') timeout req st = (Inl (py_exc RpcErrorClass []), st)"
    if c: "c \<in> set (dispatch_chain d)" for c timeout req st
  proof (cases "dget servers (c @ '':50051'')")
    case (Some server)
    have "\<not> reachable_host (host_of (ch_target (channel (c @ '':50051''))))"
      using n [OF c] by (simp add: ch host_of_node)
    then have "\<not> connects tls t (channel (c @ '':50051'')) server"
      using sv [OF Some] unnamed_host [OF assms(1,2)] by blast
    then show ?thesis by (simp add: secure_network_def Some)
  qed (simp add: secure_network_def)
  obtain s1 e1 where l: "check_leadership now s e = (s1, e1)" by (cases "check_leadership now s e")
  have r: "registered_targets s1"
    using l assms(3) by (auto simp: check_leadership_def registered_targets_def split: if_splits prod.splits bool.splits)
  have lead: "sc_is_leader s1" if "fst (is_lease_valid (sc_lease_id s) now e) \<and> sc_is_leader s"
    using l that by (auto simp: check_leadership_def split: if_splits prod.splits bool.splits)
  obtain ex s2 where t: "try_candidates pl ?net di task (dispatch_chain d) (dispatch_chain d) 0 (s1, e1, workers) = (Inl ex, s2, e1, workers)"
    "exc_class ex = FallbackExhaustionErrorClass"
    using try_candidates_unreachable [where rpc = ?net and cs = "dispatch_chain d", OF down r] by blast
  show ?thesis
    using lead t by (auto simp: dispatch_def l Let_def FallbackExhaustionError_def)
qed

text \<open>The node of the deployment: it registers, its server runs, and its tasks are exhausted.\<close>

theorem registered_nodes_unreachable_witness:
  "\<exists>channel server ex s1 e1.
     (\<forall>target. scheduler_channel toy_x509 (sample_draws 2) (sample_draws 3) target True (sample_dir 1) =
        (Inr (channel target), sample_dir 1)) \<and>
     serve toy_x509 (sample_draws 4) (sample_draws 5) edge_worker 50051 True (sample_dir 1) = (Inr server, sample_dir 1) \<and>
     dispatch sample_platform
       (secure_network sample_platform toy_x509 (toy_tls toy_x509) (1000 * MINUTES) channel [(''edge-1:50051'', server)] (\<lambda>target req. sample_inputs))
       sample_dispatch 0 (sample_task None) sample_decision
       (sample_scheduler\<lparr>sc_node_targets := [(''edge-1'', ''edge-1:50051'')]\<rparr>, sample_scheduler_etcd, [(''edge-1:50051'', edge_worker)]) =
     (Inl ex, s1, e1, [(''edge-1:50051'', edge_worker)]) \<and> exc_class ex = FallbackExhaustionErrorClass"
proof -
  have "\<forall>target. \<exists>ch. scheduler_channel toy_x509 (sample_draws 2) (sample_draws 3) target True (sample_dir 1) = (Inr ch, sample_dir 1)"
    using sample_channel by blast
  then obtain channel where ch: "\<forall>target. scheduler_channel toy_x509 (sample_draws 2) (sample_draws 3) target True (sample_dir 1) =
      (Inr (channel target), sample_dir 1)"
    by (rule choice [THEN exE])
  obtain server where sv: "serve toy_x509 (sample_draws 4) (sample_draws 5) edge_worker 50051 True (sample_dir 1) = (Inr server, sample_dir 1)"
    using sample_served by blast
  have t: "ch_target (channel target) = target" for target
    using spec [OF ch, of target] unfolding scheduler_channel_def by (rule channelE) simp
  have c: "dispatch_chain sample_decision = [''edge-1'', ''cloud-1'']" by (simp add: sample_decision_def dispatch_chain_def)
  have n: "CHR '':'' \<notin> set n \<and> \<not> reachable_host n" if "n \<in> set (dispatch_chain sample_decision)" for n
    using that by (auto simp: c reachable_host_def HOSTS_def lower_def lower_char_def)
  have r: "registered_targets (sample_scheduler\<lparr>sc_node_targets := [(''edge-1'', ''edge-1:50051'')]\<rparr>)"
    by (simp add: registered_targets_def sample_scheduler_def new_TaskScheduler_def Let_def split: prod.splits)
  have d: "\<exists>i j w port dir dir1. dir_ok toy_x509 dir \<and> serve toy_x509 i j w port True dir = (Inr server', dir1)"
    if "dget [(''edge-1:50051'', server)] target = Some server'" for target server'
  proof -
    have "server' = server" using that by (simp split: if_splits)
    then show ?thesis using sv sample_dir_ok(2) [of 1] by metis
  qed
  have l: "fst (is_lease_valid (sc_lease_id sample_scheduler) 0 sample_scheduler_etcd)" "sc_is_leader sample_scheduler"
    using sample_elected by simp_all
  let ?net = "secure_network sample_platform toy_x509 (toy_tls toy_x509) (1000 * MINUTES) channel [(''edge-1:50051'', server)]
    (\<lambda>target req. sample_inputs)"
  let ?s = "sample_scheduler\<lparr>sc_node_targets := [(''edge-1'', ''edge-1:50051'')]\<rparr>"
  have "\<exists>ex s1 e1. dispatch sample_platform ?net sample_dispatch 0 (sample_task None) sample_decision
      (?s, sample_scheduler_etcd, [(''edge-1:50051'', edge_worker)]) = (Inl ex, s1, e1, [(''edge-1:50051'', edge_worker)]) \<and>
    (fst (is_lease_valid (sc_lease_id ?s) 0 sample_scheduler_etcd) \<and> sc_is_leader ?s \<longrightarrow>
      exc_class ex = FallbackExhaustionErrorClass)"
    by (rule registered_nodes_unreachable [OF toy_x509_ok toy_tls_ok r]) (use d t n in blast)+
  then show ?thesis using ch sv l by (intro exI [of _ channel] exI [of _ server]) simp
qed

text \<open>
  C37: without TLS nothing works. A channel and a server that both have no credentials
  connect, but the caller has no identity: the node refuses every task, the control plane
  rejects every registration and refuses every telemetry stream, and no state changes. So the
  switches \<open>--insecure\<close> and \<open>ENABLE_MTLS=false\<close> start processes that serve nobody.
\<close>

theorem insecure_mode_serves_nobody:
  assumes "ch_credentials ch = None" "gs_credentials server = None"
  shows "connects tls t ch server \<and>
    ExecuteTask pl (peer_context lib ch) req ni w e = (Inl UNAUTHENTICATED, w, e) \<and>
    (\<exists>rp. RegisterNode (peer_context lib ch) rq (s, e) = (rp, s, e) \<and> rp_status rp = ''rejected'') \<and>
    StreamTelemetry cr (peer_context lib ch) items ts = (Inl UNAUTHENTICATED, ts)"
  using assms
  by (simp add: connects_def ExecuteTask_def RegisterNode_def StreamTelemetry_def authenticate_node_def no_identity
      authorize_scheduler_iff authorize_node_iff)

theorem insecure_mode_serves_nobody_witness:
  "\<exists>ch server. fst (scheduler_channel toy_x509 (sample_draws 2) (sample_draws 3) ''localhost:50051'' False (sample_dir 1)) = Inr ch \<and>
     fst (serve toy_x509 (sample_draws 4) (sample_draws 5) edge_worker 50051 False (sample_dir 1)) = Inr server \<and>
     connects (toy_tls toy_x509) 0 ch server \<and>
     ExecuteTask sample_platform (peer_context toy_x509 ch) sample_envelope sample_inputs edge_worker sample_etcd =
       (Inl UNAUTHENTICATED, edge_worker, sample_etcd)"
proof -
  obtain ch server where c: "fst (scheduler_channel toy_x509 (sample_draws 2) (sample_draws 3) ''localhost:50051'' False (sample_dir 1)) = Inr ch"
    "fst (serve toy_x509 (sample_draws 4) (sample_draws 5) edge_worker 50051 False (sample_dir 1)) = Inr server"
    "ch_credentials ch = None" "gs_credentials server = None"
    by (simp add: scheduler_channel_def open_channel_def serve_def)
  show ?thesis using insecure_mode_serves_nobody [OF c(3,4)] c(1,2) by blast
qed

end
