(* ===== verification/EntryPoints.thy ===== *)
theory EntryPoints
  imports Servers
begin

text \<open>
  The processes of the system: the gateway process (\<open>server.py\<close>) and the node agent
  (\<open>node_agent/main.py\<close>).

  \<open>start_server\<close> and \<open>node_agent_main\<close> are the bodies of the two programs: as committed, both
  stop at the import of a function that \<open>common.logger\<close> does not define. The parsed arguments,
  the keys, clock readings and files are arguments; the Redis store is the store it refines
  (\<open>ControlPlane\<close>), with what it holds when the process starts.
\<close>

section \<open>The gateway process\<close>

record server_inputs =
  sv_policy :: StaticPolicy
  sv_audit_file :: "str list option"
  sv_audit_key :: bytes
  sv_scheduler_key :: bytes
  sv_scheduler_pq_key :: bytes
  sv_grant_time :: pyfloat
  sv_check_time :: pyfloat
  sv_ca :: cert_inputs
  sv_svid :: cert_inputs

record server_process =
  sp_gateway :: gateway
  sp_replay :: replay_state
  sp_grpc :: grpc_server

definition server_use_tls :: "environ \<Rightarrow> bool" where
  "server_use_tls env \<longleftrightarrow> lower (getenv env ''ENABLE_MTLS'' ''true'') = ''true''"

definition start_server ::
    "platform \<Rightarrow> x509_lib \<Rightarrow> server_inputs \<Rightarrow> TelemetryStore \<Rightarrow> etcd \<times> secret_dir \<Rightarrow>
     (exc + server_process) \<times> etcd \<times> secret_dir" where
  "start_server pl lib si store = (\<lambda>(e, dir).
     let use_tls = server_use_tls (pl_environ pl) in
     if \<not> use_tls \<and> getenv (pl_environ pl) ''APP_ENV'' ''production'' = ''production'' then
       (Inl (py_exc ValueErrorClass ''mTLS cannot be disabled in production (APP_ENV=production).''), e, dir)
     else
       (let telemetry_store = set_staleness_threshold_ms 3000 store;
            decision_engine = new_DecisionEngine (sv_policy si);
            (aggregator, e1) = new_TamperEvidentLedger (pl_crypto pl) (sv_audit_file si) 10 (sv_audit_key si) e;
            (scheduler, e2) = new_TaskScheduler pl [] ''scheduler-1'' (sv_scheduler_key si) (sv_scheduler_pq_key si)
              (sv_grant_time si) (sv_check_time si) e1
        in case serve_control_plane lib (sv_ca si) (sv_svid si) 50050 use_tls dir of
             (Inl ex, dir1) \<Rightarrow> (Inl ex, e2, dir1)
           | (Inr server, dir1) \<Rightarrow>
               (Inr \<lparr>sp_gateway = create_gateway_app (pl_environ pl) telemetry_store decision_engine scheduler aggregator,
                  sp_replay = new_replay_state 5, sp_grpc = server\<rparr>, e2, dir1)))"

lemma start_serverE:
  assumes "start_server pl lib si store (e, dir) = (Inr sp, e', dir')"
  obtains e1 sc dir1 server where
    "sp_gateway sp = create_gateway_app (pl_environ pl) (set_staleness_threshold_ms 3000 store)
       (new_DecisionEngine (sv_policy si)) sc
       (fst (new_TamperEvidentLedger (pl_crypto pl) (sv_audit_file si) 10 (sv_audit_key si) e))"
    "sp_replay sp = new_replay_state 5"
    "server_use_tls (pl_environ pl) \<or> getenv (pl_environ pl) ''APP_ENV'' ''production'' \<noteq> ''production''"
    "serve_control_plane lib (sv_ca si) (sv_svid si) 50050 (server_use_tls (pl_environ pl)) dir = (Inr (sp_grpc sp), dir')"
  using assms
  by (auto simp: start_server_def Let_def split: if_splits prod.splits sum.splits)

text \<open>
  A gateway process of a production environment requires certificates of its callers: it
  starts only with TLS, and then its control plane demands a client certificate under the CA
  its own certificate was made with.
\<close>

lemma production_requires_tls:
  assumes "x509_ok lib" "dir_ok lib dir" "getenv (pl_environ pl) ''APP_ENV'' ''production'' = ''production''"
    and "start_server pl lib si store (e, dir) = (Inr sp, e', dir')"
  shows "\<exists>creds. gs_credentials (sp_grpc sp) = Some creds \<and> sc_require_client_auth creds \<and>
    sd_cert dir' = Some (sc_root_certificates creds)"
proof -
  have "serve_control_plane lib (sv_ca si) (sv_svid si) 50050 True dir = (Inr (sp_grpc sp), dir')"
    using assms(4) by (rule start_serverE) (use assms(3) in auto)
  then obtain creds where c: "get_server_credentials lib (sv_ca si) (sv_svid si) ''spiffe://distributed-ai.local/gateway/master'' dir = (Inr creds, dir')"
    "gs_credentials (sp_grpc sp) = Some creds"
    by (rule serve_control_planeE)
  then show ?thesis
    using server_credentials_issued [OF assms(1,2) c(1)] by (auto simp: issued_def)
qed

section \<open>The node agent\<close>

record node_arguments =
  na_node_id :: str
  na_node_class :: str
  na_port :: int
  na_control_plane :: str
  na_zones :: str
  na_cost :: pyfloat
  na_insecure :: bool

text \<open>\<open>zones.split(",")\<close>\<close>

fun split_on :: "char \<Rightarrow> str \<Rightarrow> str list" where
  "split_on c [] = [[]]"
| "split_on c (x # xs) =
     (if x = c then [] # split_on c xs
      else (case split_on c xs of [] \<Rightarrow> [[x]] | y # ys \<Rightarrow> (x # y) # ys))"

definition agent_node :: "platform \<Rightarrow> node_birth \<Rightarrow> node_arguments \<Rightarrow> SimulatedNode" where
  "agent_node pl b args =
     (let node_class = (if na_node_class args = ''edge'' then EDGE else CLOUD) in
      new_SimulatedNode pl (na_node_id args) node_class (if node_class = EDGE then 10 else 45) 100 (na_cost args)
        (map strip (split_on (CHR '','') (na_zones args))) 15 5 0 HEALTHY STANDARD (nb_created b) (nb_key b) (nb_pq_key b))"

record node_process =
  np_streamer :: TelemetryStreamer
  np_target :: str
  np_worker :: InferenceWorker
  np_server :: grpc_server

definition node_agent_main ::
    "platform \<Rightarrow> x509_lib \<Rightarrow> node_birth \<Rightarrow> cert_inputs \<Rightarrow> cert_inputs \<Rightarrow> node_arguments \<Rightarrow> secret_dir \<Rightarrow>
     (exc + node_process) \<times> secret_dir" where
  "node_agent_main pl lib b i j args dir =
     (let node = agent_node pl b args;
          worker = new_InferenceWorker node;
          use_tls = \<not> na_insecure args
      in case serve lib i j worker (na_port args) use_tls dir of
           (Inl ex, dir1) \<Rightarrow> (Inl ex, dir1)
         | (Inr server, dir1) \<Rightarrow>
             (Inr \<lparr>np_streamer = new_TelemetryStreamer pl node, np_target = na_control_plane args,
                np_worker = worker, np_server = server\<rparr>, dir1))"

text \<open>The zones of the command line, joined again, are the argument; there is always one.\<close>

lemma split_on_join: "join [c] (split_on c s) = s" "split_on c s \<noteq> []"
proof (induction s)
  case (Cons x xs)
  { case 1
    show ?case using Cons.IH by (cases "split_on c xs") (auto simp: join_def)
  next
    case 2
    show ?case by (auto split: list.splits)
  }
qed (simp_all add: join_single)

text \<open>The server and the streamer of an agent are those of one node, with the key it registers.\<close>

lemma node_agent_one_node:
  assumes "node_agent_main pl lib b i j args dir = (Inr np, dir')"
  shows "w_node (np_worker np) = st_node (np_streamer np) \<and> n_node_id (st_node (np_streamer np)) = na_node_id args \<and>
    st_public_key_pem (np_streamer np) = ed_pem (pl_crypto pl) (nb_key b) \<and> worker_ok (np_worker np) \<and>
    (gs_credentials (np_server np) = None \<longleftrightarrow> na_insecure args)"
  using assms
  by (auto simp: node_agent_main_def new_TelemetryStreamer_def new_InferenceWorker_def agent_node_def new_SimulatedNode_def
      serve_def worker_ok_def Let_def rbind_Inr_iff split: prod.splits sum.splits if_splits)

end
