(* ===== verification/System.thy ===== *)
theory System
  imports EntryPoints
begin

text \<open>
  The gateway process over its whole life: any sequence of requests to the endpoints of
  \<open>gateway/app.py\<close> and to the services of \<open>gateway/grpc_server.py\<close>, of restarts of the process
  (\<open>server.py\<close>) and of changes the rest of the world makes to the authoritative state, the nodes
  and the network. The endpoints are coroutines that never wait, so they run one at a time; the
  services run in other threads, and are taken here as one step each (\<open>Interleavings\<close> has the
  finer steps of a stream).

  Nothing is assumed of the network: a node may answer anything. The invariant \<open>sound\<close> says
  what the process keeps nevertheless, and \<open>ledger_trail\<close> that the audit ledger holds exactly the
  answers given.
\<close>

section \<open>What an answer and a decision are made of\<close>

text \<open>The result read from a response, whatever the response: its floats are floats.\<close>

definition result_typed :: "ExecutionResult \<Rightarrow> bool" where
  "result_typed x \<longleftrightarrow> is_float (x_execution_time_ms x) \<and> pred_option (\<lambda>ob. json_ok (JObj ob)) (x_output x)"

lemma get_or_ok: "json_ok (JObj d) \<Longrightarrow> json_ok j \<Longrightarrow> json_ok (get_or d k j)"
  by (auto simp: get_or_def list_all_iff split: option.splits dest!: map_of_SomeD)

lemma as_float_ok: "json_ok j \<Longrightarrow> as_float j = Inr x \<Longrightarrow> is_float x"
  by (auto simp: as_float_def split: json.splits)

lemma read_output_ok: "floats_read ft \<Longrightarrow> read_output ft d = Inr (Some out) \<Longrightarrow> json_ok (JObj out)"
  by (auto simp: read_output_def Let_def simp del: json_ok.simps split: if_splits json.splits option.splits dest: loads_ok)

lemma read_result_ok:
  assumes "floats_read ft" "json_ok (JObj d)" "read_result ft resp d dig = Inr x"
  shows "result_typed x"
proof -
  obtain t out where t: "as_float (get_or d ''execution_time_ms'' (JFloat 0)) = Inr t" "x_execution_time_ms x = t"
    and o: "read_output ft d = Inr out" "x_output x = out"
    using assms(3) by (auto simp: read_result_def rbind_Inr_iff)
  have "is_float t" using t(1) get_or_ok [OF assms(2)] by (intro as_float_ok) auto
  then show ?thesis using read_output_ok [OF assms(1)] o t(2)
    by (cases out) (auto simp: result_typed_def simp del: json_ok.simps)
qed

lemma process_response_ok:
  assumes "floats_read (ftext (pl_crypto pl))" "process_response pl s c dig resp = Inr x"
  shows "result_typed x"
proof -
  obtain d where d: "decrypt_envelope (pl_crypto pl) (re_encrypted_result resp) (re_encrypted_dek resp) get_master_kek = Inr (JObj d)"
    and x: "read_result (ftext (pl_crypto pl)) resp d dig = Inr x"
  proof -
    from assms(2) obtain j where "decrypt_envelope (pl_crypto pl) (re_encrypted_result resp) (re_encrypted_dek resp) get_master_kek = Inr j"
      "(case j of JObj d \<Rightarrow>
          if dget d ''status'' = Some (JStr ''failed'') \<or> dget d ''status'' = Some (JStr ''rejected'') then
            Inl (NodeUnavailableError ''Execution failed on node'' c [])
          else read_result (ftext (pl_crypto pl)) resp d dig
        | _ \<Rightarrow> Inl (py_exc AttributeErrorClass ''get'')) = Inr x"
      unfolding process_response_def rbind_Inr_iff by blast
    moreover from this obtain d where "j = JObj d" "read_result (ftext (pl_crypto pl)) resp d dig = Inr x"
      by (cases j) (simp_all split: if_splits)
    ultimately show ?thesis using that by simp
  qed
  have "json_ok (JObj d)"
    using d loads_ok [OF assms(1)] by (auto simp: decrypt_envelope_def rbind_Inr_iff simp del: json_ok.simps split: option.splits)
  then show ?thesis using read_result_ok [OF assms(1) _ x] by blast
qed

lemma try_candidates_typed:
  assumes "floats_read (ftext (pl_crypto pl))"
  shows "try_candidates pl rpc di t chain cs n st = (Inr (x, fb, m), st') \<Longrightarrow> result_typed x"
proof (induction cs arbitrary: n st)
  case (Cons c cs)
  show ?case
  proof (cases "fst (attempt pl rpc di t (n + 1) c st)")
    case (Inl ex)
    then show ?thesis using Cons by (auto simp: Let_def split: prod.splits)
  next
    case (Inr y)
    then have "result_typed y"
      by (auto simp: attempt_def Let_def process_response_ok [OF assms] split: prod.splits sum.splits)
    then show ?thesis using Cons.prems Inr by (auto simp: Let_def split: prod.splits)
  qed
qed simp

lemma dispatch_typed:
  assumes "floats_read (ftext (pl_crypto pl))" "dispatch pl rpc di now t d st = (Inr (x, fb, m), st')"
  shows "result_typed x"
proof (cases st)
  case (fields s e w)
  show ?thesis using assms(2)
    by (auto simp: dispatch_def fields Let_def split: prod.splits if_splits elim: try_candidates_typed [OF assms(1)])
qed

text \<open>The decisions of the engine, and of the static policy.\<close>

definition decision_typed :: "PlacementDecision \<Rightarrow> bool" where
  "decision_typed d \<longleftrightarrow> is_float (d_chosen_score d) \<and> pred_option is_float (d_runner_up_score d) \<and>
     is_float (d_decision_latency_ms d) \<and> is_dict (d_weights_used d) \<and>
     list_all (is_float \<circ> snd) (d_weights_used d) \<and> is_dict (d_filtered_out_nodes d)"

lemma to_dict_typed: "weights_ok w \<Longrightarrow> is_dict (to_dict w) \<and> list_all (is_float \<circ> snd) (to_dict w)"
  by (simp add: to_dict_def weights_ok_def)

lemma static_typed: "engine_ok en \<Longrightarrow> decision_typed (get_static_fallback_decision en t why t0 t1)"
  using to_dict_typed [OF engine_weights_ok, of en t]
  by (simp add: get_static_fallback_decision_def decision_typed_def Let_def en_weights_def)

lemma ranked_typed: "i < length (ranked en t cs) \<Longrightarrow> is_float (snd (ranked en t cs ! i))"
  using nth_mem [of i "ranked en t cs"] by (auto simp: ranked_def set_ranking composite_def score5_def)

lemma placement_typed:
  assumes "engine_ok en" "evaluate_placement t cs inc t0 t1 en = Inr (d, en')"
  shows "decision_typed d \<and> engine_ok en'"
proof (cases "survivors en t cs = []")
  case True
  then show ?thesis
    using assms evaluate_placement_none [OF True, of inc t0 t1] static_typed [OF assms(1)] by auto
next
  case False
  from evaluate_placement_some [OF False, of inc t0 t1] assms(2)
  have d: "en' = en\<lparr>node_ema_scores := fold (ema_step (ema_alpha en)) (ranked en t cs) (node_ema_scores en)\<rparr>"
    "(d_chosen_node d, d_chosen_score d) = apply_hysteresis (challenger_margin en) inc (ranked en t cs) (ranked en t cs ! 0)"
    "d_runner_up_score d = (if 1 < length (ranked en t cs) then Some (snd (ranked en t cs ! 1)) else None)"
    "d_weights_used d = to_dict (en_weights en t)"
    "d_filtered_out_nodes d = snd (filter_candidates (filter_engine en) t cs)"
    by auto
  have "(d_chosen_node d, d_chosen_score d) \<in> set (ranked en t cs)"
    using hysteresis_member [OF False] unfolding d(2) ranked_def .
  then have "is_float (d_chosen_score d)" by (metis in_set_conv_nth ranked_typed snd_conv)
  moreover have "is_float (d_decision_latency_ms d)"
    using assms(2) False
    by (auto simp: evaluate_placement_def filter_candidates_eq survivors_def rbind_Inr_iff Let_def split: if_splits)
  ultimately show ?thesis
    using assms(1) to_dict_typed [OF engine_weights_ok [OF assms(1)], of t] ranked_typed [of 1 en t cs]
    by (auto simp: decision_typed_def d(1,3-5) engine_ok_def filter_candidates_eq)
qed

section \<open>The process and its requests\<close>

text \<open>
  A request with what its handling draws and reads. A posted snapshot or set of weights is the
  body before pydantic validates it; the messages of a stream come with the state each finds.
\<close>

datatype request =
  Infer submit_inputs str TaskRequest
| Post_snapshot NodeTelemetrySnapshot
| Get_nodes
| Get_health pyfloat
| Get_audit str "str option"
| Post_weights str SLAClass weights5
| Register auth_context NodeRegistrationRequest
| Stream auth_context "stream_item list"
| Set_engine bool

datatype reply =
  Answer "http_exception + jobj"
| Nodes "NodeTelemetrySnapshot list"
| Health HealthCheckResponse
| Trail "http_exception + AuditEvent list"
| Registered NodeRegistrationResponse
| Streamed "rpc_status + str"
| Set_weights "http_exception + jobj"
| Recorded "http_exception + jobj"
| No_reply

definition unprocessable :: "exc \<Rightarrow> http_exception" where
  "unprocessable ex = \<lparr>he_status = 422, he_detail = JStr (message ex)\<rparr>"

definition service_of :: "server_process \<Rightarrow> telemetry_service" where
  "service_of sp = \<lparr>ts_store = gw_store (sp_gateway sp), ts_replay = sp_replay sp\<rparr>"

fun handle ::
    "platform \<Rightarrow> event_io \<Rightarrow> 'w network \<Rightarrow> request \<Rightarrow> server_process \<times> etcd \<times> 'w \<Rightarrow>
     reply \<times> server_process \<times> etcd \<times> 'w" where
  "handle pl io rpc (Infer si token task) (sp, e, w) =
     (case submit_inference_task pl io rpc si token task (sp_gateway sp, e, w) of
        (r, g, e1, w1) \<Rightarrow> (Answer r, sp\<lparr>sp_gateway := g\<rparr>, e1, w1))"
| "handle pl io rpc (Post_snapshot body) (sp, e, w) =
     (case mk_NodeTelemetrySnapshot body of
        Inl ex \<Rightarrow> (Recorded (Inl (unprocessable ex)), sp, e, w)
      | Inr snapshot \<Rightarrow>
          (case record_telemetry snapshot (sp_gateway sp) of
             (r, g) \<Rightarrow> (Recorded (Inr r), sp\<lparr>sp_gateway := g\<rparr>, e, w)))"
| "handle pl io rpc Get_nodes (sp, e, w) = (Nodes (get_node_telemetry (sp_gateway sp)), sp, e, w)"
| "handle pl io rpc (Get_health now) (sp, e, w) = (Health (health_check now (sp_gateway sp)), sp, e, w)"
| "handle pl io rpc (Get_audit token task_id) (sp, e, w) =
     (Trail (get_audit_events (pl_environ pl) io token task_id (sp_gateway sp)), sp, e, w)"
| "handle pl io rpc (Post_weights token c ws) (sp, e, w) =
     (case ws of (lat, bw, cmp, queue, cost) \<Rightarrow>
       (case update_sla_weights (pl_environ pl) token c (mk_SLAWeights lat bw cmp queue cost) (sp_gateway sp) of
          (r, g) \<Rightarrow> (Set_weights r, sp\<lparr>sp_gateway := g\<rparr>, e, w)))"
| "handle pl io rpc (Register ctx rq) (sp, e, w) =
     (case RegisterNode ctx rq (gw_scheduler (sp_gateway sp), e) of
        (rp, s, e1) \<Rightarrow> (Registered rp, sp\<lparr>sp_gateway := (sp_gateway sp)\<lparr>gw_scheduler := s\<rparr>\<rparr>, e1, w))"
| "handle pl io rpc (Stream ctx items) (sp, e, w) =
     (case StreamTelemetry (pl_crypto pl) ctx items (service_of sp) of
        (r, ts) \<Rightarrow> (Streamed r,
          sp\<lparr>sp_gateway := (sp_gateway sp)\<lparr>gw_store := ts_store ts\<rparr>, sp_replay := ts_replay ts\<rparr>, e, w))"
| "handle pl io rpc (Set_engine b) (sp, e, w) =
     (No_reply, sp\<lparr>sp_gateway := (sp_gateway sp)\<lparr>gw_decision_engine_enabled := b\<rparr>\<rparr>, e, w)"

section \<open>The whole life of the process\<close>

text \<open>
  A restart finds the authoritative state and the directory \<open>.secret\<close> as the event says (the
  simulated etcd of the process itself starts empty), the audit file and the Redis store as
  they were. When the start fails the process is down until the next one.
\<close>

record 'w system =
  sy_process :: server_process
  sy_up :: bool
  sy_etcd :: etcd
  sy_world :: 'w

datatype 'w event =
  Request request
| Elsewhere etcd 'w
| Restarted server_inputs etcd secret_dir

definition sy_ledger :: "'w system \<Rightarrow> TamperEvidentLedger" where
  "sy_ledger sy = gw_ledger (sp_gateway (sy_process sy))"

fun system_step ::
    "platform \<Rightarrow> x509_lib \<Rightarrow> event_io \<Rightarrow> 'w network \<Rightarrow> 'w event \<Rightarrow> 'w system \<Rightarrow> reply \<times> 'w system" where
  "system_step pl lib io rpc (Request rq) sy =
     (if sy_up sy then
        (case handle pl io rpc rq (sy_process sy, sy_etcd sy, sy_world sy) of
           (r, sp, e, w) \<Rightarrow> (r, sy\<lparr>sy_process := sp, sy_etcd := e, sy_world := w\<rparr>))
      else (No_reply, sy))"
| "system_step pl lib io rpc (Elsewhere e w) sy = (No_reply, sy\<lparr>sy_etcd := e, sy_world := w\<rparr>)"
| "system_step pl lib io rpc (Restarted si e dir) sy =
     (case start_server pl lib (si\<lparr>sv_audit_file := lg_file (sy_ledger sy)\<rparr>) (gw_store (sp_gateway (sy_process sy))) (e, dir) of
        (Inl ex, e1, dir1) \<Rightarrow> (No_reply, sy\<lparr>sy_up := False, sy_etcd := e1\<rparr>)
      | (Inr sp, e1, dir1) \<Rightarrow> (No_reply, sy\<lparr>sy_process := sp, sy_up := True, sy_etcd := e1\<rparr>))"

fun system_run ::
    "platform \<Rightarrow> x509_lib \<Rightarrow> event_io \<Rightarrow> 'w network \<Rightarrow> 'w event list \<Rightarrow> 'w system \<Rightarrow> reply list \<times> 'w system" where
  "system_run pl lib io rpc [] sy = ([], sy)"
| "system_run pl lib io rpc (ev # evs) sy =
     (case system_step pl lib io rpc ev sy of (r, sy1) \<Rightarrow>
       (case system_run pl lib io rpc evs sy1 of (rs, sy2) \<Rightarrow> (r # rs, sy2)))"

section \<open>The invariant\<close>

text \<open>The clock readings and the numbers of a body are floats.\<close>

fun request_ok :: "request \<Rightarrow> bool" where
  "request_ok (Infer si token task) \<longleftrightarrow> is_float (si_event_time si) \<and> is_float (si_shadow_time si)"
| "request_ok (Post_weights token c (a, b, d, f, g)) \<longleftrightarrow>
     is_float a \<and> is_float b \<and> is_float d \<and> is_float f \<and> is_float g"
| "request_ok _ \<longleftrightarrow> True"

fun sys_event_ok :: "'w event \<Rightarrow> bool" where
  "sys_event_ok (Request rq) = request_ok rq"
| "sys_event_ok _ = True"

definition process_sound :: "crypto \<Rightarrow> server_process \<Rightarrow> bool" where
  "process_sound cr sp \<longleftrightarrow> store_typed (gw_store (sp_gateway sp)) \<and> engine_ok (gw_engine (sp_gateway sp)) \<and>
     ledger_ok cr (gw_ledger (sp_gateway sp)) \<and> replay_ok (sp_replay sp)"

text \<open>The shadow event of a submission.\<close>

definition shadow_events :: "submit_inputs \<Rightarrow> TaskRequest \<Rightarrow> gateway \<Rightarrow> AuditEvent list" where
  "shadow_events si task g =
     (if gw_shadow_mode_enabled g
      then (case fst (shadow_scoring si task g) of None \<Rightarrow> [] | Some d \<Rightarrow> [shadow_event si task d]) else [])"

lemma is_float_5: "is_float 5"
  using fl_of_int [of 5] by (simp add: is_float_def)

lemma audit_record_ok:
  "decision_typed d \<Longrightarrow> result_typed x \<Longrightarrow> is_float t \<Longrightarrow> event_ok (audit_record i t k d x fb n (Some 5))"
  by (auto simp: event_ok_def audit_record_def decision_typed_def result_typed_def is_float_5)

lemma shadow_event_ok: "decision_typed d \<Longrightarrow> is_float (si_shadow_time si) \<Longrightarrow> event_ok (shadow_event si task d)"
  by (auto simp: event_ok_def shadow_event_def decision_typed_def)

lemma shadow_event_shadow [simp]: "a_is_shadow_mode (shadow_event si task d)"
  by (simp add: shadow_event_def)

lemma shadow_scoring_typed:
  assumes "engine_ok (gw_engine g)" "shadow_scoring si task g = (sd, en)"
  shows "engine_ok en \<and> pred_option decision_typed sd"
proof -
  obtain d en' where "shadow_scoring si task g = (Some d, en')"
    "evaluate_placement task (get_all_snapshots (gw_store g)) None (si_score_start si) (si_score_end si) (gw_engine g) = Inr (d, en')"
    using shadow_scoring_Some by blast
  then show ?thesis using placement_typed [OF assms(1)] assms(2) by auto
qed

lemma decision_of_typed: "engine_ok (gw_engine g) \<Longrightarrow> decision_typed (decision_of si task g)"
  using shadow_scoring_typed [of g si task] static_typed
  by (cases "shadow_scoring si task g") (auto simp: decision_of_def routing_decision_def Let_def split: option.splits)

section \<open>The ledger of a history\<close>

text \<open>What appending does to the ledger does not depend on the authoritative state.\<close>

definition add_event :: "crypto \<Rightarrow> event_io \<Rightarrow> AuditEvent \<Rightarrow> TamperEvidentLedger \<Rightarrow> TamperEvidentLedger" where
  "add_event cr io ev lg = fst (snd (append_event cr io ev (lg, new_etcd)))"

lemma append_ledger: "fst (snd (append_event cr io ev (lg, e))) = add_event cr io ev lg"
  by (simp add: add_event_def append_event_def create_checkpoint_def Let_def)

lemma add_event_file:
  "file_lines (add_event cr io ev lg) = file_lines lg @ [stamped_line cr io (lg_last_hash lg) ev]"
  "lg_last_hash (add_event cr io ev lg) = stamp_hash cr io (lg_last_hash lg) ev"
  using append_event_file [of cr io ev lg new_etcd] by (simp_all add: add_event_def file_lines_def)

text \<open>The lines of a list of events appended after the hash \<open>p\<close>, and the hash after them.\<close>

fun trail_lines :: "crypto \<Rightarrow> event_io \<Rightarrow> bytes \<Rightarrow> AuditEvent list \<Rightarrow> str list" where
  "trail_lines cr io p [] = []"
| "trail_lines cr io p (ev # evs) = stamped_line cr io p ev # trail_lines cr io (stamp_hash cr io p ev) evs"

lemma file_fold: "file_lines (fold (add_event cr io) evs lg) = file_lines lg @ trail_lines cr io (lg_last_hash lg) evs"
  by (induction evs arbitrary: lg) (simp_all add: add_event_file)

lemma ledger_ok_fold:
  "event_io_ok cr io \<Longrightarrow> list_all event_ok evs \<Longrightarrow> ledger_ok cr lg \<Longrightarrow> ledger_ok cr (fold (add_event cr io) evs lg)"
  by (induction evs arbitrary: lg) (simp_all add: append_event_ok add_event_def)

text \<open>An audit event and the answer it belongs to.\<close>

definition answered_by :: "reply \<Rightarrow> AuditEvent \<Rightarrow> bool" where
  "answered_by r ev \<longleftrightarrow> r = Answer (Inr (response_envelope (a_event_id ev) (a_task_id ev) (a_decision ev)
     (a_execution ev) (a_fallback_activated ev) (a_attempts ev)))"

definition answered :: "reply \<Rightarrow> bool" where
  "answered r \<longleftrightarrow> (\<exists>resp. r = Answer (Inr resp))"

abbreviation answers :: "AuditEvent list \<Rightarrow> AuditEvent list" where
  "answers evs \<equiv> filter (\<lambda>ev. \<not> a_is_shadow_mode ev) evs"

lemma shadow_events_ok:
  assumes "pred_option decision_typed (fst (shadow_scoring si task g))" "is_float (si_shadow_time si)"
  shows "list_all event_ok (shadow_events si task g) \<and> answers (shadow_events si task g) = []"
proof (cases "fst (shadow_scoring si task g)")
  case None
  then have "shadow_events si task g = []" unfolding shadow_events_def by simp
  then show ?thesis by simp
next
  case (Some d)
  then have "shadow_events si task g = (if gw_shadow_mode_enabled g then [shadow_event si task d] else [])"
    unfolding shadow_events_def by simp
  moreover have "event_ok (shadow_event si task d)" using Some assms by (intro shadow_event_ok) simp_all
  ultimately show ?thesis by simp
qed

lemma submit_events:
  assumes fl: "floats_read (ftext (pl_crypto pl))" and ok: "engine_ok (gw_engine g)"
    and t: "is_float (si_event_time si)" "is_float (si_shadow_time si)"
    and sub: "submit_inference_task pl io rpc si token task (g, e, w) = (resp, g', e', w')"
  shows "\<exists>evs. gw_ledger g' = fold (add_event (pl_crypto pl) io) evs (gw_ledger g) \<and> list_all event_ok evs \<and>
    list_all2 answered_by (filter answered [Answer resp]) (answers evs) \<and>
    gw_store g' = gw_store g \<and> engine_ok (gw_engine g')"
proof (cases "verify_gateway_token (pl_environ pl) token")
  case (Inl err)
  then show ?thesis using sub ok
    by (intro exI [of _ "[]"]) (auto simp: submit_unauthorized answered_def)
next
  case (Inr u)
  let ?cr = "pl_crypto pl" and ?d = "decision_of si task g" and ?sh = "shadow_events si task g"
  obtain sd en where sd: "shadow_scoring si task g = (sd, en)" by fastforce
  note ty = shadow_scoring_typed [OF ok sd] decision_of_typed [OF ok, of si task]
  obtain lg1 e1 where a: "audit_shadow ?cr io si task g sd (gw_ledger g, e) = (lg1, e1)" by fastforce
  have "fst (audit_shadow ?cr io si task g sd (gw_ledger g, e)) = fold (add_event ?cr io) ?sh (gw_ledger g)"
    by (simp add: audit_shadow_def shadow_events_def sd append_ledger split: option.split)
  then have lg1: "lg1 = fold (add_event ?cr io) ?sh (gw_ledger g)" by (simp add: a)
  have sh: "list_all event_ok ?sh" "answers ?sh = []"
    using shadow_events_ok [of si task g] ty(1) t(2) by (simp_all add: sd)
  obtain r s e2 w2 where d: "dispatch pl rpc (si_dispatch si) (si_dispatch_time si) task ?d (gw_scheduler g, e1, w) = (r, s, e2, w2)"
    by (metis prod_cases4)
  note out = submit_authorized [OF Inr _ d sub, unfolded sd fst_conv snd_conv, OF a]
  show ?thesis
  proof (cases r)
    case (Inl ex)
    then show ?thesis using out sh ty(1) lg1
      by (intro exI [of _ ?sh]) (simp add: answered_def)
  next
    case (Inr p)
    obtain res fb n where p: "r = Inr (res, fb, n)" using Inr by (cases p) auto
    let ?ev = "audit_record (si_event_id si) (si_event_time si) (t_task_id task) ?d res fb (int n) (Some 5)"
    have "result_typed res" using d p dispatch_typed [OF fl] by blast
    then have ev: "event_ok ?ev" using ty(2) t(1) by (intro audit_record_ok)
    have "(gw_ledger g', e') = snd (append_event ?cr io ?ev (lg1, e2))" using out p by simp
    then have "gw_ledger g' = fst (snd (append_event ?cr io ?ev (lg1, e2)))" by (metis fst_conv)
    then have l: "gw_ledger g' = fold (add_event ?cr io) (?sh @ [?ev]) (gw_ledger g)"
      by (simp add: append_ledger lg1)
    have "answered_by (Answer resp) ?ev" "answered (Answer resp)" "\<not> a_is_shadow_mode ?ev"
      using out p by (simp_all add: answered_by_def answered_def audit_record_def)
    then show ?thesis using l ev sh ty(1) out
      by (intro exI [of _ "?sh @ [?ev]"]) simp
  qed
qed

lemma restart_ledger:
  assumes "ledger_ok cr lg" "lg1 = fst (new_TamperEvidentLedger cr (lg_file lg) n sk e)"
  shows "ledger_ok cr lg1" "file_lines lg1 = file_lines lg" "lg_last_hash lg1 = lg_last_hash lg"
proof -
  show ok: "ledger_ok cr lg1"
    unfolding assms(2) using assms(1)
    by (intro new_ledger_ok [of _ _ "lg_last_hash lg"]) (auto simp: ledger_ok_def file_lines_def split: option.splits)
  show f: "file_lines lg1 = file_lines lg"
    by (auto simp: assms(2) file_lines_def new_TamperEvidentLedger_def recover_state_def split: option.splits)
  show "lg_last_hash lg1 = lg_last_hash lg"
    using ok assms(1) chained_unique unfolding ledger_ok_def f by blast
qed

lemma replay_ok_stream: "replay_ok (ts_replay ts) \<Longrightarrow> replay_ok (ts_replay (snd (stream_loop cr items ts)))"
proof (induction cr items ts rule: stream_loop.induct)
  case (3 cr now e env items ts)
  obtain r ts1 where m: "stream_message cr now e env ts = (r, ts1)" by fastforce
  have one: "replay_ok (ts_replay ts1)"
    using stream_message_replay [OF m] 3(2) replay_ok_step by metis
  show ?case using 3(1) [OF m [symmetric]] one by (cases r) (auto simp: m)
qed simp_all

lemma new_engine_ok: "engine_ok (new_DecisionEngine policy)"
  by (simp add: engine_ok_def new_DecisionEngine_def profiles_ok_def)

lemma started_sound:
  assumes "start_server pl lib si store (e, dir) = (Inr sp, e', dir')" "store_typed store"
    and "ledger_ok (pl_crypto pl) lg" "sv_audit_file si = lg_file lg"
  shows "process_sound (pl_crypto pl) sp \<and> file_lines (gw_ledger (sp_gateway sp)) = file_lines lg \<and>
    lg_last_hash (gw_ledger (sp_gateway sp)) = lg_last_hash lg"
  using assms(1)
proof (rule start_serverE)
  fix sc
  assume g: "sp_gateway sp = create_gateway_app (pl_environ pl) (set_staleness_threshold_ms 3000 store)
       (new_DecisionEngine (sv_policy si)) sc
       (fst (new_TamperEvidentLedger (pl_crypto pl) (sv_audit_file si) 10 (sv_audit_key si) e))"
    and r: "sp_replay sp = new_replay_state 5"
  have "store_typed (set_staleness_threshold_ms 3000 store)"
    using assms(2) by (simp add: store_typed_def store_ok_def set_staleness_threshold_ms_def get_all_snapshots_def)
  then show ?thesis
    using restart_ledger [OF assms(3) HOL.refl, of 10 "sv_audit_key si" e]
    by (simp add: process_sound_def g r create_gateway_app_def assms(4) new_engine_ok replay_ok_new)
qed

lemma handle_sound:
  assumes "event_io_ok (pl_crypto pl) io" "floats_read (ftext (pl_crypto pl))" "process_sound (pl_crypto pl) sp" "request_ok rq"
    and "handle pl io rpc rq (sp, e, w) = (r, sp', e', w')"
  shows "process_sound (pl_crypto pl) sp' \<and>
    (\<exists>evs. gw_ledger (sp_gateway sp') = fold (add_event (pl_crypto pl) io) evs (gw_ledger (sp_gateway sp)) \<and>
       list_all2 answered_by (filter answered [r]) (answers evs))"
proof (cases rq)
  case (Infer si token task)
  obtain resp g' where sub: "submit_inference_task pl io rpc si token task (sp_gateway sp, e, w) = (resp, g', e', w')"
    and r: "r = Answer resp" "sp' = sp\<lparr>sp_gateway := g'\<rparr>"
    using assms(5) by (auto simp: Infer split: prod.splits)
  have t: "engine_ok (gw_engine (sp_gateway sp))" "is_float (si_event_time si)" "is_float (si_shadow_time si)"
    using assms(3,4) by (simp_all add: process_sound_def Infer)
  from submit_events [OF assms(2) t sub] obtain evs where
    "gw_ledger g' = fold (add_event (pl_crypto pl) io) evs (gw_ledger (sp_gateway sp))" "list_all event_ok evs"
    "list_all2 answered_by (filter answered [Answer resp]) (answers evs)" "gw_store g' = gw_store (sp_gateway sp)"
    "engine_ok (gw_engine g')"
    by blast
  then show ?thesis using assms(3) ledger_ok_fold [OF assms(1), of evs "gw_ledger (sp_gateway sp)"]
    by (auto simp: process_sound_def r)
next
  case (Post_snapshot body)
  then show ?thesis using assms(3,5)
    by (intro conjI exI [of _ "[]"])
      (auto simp: process_sound_def record_telemetry_def answered_def mk_NodeTelemetrySnapshot_def store_typed_record
        split: sum.splits prod.splits if_splits)
next
  case (Post_weights token c ws)
  obtain lat bw cmp queue cost where ws: "ws = (lat, bw, cmp, queue, cost)" by (metis prod_cases5)
  have "weights_ok wt" if "mk_SLAWeights lat bw cmp queue cost = Inr wt" for wt
    using mk_SLAWeights_ok [OF that] assms(4) by (simp add: Post_weights ws)
  then have "process_sound (pl_crypto pl) sp' \<and> gw_ledger (sp_gateway sp') = gw_ledger (sp_gateway sp) \<and> \<not> answered r"
    using assms(3,5)
    by (auto simp: Post_weights ws process_sound_def update_sla_weights_def answered_def engine_ok_def update_sla_profiles_def
        intro!: profiles_ok_dupdate split: prod.splits sum.splits) (simp_all add: profiles_ok_def)
  then show ?thesis by (intro conjI exI [of _ "[]"]) simp_all
next
  case (Register ctx rq')
  then show ?thesis using assms(3,5)
    by (intro conjI exI [of _ "[]"]) (auto simp: process_sound_def answered_def split: prod.splits)
next
  case (Stream ctx items)
  obtain x ts where ts: "StreamTelemetry (pl_crypto pl) ctx items (service_of sp) = (x, ts)" by fastforce
  have "store_typed (ts_store ts) \<and> replay_ok (ts_replay ts)"
    using ts assms(3) store_typed_stream [of "service_of sp" "pl_crypto pl" items] replay_ok_stream [of "service_of sp" "pl_crypto pl" items]
    by (auto simp: StreamTelemetry_def process_sound_def service_of_def split: if_splits prod.splits sum.splits)
  then show ?thesis using assms(3,5)
    by (intro conjI exI [of _ "[]"]) (auto simp: Stream ts process_sound_def answered_def)
qed (use assms(3,5) in \<open>auto simp: process_sound_def answered_def intro: exI [of _ "[]"]\<close>)

text \<open>A step adds the lines of some events, one for each answer among them.\<close>

definition trail_hash :: "crypto \<Rightarrow> event_io \<Rightarrow> bytes \<Rightarrow> AuditEvent list \<Rightarrow> bytes" where
  "trail_hash cr io p evs = fold (\<lambda>ev q. stamp_hash cr io q ev) evs p"

lemma last_hash_fold: "lg_last_hash (fold (add_event cr io) evs lg) = trail_hash cr io (lg_last_hash lg) evs"
  unfolding trail_hash_def by (induction evs arbitrary: lg) (simp_all add: add_event_file)

lemma trail_lines_append:
  "trail_lines cr io p (xs @ ys) = trail_lines cr io p xs @ trail_lines cr io (trail_hash cr io p xs) ys"
  by (induction xs arbitrary: p) (simp_all add: trail_hash_def)

definition ledger_trail :: "crypto \<Rightarrow> event_io \<Rightarrow> AuditEvent list \<Rightarrow> TamperEvidentLedger \<Rightarrow> TamperEvidentLedger \<Rightarrow> bool" where
  "ledger_trail cr io evs lg lg' \<longleftrightarrow>
     file_lines lg' = file_lines lg @ trail_lines cr io (lg_last_hash lg) evs \<and>
     lg_last_hash lg' = trail_hash cr io (lg_last_hash lg) evs"

lemma ledger_trail_Nil: "ledger_trail cr io [] lg lg' \<longleftrightarrow> file_lines lg' = file_lines lg \<and> lg_last_hash lg' = lg_last_hash lg"
  by (simp add: ledger_trail_def trail_hash_def)

lemma ledger_trail_append:
  "ledger_trail cr io xs lg lg1 \<Longrightarrow> ledger_trail cr io ys lg1 lg2 \<Longrightarrow> ledger_trail cr io (xs @ ys) lg lg2"
  by (simp add: ledger_trail_def trail_lines_append) (simp add: trail_hash_def)

lemma step_sound:
  assumes "event_io_ok (pl_crypto pl) io" "floats_read (ftext (pl_crypto pl))" "process_sound (pl_crypto pl) (sy_process sy)"
    and "sys_event_ok ev" "system_step pl lib io rpc ev sy = (r, sy')"
  shows "process_sound (pl_crypto pl) (sy_process sy') \<and>
    (\<exists>evs. ledger_trail (pl_crypto pl) io evs (sy_ledger sy) (sy_ledger sy') \<and>
       list_all2 answered_by (filter answered [r]) (answers evs))"
proof (cases ev)
  case (Request rq)
  show ?thesis
  proof (cases "sy_up sy")
    case True
    then obtain sp e w where h: "handle pl io rpc rq (sy_process sy, sy_etcd sy, sy_world sy) = (r, sp, e, w)"
      "sy' = sy\<lparr>sy_process := sp, sy_etcd := e, sy_world := w\<rparr>"
      using assms(5) by (auto simp: Request split: prod.splits)
    have "request_ok rq" using assms(4) by (simp add: Request)
    from handle_sound [OF assms(1-3) this h(1)] show ?thesis
      by (auto simp: h(2) sy_ledger_def ledger_trail_def file_fold last_hash_fold)
  next
    case False
    then show ?thesis using assms(3,5)
      by (intro conjI exI [of _ "[]"]) (auto simp: Request answered_def ledger_trail_Nil)
  qed
next
  case (Elsewhere e w)
  then show ?thesis using assms(3,5)
    by (intro conjI exI [of _ "[]"]) (auto simp: answered_def ledger_trail_Nil sy_ledger_def)
next
  case (Restarted si e dir)
  let ?si = "si\<lparr>sv_audit_file := lg_file (sy_ledger sy)\<rparr>" and ?store = "gw_store (sp_gateway (sy_process sy))"
  obtain x e1 dir1 where x: "start_server pl lib ?si ?store (e, dir) = (x, e1, dir1)" by (metis prod_cases3)
  show ?thesis
  proof (cases x)
    case (Inl ex)
    then show ?thesis using assms(3,5) x
      by (intro conjI exI [of _ "[]"]) (auto simp: Restarted answered_def ledger_trail_Nil sy_ledger_def)
  next
    case (Inr sp)
    have "store_typed ?store" "ledger_ok (pl_crypto pl) (sy_ledger sy)"
      using assms(3) by (simp_all add: process_sound_def sy_ledger_def)
    from started_sound [OF x [unfolded Inr] this] have
      "process_sound (pl_crypto pl) sp" "ledger_trail (pl_crypto pl) io [] (sy_ledger sy) (gw_ledger (sp_gateway sp))"
      by (simp_all add: ledger_trail_Nil)
    moreover have "sy_process sy' = sp" "r = No_reply" using assms(5) x Inr by (auto simp: Restarted)
    ultimately show ?thesis by (intro conjI exI [of _ "[]"]) (simp_all add: answered_def sy_ledger_def)
  qed
qed

lemma run_sound:
  assumes "event_io_ok (pl_crypto pl) io" "floats_read (ftext (pl_crypto pl))"
    and "process_sound (pl_crypto pl) (sy_process sy)" "list_all sys_event_ok evs"
    and "system_run pl lib io rpc evs sy = (rs, sy')"
  shows "process_sound (pl_crypto pl) (sy_process sy') \<and>
    (\<exists>audit. ledger_trail (pl_crypto pl) io audit (sy_ledger sy) (sy_ledger sy') \<and>
       list_all2 answered_by (filter answered rs) (answers audit))"
  using assms(3-5)
proof (induction evs arbitrary: sy rs)
  case Nil
  then show ?case by (intro conjI exI [of _ "[]"]) (simp_all add: ledger_trail_Nil)
next
  case (Cons ev evs)
  obtain r sy1 where s: "system_step pl lib io rpc ev sy = (r, sy1)" by fastforce
  obtain rs1 where rs: "system_run pl lib io rpc evs sy1 = (rs1, sy')" "rs = r # rs1"
    using Cons.prems(3) by (auto simp: s split: prod.splits)
  have ok: "sys_event_ok ev" "list_all sys_event_ok evs" using Cons.prems(2) by simp_all
  from step_sound [OF assms(1,2) Cons.prems(1) ok(1) s] obtain xs where
    one: "process_sound (pl_crypto pl) (sy_process sy1)" "ledger_trail (pl_crypto pl) io xs (sy_ledger sy) (sy_ledger sy1)"
      "list_all2 answered_by (filter answered [r]) (answers xs)" by blast
  from Cons.IH [OF one(1) ok(2) rs(1)] obtain ys where
    two: "process_sound (pl_crypto pl) (sy_process sy')" "ledger_trail (pl_crypto pl) io ys (sy_ledger sy1) (sy_ledger sy')"
      "list_all2 answered_by (filter answered rs1) (answers ys)" by blast
  have "list_all2 answered_by (filter answered rs) (answers (xs @ ys))"
    using list_all2_appendI [OF one(3) two(3)] by (simp add: rs(2) split: if_splits)
  then show ?case using two(1) ledger_trail_append [OF one(2) two(2)] by blast
qed

text \<open>Only submissions are answered.\<close>

definition submission :: "'w event \<Rightarrow> bool" where
  "submission ev \<longleftrightarrow> (case ev of Request (Infer si token task) \<Rightarrow> True | _ \<Rightarrow> False)"

lemma step_unanswered: "system_step pl lib io rpc ev sy = (r, sy') \<Longrightarrow> \<not> submission ev \<Longrightarrow> \<not> answered r"
proof (cases ev)
  case (Request rq)
  assume "system_step pl lib io rpc ev sy = (r, sy')" "\<not> submission ev"
  then show ?thesis
    by (cases rq) (auto simp: Request submission_def answered_def split: if_splits prod.splits sum.splits)
qed (auto simp: answered_def split: prod.splits sum.splits)

lemma run_unanswered:
  "system_run pl lib io rpc evs sy = (rs, sy') \<Longrightarrow> list_all (Not \<circ> submission) evs \<Longrightarrow> filter answered rs = []"
proof (induction evs arbitrary: sy rs)
  case (Cons ev evs)
  then show ?case by (auto dest: step_unanswered split: prod.splits)
qed simp

section \<open>Sample values\<close>

definition sample_process :: server_process where
  "sample_process = \<lparr>sp_gateway = sample_gateway, sp_replay = new_replay_state 5,
     sp_grpc = \<lparr>gs_address = ''[::]:50050'', gs_services = [], gs_credentials = None\<rparr>\<rparr>"

definition sample_system :: "unit system" where
  "sample_system = \<lparr>sy_process = sample_process, sy_up = True, sy_etcd = sample_scheduler_etcd, sy_world = ()\<rparr>"

definition sample_start :: server_inputs where
  "sample_start = \<lparr>sv_policy = static_policy sample_engine, sv_audit_file = None, sv_audit_key = [2], sv_scheduler_key = [5],
     sv_scheduler_pq_key = [], sv_grant_time = 0, sv_check_time = 0, sv_ca = sample_draws 2, sv_svid = sample_draws 3\<rparr>"

text \<open>A submission, a bad snapshot, a set of weights that does not sum to one, and a restart.\<close>

definition sample_history :: "unit event list" where
  "sample_history = [Request (Infer sample_submit ''secret'' sample_eu_task),
     Request (Post_snapshot ((sample_node ''edge-2'' 10)\<lparr>s_cpu_util_pct := 200\<rparr>)),
     Request (Post_weights ''secret'' BATCH (1, 1, 0, 0, 0)),
     Restarted sample_start new_etcd (sample_dir 1)]"

lemma sample_process_sound: "process_sound toy_crypto (sy_process sample_system)"
proof -
  have "store_typed (new_TelemetryStore 3000)"
    by (simp add: store_typed_def) (simp add: new_TelemetryStore_def get_all_snapshots_def dvalues_def)
  moreover have "fl (1 / 1000) \<le> 100" by code_simp
  then have "valid_NodeTelemetrySnapshot (sample_node ''edge-1'' 10)"
    by (simp add: sample_node_def valid_NodeTelemetrySnapshot_def)
  ultimately have "store_typed (gw_store sample_gateway)"
    unfolding sample_gateway_def by (simp add: store_typed_record)
  moreover have "ledger_ok toy_crypto (gw_ledger sample_gateway)"
    using new_ledger_empty [of toy_crypto 10 "[1]" new_etcd] by (simp add: sample_gateway_def)
  moreover have "engine_ok (gw_engine sample_gateway)" using engine_ok_sample by (simp add: sample_gateway_def)
  ultimately show ?thesis by (simp add: process_sound_def sample_system_def sample_process_def replay_ok_new)
qed

lemma sample_history_ok: "\<forall>ev\<in>set sample_history. sys_event_ok ev"
  by (simp add: sample_history_def sample_submit_def)

lemma toy_floats: "event_io_ok (pl_crypto gateway_platform) toy_io" "floats_read (ftext (pl_crypto gateway_platform))"
  using toy_io_ok(2) floats_read_fraction by (simp_all add: gateway_platform_facts)

section \<open>Properties\<close>

text \<open>
  C14: the gateway stays sound whatever happens. Over any history of requests, restarts and
  changes elsewhere, with nodes that may answer anything, the telemetry store has one valid
  snapshot per node, every weight profile of the engine satisfies the rules of weights, the
  replay memory is within its bounds and the audit file passes the independent verifier.
\<close>

theorem gateway_stays_sound:
  assumes "event_io_ok (pl_crypto pl) io" "floats_read (ftext (pl_crypto pl))"
    and "process_sound (pl_crypto pl) (sy_process sy)" "\<forall>ev\<in>set evs. sys_event_ok ev"
  shows "(let sy' = snd (system_run pl lib io rpc evs sy); g = sp_gateway (sy_process sy') in
    store_typed (gw_store g) \<and> (\<forall>t. weights_ok (en_weights (gw_engine g) t)) \<and> replay_ok (sp_replay (sy_process sy')) \<and>
    verify_ledger (pl_crypto pl) (Some (file_lines (sy_ledger sy'))) = Inr True)"
proof -
  obtain rs sy' where r: "system_run pl lib io rpc evs sy = (rs, sy')" by fastforce
  have "list_all sys_event_ok evs" using assms(4) by (simp add: list_all_iff)
  from run_sound [OF assms(1-3) this r] show ?thesis
    by (simp add: r process_sound_def sy_ledger_def engine_weights_ok ledger_okD)
qed

theorem gateway_stays_sound_witness:
  "verify_ledger toy_crypto (Some (file_lines (sy_ledger (snd (system_run gateway_platform toy_x509 toy_io answering_network
     sample_history sample_system))))) = Inr True"
proof -
  have "process_sound (pl_crypto gateway_platform) (sy_process sample_system)"
    using sample_process_sound by (simp add: gateway_platform_facts)
  from gateway_stays_sound [OF toy_floats this sample_history_ok] show ?thesis
    by (simp add: gateway_platform_facts Let_def)
qed

text \<open>
  C13: the audit ledger is the list of the answers. Over any history, across restarts, the
  lines added to the ledger are those of a sequence of events, each chained to the one
  before, whose events other than the shadow ones are exactly those of the answered
  submissions, in the order of the answers: every answer is the envelope of its event, and no
  event is without an answer.
\<close>

theorem every_answer_audited:
  assumes "event_io_ok (pl_crypto pl) io" "floats_read (ftext (pl_crypto pl))"
    and "process_sound (pl_crypto pl) (sy_process sy)" "\<forall>ev\<in>set evs. sys_event_ok ev"
    and "system_run pl lib io rpc evs sy = (rs, sy')"
  shows "\<exists>audit. file_lines (sy_ledger sy') = file_lines (sy_ledger sy) @
      trail_lines (pl_crypto pl) io (lg_last_hash (sy_ledger sy)) audit \<and>
    list_all2 answered_by (filter answered rs) (answers audit)"
proof -
  have "list_all sys_event_ok evs" using assms(4) by (simp add: list_all_iff)
  from run_sound [OF assms(1-3) this assms(5)] show ?thesis unfolding ledger_trail_def by blast
qed

theorem every_answer_audited_witness:
  "\<exists>audit rs sy'. system_run gateway_platform toy_x509 toy_io answering_network sample_history sample_system = (rs, sy') \<and>
     file_lines (sy_ledger sy') = trail_lines toy_crypto toy_io [] audit \<and> length (answers audit) = 1"
proof -
  have sound: "process_sound (pl_crypto gateway_platform) (sy_process sample_system)"
    using sample_process_sound by (simp add: gateway_platform_facts)
  obtain rs sy' where run: "system_run gateway_platform toy_x509 toy_io answering_network sample_history sample_system = (rs, sy')"
    by fastforce
  have empty: "file_lines (sy_ledger sample_system) = []" "lg_last_hash (sy_ledger sample_system) = []"
    by (simp_all add: sy_ledger_def sample_system_def sample_process_def sample_gateway_def new_TamperEvidentLedger_def
        recover_state_def file_lines_def)
  obtain r sy1 where one: "system_step gateway_platform toy_x509 toy_io answering_network
      (Request (Infer sample_submit ''secret'' sample_eu_task)) sample_system = (r, sy1)" by fastforce
  obtain rs1 where rs: "rs = r # rs1"
    "system_run gateway_platform toy_x509 toy_io answering_network (tl sample_history) sy1 = (rs1, sy')"
    using run one by (simp add: sample_history_def del: system_step.simps handle.simps split: prod.splits)
  have "answered r"
    using one sample_submission by (auto simp: sample_system_def sample_process_def answered_def)
  moreover have "filter answered rs1 = []"
    by (rule run_unanswered [OF rs(2)]) (simp add: sample_history_def submission_def)
  ultimately have "length (filter answered rs) = 1" by (simp add: rs(1))
  then show ?thesis
    using every_answer_audited [OF toy_floats sound sample_history_ok run] run
    by (auto simp: empty gateway_platform_facts dest!: list_all2_lengthD)
qed

end
