(* ===== verification/SnapshotStore.thy ===== *)
theory SnapshotStore
  imports Gateway
begin

text \<open>
  Every way into the telemetry store (\<open>telemetry/store.py\<close>): the streams of
  \<open>gateway/grpc_server.py\<close>, the unauthenticated write of \<open>gateway/app.py\<close>
  (\<open>POST /v1/telemetry/snapshot\<close>), the snapshots that \<open>common/cluster.py\<close> records at the start,
  and the operations of the store that add nothing. The state is the gateway, which holds the
  store, and the replay state of the streams.
\<close>

datatype store_event =
  Streamed auth_context "stream_item list"
| Posted NodeTelemetrySnapshot
| Emitted "pyfloat option" pyfloat SimulatedNode
| Ages_updated pyfloat
| Cleared
| Threshold_set pyfloat

text \<open>FastAPI validates the body of the write and answers 422 when it is not a snapshot.\<close>

fun store_change :: "crypto \<Rightarrow> store_event \<Rightarrow> gateway \<times> replay_state \<Rightarrow> gateway \<times> replay_state" where
  "store_change cr (Streamed ctx items) (g, rs) =
     (case StreamTelemetry cr ctx items \<lparr>ts_store = gw_store g, ts_replay = rs\<rparr> of
        (_, ts) \<Rightarrow> (g\<lparr>gw_store := ts_store ts\<rparr>, ts_replay ts))"
| "store_change cr (Posted body) (g, rs) =
     (case mk_NodeTelemetrySnapshot body of Inl _ \<Rightarrow> (g, rs) | Inr s \<Rightarrow> (snd (record_telemetry s g), rs))"
| "store_change cr (Emitted rtt now node) (g, rs) =
     (case emit_snapshot rtt now node of
        Inl _ \<Rightarrow> (g, rs)
      | Inr s \<Rightarrow> (g\<lparr>gw_store := record_snapshot s (gw_store g)\<rparr>, rs))"
| "store_change cr (Ages_updated now) (g, rs) = (g\<lparr>gw_store := update_heartbeat_age now (gw_store g)\<rparr>, rs)"
| "store_change cr Cleared (g, rs) = (g\<lparr>gw_store := clear_store (gw_store g)\<rparr>, rs)"
| "store_change cr (Threshold_set v) (g, rs) = (g\<lparr>gw_store := set_staleness_threshold_ms v (gw_store g)\<rparr>, rs)"

abbreviation store_history :: "crypto \<Rightarrow> store_event list \<Rightarrow> gateway \<times> replay_state \<Rightarrow> gateway \<times> replay_state" where
  "store_history cr \<equiv> fold (store_change cr)"

text \<open>The snapshots an event may bring in: signed ones of an authenticated stream, and what passed validation.\<close>

fun brings :: "crypto \<Rightarrow> store_event \<Rightarrow> NodeTelemetrySnapshot \<Rightarrow> bool" where
  "brings cr (Streamed ctx items) s \<longleftrightarrow> authenticate_node ctx \<and> recorded_from cr items s"
| "brings cr (Posted body) s \<longleftrightarrow> mk_NodeTelemetrySnapshot body = Inr s"
| "brings cr (Emitted rtt now node) s \<longleftrightarrow> emit_snapshot rtt now node = Inr s"
| "brings cr _ s \<longleftrightarrow> False"

definition same_but_age :: "NodeTelemetrySnapshot \<Rightarrow> NodeTelemetrySnapshot \<Rightarrow> bool" where
  "same_but_age s s0 \<longleftrightarrow> s\<lparr>s_last_heartbeat_age_ms := 0\<rparr> = s0\<lparr>s_last_heartbeat_age_ms := 0\<rparr>"

lemma same_but_age_refl [simp]: "same_but_age s s"
  by (simp add: same_but_age_def)

lemma same_but_age_aged [simp]: "same_but_age (aged now s) s0 = same_but_age s s0"
  by (simp add: same_but_age_def aged_def Let_def)

lemma kept_same: "s \<in> X \<Longrightarrow> \<exists>s0\<in>X. same_but_age s s0"
  by (intro bexI [of _ s]) simp_all

lemma brings_valid: "brings cr ev s \<Longrightarrow> valid_NodeTelemetrySnapshot s"
  using telemetry_snapshot_fixed
  by (cases ev) (auto simp: recorded_from_def mk_NodeTelemetrySnapshot_def emit_snapshot_def split: if_splits)

abbreviation held :: "gateway \<times> replay_state \<Rightarrow> NodeTelemetrySnapshot set" where
  "held st \<equiv> set (get_all_snapshots (gw_store (fst st)))"

lemma store_ok_threshold: "store_ok (set_staleness_threshold_ms v st) = store_ok st"
  by (simp add: store_ok_def set_staleness_threshold_ms_def)

text \<open>One event: what the store holds afterwards was there (and the store was not cleared) or came in.\<close>

lemma store_change_held:
  assumes "store_ok (gw_store (fst st))"
  shows "store_ok (gw_store (fst (store_change cr ev st)))"
    and "s \<in> held (store_change cr ev st) \<Longrightarrow> brings cr ev s \<or> ev \<noteq> Cleared \<and> (\<exists>s0\<in>held st. same_but_age s s0)"
proof -
  obtain g rs where st: "st = (g, rs)" by (cases st)
  let ?ts = "\<lparr>ts_store = gw_store g, ts_replay = rs\<rparr>"
  have ok: "store_ok (gw_store g)" using assms by (simp add: st)
  note stream = stream_loop_snapshots [of ?ts cr]
  have kept: "store_ok (ts_store (snd (StreamTelemetry cr ctx items ?ts)))" for ctx items
    using stream [of items] ok by (auto simp: StreamTelemetry_def split: prod.split sum.split)
  show "store_ok (gw_store (fst (store_change cr ev st)))"
  proof (cases ev)
    case (Streamed ctx items)
    then show ?thesis using kept [of ctx items] by (auto simp: st split: prod.split)
  qed (use ok in \<open>auto simp: st record_telemetry_def store_ok_threshold store_ok_aged split: sum.split\<close>)
  show "brings cr ev s \<or> ev \<noteq> Cleared \<and> (\<exists>s0\<in>held st. same_but_age s s0)"
    if s: "s \<in> held (store_change cr ev st)"
  proof (cases ev)
    case (Streamed ctx items)
    then have "s \<in> set (get_all_snapshots (ts_store (snd (StreamTelemetry cr ctx items ?ts))))"
      using that by (simp add: st split: prod.splits)
    then have "s \<in> set (get_all_snapshots (gw_store g)) \<or> authenticate_node ctx \<and> recorded_from cr items s"
      using StreamTelemetry_snapshots [of ?ts s cr ctx items] ok by simp
    then show ?thesis using Streamed by (auto simp: st intro: bexI [of _ s])
  next
    case (Posted body)
    then show ?thesis using that by (auto simp: st record_telemetry_def kept_same split: sum.splits dest!: get_all_record [OF ok])
  next
    case (Emitted rtt now node)
    then show ?thesis using that by (auto simp: st kept_same split: sum.splits dest!: get_all_record [OF ok])
  next
    case (Ages_updated now)
    then obtain p where "p \<in> set (snapshots (gw_store g))" "s = aged now (snd p)"
      using s by (auto simp: st update_heartbeat_age_def get_all_snapshots_def dvalues_def)
    then show ?thesis
      by (auto simp: st Ages_updated get_all_snapshots_def dvalues_def intro!: bexI [of _ p])
  next
    case Cleared
    then show ?thesis using that by (simp add: st clear_store_def get_all_snapshots_def dvalues_def)
  next
    case (Threshold_set v)
    then show ?thesis using that
      by (auto simp: st set_staleness_threshold_ms_def get_all_snapshots_def intro: bexI [of _ s])
  qed
qed

lemma store_history_ok:
  "store_ok (gw_store (fst st)) \<Longrightarrow> store_ok (gw_store (fst (store_history cr evs st)))"
  by (induction evs arbitrary: st) (simp_all add: store_change_held(1))

lemma store_change_typed:
  assumes "store_typed (gw_store (fst st))"
  shows "store_typed (gw_store (fst (store_change cr ev st)))"
proof -
  obtain g rs where st: "st = (g, rs)" by (cases st)
  let ?ts = "\<lparr>ts_store = gw_store g, ts_replay = rs\<rparr>"
  have t: "store_typed (gw_store g)" using assms by (simp add: st)
  have stream: "store_typed (ts_store (snd (StreamTelemetry cr ctx items ?ts)))" for ctx items
    using t store_typed_stream [of ?ts cr items] by (auto simp: StreamTelemetry_def split: prod.split sum.split)
  show ?thesis
  proof (cases ev)
    case (Streamed ctx items)
    then show ?thesis using stream [of ctx items] by (auto simp: st split: prod.split)
  next
    case (Posted body)
    then show ?thesis using t store_typed_record [OF t] brings_valid [of cr ev]
      by (auto simp: st record_telemetry_def split: sum.split)
  next
    case (Emitted rtt now node)
    then show ?thesis using t store_typed_record [OF t] brings_valid [of cr ev]
      by (auto simp: st split: sum.split)
  next
    case (Ages_updated now)
    then show ?thesis using store_typed_aged [OF t] by (simp add: st)
  next
    case Cleared
    then show ?thesis by (simp add: st store_typed_def) (simp add: clear_store_def get_all_snapshots_def dvalues_def)
  next
    case (Threshold_set v)
    then show ?thesis using t
      by (simp add: st store_typed_def store_ok_def set_staleness_threshold_ms_def get_all_snapshots_def)
  qed
qed

text \<open>Where a snapshot that is held comes from: the last clearing forgets what was there before.\<close>

lemma store_history_held:
  "store_ok (gw_store (fst st)) \<Longrightarrow> s \<in> held (store_history cr evs st) \<Longrightarrow>
   \<exists>s0. same_but_age s s0 \<and>
     (s0 \<in> held st \<and> Cleared \<notin> set evs \<or> (\<exists>before ev after. evs = before @ ev # after \<and> Cleared \<notin> set after \<and> brings cr ev s0))"
proof (induction evs arbitrary: s rule: rev_induct)
  case Nil
  then show ?case by (auto intro: exI [of _ s])
next
  case (snoc ev evs)
  have "brings cr ev s \<or> ev \<noteq> Cleared \<and> (\<exists>s1\<in>held (store_history cr evs st). same_but_age s s1)"
    using store_change_held(2) [OF store_history_ok [OF snoc.prems(1)], of s cr ev cr evs] snoc.prems(2) by simp
  then show ?case
  proof (elim disjE conjE bexE)
    assume "brings cr ev s"
    then show ?thesis
      by (intro exI [of _ s] conjI disjI2 exI [of _ evs] exI [of _ ev] exI [of _ "[]"]) simp_all
  next
    fix s1
    assume ev: "ev \<noteq> Cleared" and s1: "s1 \<in> held (store_history cr evs st)" and s: "same_but_age s s1"
    obtain s0 where s0: "same_but_age s1 s0" and o: "s0 \<in> held st \<and> Cleared \<notin> set evs \<or>
        (\<exists>before e after. evs = before @ e # after \<and> Cleared \<notin> set after \<and> brings cr e s0)"
      using snoc.IH [OF snoc.prems(1) s1] by blast
    have "same_but_age s s0" using s s0 by (simp add: same_but_age_def)
    moreover from o have "s0 \<in> held st \<and> Cleared \<notin> set (evs @ [ev]) \<or>
        (\<exists>before e after. evs @ [ev] = before @ e # after \<and> Cleared \<notin> set after \<and> brings cr e s0)"
    proof (elim disjE exE conjE)
      fix before e after
      assume "evs = before @ e # after" "Cleared \<notin> set after" "brings cr e s0"
      then show ?thesis using ev by (intro disjI2 exI [of _ before] exI [of _ e] exI [of _ "after @ [ev]"]) simp
    qed (use ev in simp)
    ultimately show ?thesis by blast
  qed
qed

section \<open>The property\<close>

text \<open>
  C29: the store stays well-typed. From a store that holds one valid snapshot per node, no
  sequence of operations leads to one that does not: telemetry streams (authenticated or not,
  however they end), writes of any body to the unauthenticated endpoint, recording what a node
  emits, ageing, clearing and new thresholds, in any order. And nothing else gets in: what the
  store holds is, apart from its heartbeat age, a snapshot that was there at the start, or one
  that came after the last clearing, in a signed message of an authenticated stream, as a body
  that passed validation or from a node.
\<close>

theorem stored_snapshots_typed:
  assumes "store_typed (gw_store g)" and "(g', rs') = store_history cr evs (g, rs)"
  shows "store_typed (gw_store g') \<and>
    (\<forall>s\<in>set (get_all_snapshots (gw_store g')). \<exists>s0. same_but_age s s0 \<and>
       (s0 \<in> set (get_all_snapshots (gw_store g)) \<and> Cleared \<notin> set evs \<or>
        (\<exists>before ev after. evs = before @ ev # after \<and> Cleared \<notin> set after \<and> brings cr ev s0)))"
proof (intro conjI ballI)
  have "store_typed (gw_store (fst (store_history cr evs (g, rs))))"
    using assms(1) by (induction evs rule: rev_induct) (simp_all add: store_change_typed)
  then show "store_typed (gw_store g')" by (metis assms(2) fst_conv)
next
  fix s
  assume "s \<in> set (get_all_snapshots (gw_store g'))"
  then have "s \<in> held (store_history cr evs (g, rs))" by (metis assms(2) fst_conv)
  moreover have "store_ok (gw_store (fst (g, rs)))" using assms(1) by (simp add: store_typed_def)
  ultimately show "\<exists>s0. same_but_age s s0 \<and> (s0 \<in> set (get_all_snapshots (gw_store g)) \<and> Cleared \<notin> set evs \<or>
      (\<exists>before ev after. evs = before @ ev # after \<and> Cleared \<notin> set after \<and> brings cr ev s0))"
    using store_history_held [of "(g, rs)" s cr evs] by simp
qed

text \<open>A snapshot of the start is cleared, a bad body is refused, a good one is stored and aged.\<close>

theorem stored_snapshots_typed_witness:
  "\<exists>g'. fst (store_history toy_crypto [Cleared, Posted ((sample_node ''edge-2'' 10)\<lparr>s_cpu_util_pct := 200\<rparr>),
       Posted (sample_node ''edge-3'' 10), Ages_updated 5] (sample_gateway, new_replay_state 0)) = g' \<and>
     store_typed (gw_store g') \<and> length (get_all_snapshots (gw_store g')) = 1"
proof -
  let ?evs = "[Cleared, Posted ((sample_node ''edge-2'' 10)\<lparr>s_cpu_util_pct := 200\<rparr>),
       Posted (sample_node ''edge-3'' 10), Ages_updated 5]"
  have valid: "valid_NodeTelemetrySnapshot (sample_node n 10)" for n
    using fl_mono [of "1 / 1000" 1] by (simp add: valid_NodeTelemetrySnapshot_def sample_node_def)
  have "store_typed (new_TelemetryStore 3000)"
    by (simp add: store_typed_def) (simp add: new_TelemetryStore_def get_all_snapshots_def dvalues_def)
  then have "store_typed (gw_store sample_gateway)"
    using store_typed_record [OF _ valid] by (simp add: sample_gateway_def)
  moreover obtain g' rs' where run: "(g', rs') = store_history toy_crypto ?evs (sample_gateway, new_replay_state 0)"
    by (metis surj_pair)
  ultimately have "store_typed (gw_store g')" using stored_snapshots_typed by blast
  moreover have "\<not> valid_NodeTelemetrySnapshot ((sample_node ''edge-2'' 10)\<lparr>s_cpu_util_pct := 200\<rparr>)"
    by (simp add: valid_NodeTelemetrySnapshot_def)
  then have "length (get_all_snapshots (gw_store g')) = 1"
    using run valid [of "''edge-3''"]
    by (simp add: mk_NodeTelemetrySnapshot_def record_telemetry_def clear_store_def record_snapshot_def
        update_heartbeat_age_def get_all_snapshots_def dvalues_def)
  ultimately show ?thesis using run by (metis fst_conv)
qed

end
