(* ===== verification/PostQuantum.thy ===== *)
theory PostQuantum
  imports ControlPlane
begin

text \<open>
  The post-quantum signatures: the provider of \<open>common/crypto.py\<close> and what the policy
  \<open>dual_required\<close> makes of its signatures at the node (\<open>node_agent/grpc_server.py\<close>), the scheduler
  (\<open>scheduler/dispatcher.py\<close>) and the control plane (\<open>gateway/grpc_server.py\<close>).

  The library \<open>oqs\<close> is the record \<open>oqs_lib\<close>; its documented law \<open>oqs_ok\<close> is that a signature
  verifies under the public key generated with its secret key. The keys are drawn from a seed.
\<close>

section \<open>The provider\<close>

record oqs_lib =
  oq_public :: "str \<Rightarrow> bytes \<Rightarrow> bytes"
  oq_secret :: "str \<Rightarrow> bytes \<Rightarrow> bytes"
  oq_sign :: "str \<Rightarrow> bytes \<Rightarrow> bytes \<Rightarrow> bytes"
  oq_verify :: "str \<Rightarrow> bytes \<Rightarrow> bytes \<Rightarrow> bytes \<Rightarrow> bool"

definition oqs_ok :: "oqs_lib \<Rightarrow> bool" where
  "oqs_ok oq \<longleftrightarrow> (\<forall>alg seed msg. oq_verify oq alg msg (oq_sign oq alg (oq_secret oq alg seed) msg) (oq_public oq alg seed))"

record OqsSignatureProvider =
  alg_name :: str

definition new_OqsSignatureProvider :: "str \<Rightarrow> OqsSignatureProvider" where
  "new_OqsSignatureProvider alg = \<lparr>alg_name = alg\<rparr>"

definition generate_keypair :: "oqs_lib \<Rightarrow> bytes \<Rightarrow> OqsSignatureProvider \<Rightarrow> bytes \<times> bytes" where
  "generate_keypair oq seed p =
     (let public_key = oq_public oq (alg_name p) seed; private_key = oq_secret oq (alg_name p) seed
      in (public_key, private_key))"

definition provider_sign :: "oqs_lib \<Rightarrow> bytes \<Rightarrow> bytes \<Rightarrow> OqsSignatureProvider \<Rightarrow> bytes" where
  "provider_sign oq msg private_key p = oq_sign oq (alg_name p) private_key msg"

definition provider_verify :: "oqs_lib \<Rightarrow> bytes \<Rightarrow> bytes \<Rightarrow> bytes \<Rightarrow> OqsSignatureProvider \<Rightarrow> bool" where
  "provider_verify oq msg signature public_key p = oq_verify oq (alg_name p) msg signature public_key"

lemma provider_roundtrip:
  "oqs_ok oq \<Longrightarrow> generate_keypair oq seed p = (pk, sk) \<Longrightarrow> provider_verify oq msg (provider_sign oq msg sk p) pk p"
  by (auto simp: oqs_ok_def generate_keypair_def provider_verify_def provider_sign_def Let_def)

section \<open>The dual policy\<close>

text \<open>
  The task envelope a scheduler sends under the policy carries the provider's signature of the
  bytes it signs, when the scheduler has a key of the provider.
\<close>

lemma task_signature_verifies:
  assumes "oqs_ok oq" "pq_sign (pl_crypto pl) = oq_sign oq" "sc_dual_required s"
    and "generate_keypair oq seed (new_OqsSignatureProvider (PQC_SIGNATURE (load_PqcConfig (pl_environ pl)))) = (pk, sk)"
    and "sc_pq_key s = Some sk" "req = sign_envelope pl s t c dig now rnd"
  shows "provider_verify oq (te_encrypted_payload req @ te_encrypted_dek req) (te_pq_signature req) pk
    (new_OqsSignatureProvider (te_pq_signature_algorithm req))"
  using assms(1,4)
  by (auto simp: assms(2,3,5,6) sign_envelope_def Let_def oqs_ok_def generate_keypair_def provider_verify_def
      new_OqsSignatureProvider_def split: prod.splits)

text \<open>An envelope with another post-quantum signature.\<close>

definition with_pq :: "str \<Rightarrow> bytes \<Rightarrow> SignedTaskEnvelope \<Rightarrow> SignedTaskEnvelope" where
  "with_pq alg sig req = req\<lparr>te_pq_signature_algorithm := alg, te_pq_signature := sig\<rparr>"

lemma with_pq_fields [simp]:
  "te_task_id (with_pq alg sig req) = te_task_id req" "te_node_id (with_pq alg sig req) = te_node_id req"
  "te_key_id (with_pq alg sig req) = te_key_id req" "te_expires_at (with_pq alg sig req) = te_expires_at req"
  "te_leader_lease_id (with_pq alg sig req) = te_leader_lease_id req"
  "te_signature_algorithm (with_pq alg sig req) = te_signature_algorithm req" "te_signature (with_pq alg sig req) = te_signature req"
  "te_encrypted_payload (with_pq alg sig req) = te_encrypted_payload req" "te_encrypted_dek (with_pq alg sig req) = te_encrypted_dek req"
  "te_pq_signature_algorithm (with_pq alg sig req) = alg" "te_pq_signature (with_pq alg sig req) = sig"
  by (simp_all add: with_pq_def)

lemma with_pq_verified:
  assumes "te_pq_signature req \<noteq> []"
    and "validate_signature_algorithm (pl_environ pl) (pl_oqs pl) (te_pq_signature_algorithm req) = Inr ()"
    and "sig \<noteq> []" "validate_signature_algorithm (pl_environ pl) (pl_oqs pl) alg = Inr ()"
  shows "verify_task_envelope pl (with_pq alg sig req) e = verify_task_envelope pl req e"
  unfolding verify_task_envelope_def with_pq_fields assms(2,4) if_not_P [OF assms(1)] if_not_P [OF assms(3)] by (rule HOL.refl)

lemma with_pq_handled:
  "build_request (with_pq alg sig req) = build_request req"
  "sign_response pl (with_pq alg sig req) payload ni node = sign_response pl req payload ni node"
  unfolding build_request_def [abs_def] sign_response_def with_pq_fields by (rule HOL.refl)+

section \<open>Properties\<close>

text \<open>
  C38: the second signature of the dual policy is never verified. A task envelope that a
  node accepts is accepted, and handled to the same end, with any other bytes that are not empty as
  its post-quantum signature and any supported algorithm beside them, the classical ones
  included; a response likewise; and the control plane handles a telemetry message
  the same whatever its post-quantum signature is, and when it has none.
\<close>

theorem dual_signature_never_verified:
  assumes "te_pq_signature req \<noteq> []" "re_pq_signature resp \<noteq> []"
    and "validate_signature_algorithm (pl_environ pl) (pl_oqs pl) (te_pq_signature_algorithm req) = Inr ()"
    and "validate_signature_algorithm (pl_environ pl) (pl_oqs pl) (re_pq_signature_algorithm resp) = Inr ()"
    and "sig \<noteq> []" "validate_signature_algorithm (pl_environ pl) (pl_oqs pl) alg = Inr ()"
  shows "ExecuteTask pl ctx (with_pq alg sig req) ni w e = ExecuteTask pl ctx req ni w e \<and>
    process_response pl s c dig (resp\<lparr>re_pq_signature_algorithm := alg, re_pq_signature := sig\<rparr>) =
      process_response pl s c dig resp \<and>
    stream_message cr now e (env\<lparr>ve_pq_signature_algorithm := alg', ve_pq_signature := sig'\<rparr>) ts =
      stream_message cr now e env ts"
proof (intro conjI)
  show "ExecuteTask pl ctx (with_pq alg sig req) ni w e = ExecuteTask pl ctx req ni w e"
    unfolding ExecuteTask_def with_pq_verified [OF assms(1,3,5,6)] with_pq_handled with_pq_fields by (rule HOL.refl)
  have "read_result ft (resp\<lparr>re_pq_signature_algorithm := alg, re_pq_signature := sig\<rparr>) d dig = read_result ft resp d dig" for ft d
    by (simp add: read_result_def)
  then show "process_response pl s c dig (resp\<lparr>re_pq_signature_algorithm := alg, re_pq_signature := sig\<rparr>) =
      process_response pl s c dig resp"
    using assms(2,4-6) by (simp add: process_response_def cong: if_cong json.case_cong)
  let ?env = "env\<lparr>ve_pq_signature_algorithm := alg', ve_pq_signature := sig'\<rparr>"
  have fields: "ve_node_id ?env = ve_node_id env" "ve_sequence_number ?env = ve_sequence_number env" "ve_nonce ?env = ve_nonce env"
    "ve_timestamp ?env = ve_timestamp env" "ve_expires_at ?env = ve_expires_at env" "ve_signature ?env = ve_signature env"
    "ve_payload_json ?env = ve_payload_json env"
    by simp_all
  then have "telemetry_snapshot ?env d = telemetry_snapshot env d" for d by (simp add: telemetry_snapshot_def)
  then show "stream_message cr now e ?env ts = stream_message cr now e env ts"
    unfolding stream_message_def fields by (simp only:)
qed

text \<open>A toy provider: the signature is the key before the message, the public key is the secret one.\<close>

definition toy_oqs :: oqs_lib where
  "toy_oqs = \<lparr>oq_public = (\<lambda>alg seed. seed), oq_secret = (\<lambda>alg seed. seed), oq_sign = (\<lambda>alg sk msg. sk @ msg),
     oq_verify = (\<lambda>alg msg sig pk. sig = pk @ msg)\<rparr>"

definition dual_platform :: platform where
  "dual_platform = sample_platform\<lparr>pl_environ := [''PQC_MESSAGE_SIGNATURE_POLICY'' \<mapsto> ''dual_required'',
     ''PQC_ALLOW_OQS_PROVIDER'' \<mapsto> ''true''], pl_oqs := True\<rparr>"

definition dual_envelope :: SignedTaskEnvelope where
  "dual_envelope = with_pq ''ML-DSA-65'' (oq_sign toy_oqs ''ML-DSA-65'' [5] (te_encrypted_payload sample_envelope @ te_encrypted_dek sample_envelope))
     sample_envelope"

theorem dual_signature_never_verified_witness:
  "oqs_ok toy_oqs \<and> pl_dual dual_platform \<and>
   \<not> provider_verify toy_oqs (te_encrypted_payload sample_envelope @ te_encrypted_dek sample_envelope) [0] [5]
       (new_OqsSignatureProvider ''ML-DSA-65'') \<and>
   verify_task_envelope dual_platform (with_pq ''Ed25519'' [0] dual_envelope) sample_cluster = Inr () \<and>
   ExecuteTask dual_platform sample_context (with_pq ''Ed25519'' [0] dual_envelope) sample_inputs
       (new_InferenceWorker sample_worker_node) sample_cluster =
     ExecuteTask dual_platform sample_context dual_envelope sample_inputs
       (new_InferenceWorker sample_worker_node) sample_cluster"
proof -
  have v: "validate_signature_algorithm (pl_environ dual_platform) (pl_oqs dual_platform) ''ML-DSA-65'' = Inr ()"
    "validate_signature_algorithm (pl_environ dual_platform) (pl_oqs dual_platform) ''Ed25519'' = Inr ()"
    by (simp_all add: validate_signature_algorithm_def PQ_SIGNATURES_def SUPPORTED_SIGNATURES_def load_PqcConfig_def
        getenv_def dual_platform_def Let_def lower_def lower_char_def)
  have d: "te_pq_signature dual_envelope \<noteq> []" "te_pq_signature_algorithm dual_envelope = ''ML-DSA-65''"
    by (simp_all add: dual_envelope_def toy_oqs_def)
  define resp where "resp = sign_response sample_platform sample_envelope [] sample_inputs sample_worker_node
    \<lparr>re_pq_signature_algorithm := ''ML-DSA-65'', re_pq_signature := [1]\<rparr>"
  have r: "re_pq_signature resp \<noteq> []" "re_pq_signature_algorithm resp = ''ML-DSA-65''" by (simp_all add: resp_def)
  have "ExecuteTask dual_platform sample_context (with_pq ''Ed25519'' [0] dual_envelope) sample_inputs
       (new_InferenceWorker sample_worker_node) sample_cluster =
     ExecuteTask dual_platform sample_context dual_envelope sample_inputs
       (new_InferenceWorker sample_worker_node) sample_cluster"
    using dual_signature_never_verified [OF d(1) r(1), of dual_platform "[0]" "''Ed25519''"] by (simp only: d(2) r(2) v) simp
  moreover have "verify_task_envelope dual_platform (with_pq ''Ed25519'' [0] dual_envelope) sample_cluster = Inr ()"
  proof -
    have f: "te_signature_algorithm dual_envelope = ''Ed25519''" "te_key_id dual_envelope = ''scheduler-1''"
      "te_signature dual_envelope = [5] @ te_encrypted_payload dual_envelope @ te_encrypted_dek dual_envelope"
      by (simp_all add: dual_envelope_def sample_envelope_def)
    have "etcd_get (key_scheduler ''scheduler-1'') sample_cluster = Some (hex [5])" "hex [5] \<noteq> []"
      by (simp_all add: sample_cluster_def etcd_get_def etcd_put_def hex_def hex_byte_def)
    moreover have "ed_verify (pl_crypto dual_platform) (hex [5]) (te_signature dual_envelope)
        (te_encrypted_payload dual_envelope @ te_encrypted_dek dual_envelope) = Inr ()"
      by (simp add: f(3) dual_platform_def sample_platform_def toy_crypto_def)
    ultimately show ?thesis using v by (simp add: verify_task_envelope_def f(1,2) Let_def)
  qed
  moreover have "pl_dual dual_platform"
    by (simp add: pl_dual_def dual_required_def load_PqcConfig_def getenv_def dual_platform_def)
  ultimately show ?thesis
    by (simp add: oqs_ok_def toy_oqs_def provider_verify_def new_OqsSignatureProvider_def)
qed

end
