(* ===== verification/LoadTest.thy ===== *)
theory LoadTest
  imports Bootstrap
begin

text \<open>
  The load test (\<open>load_test.py\<close>): the requests of its workers against the gateway and the
  figures of its report. The workers wait for the gateway, which handles one request at a
  time: the requests are taken in the order they are served, each with the clock readings, the
  identifier and the random bytes of its submission. The layout of the printed report is not
  modelled, nor a negative number of workers or requests (a worker of none sends none).
\<close>

section \<open>Requests\<close>

datatype load_result =
  Load_success pyfloat pyfloat pyfloat str
| Load_error pyfloat

record load_inputs =
  li_submit :: submit_inputs
  li_task_id :: str
  li_key_time :: pyfloat
  li_number :: int
  li_start :: pyfloat
  li_end :: pyfloat

definition load_task :: "float_text \<Rightarrow> load_inputs \<Rightarrow> TaskRequest" where
  "load_task ft li =
     \<lparr>t_task_id = li_task_id li, t_workload_type = INFERENCE, t_model_id = ''vision-classifier-v3'', t_model_digest = None,
      t_sla_class = REAL_TIME, t_payload_ref = ''s3://test/data'', t_max_latency_ms = 150,
      t_data_residency = Some ''none'',
      t_idempotency_key = ''load-test-'' @ frepr ft (li_key_time li) @ ''-'' @ show_int (li_number li),
      t_required_assurance_level = STANDARD\<rparr>"

definition metadata :: "jobj \<Rightarrow> str \<Rightarrow> exc + json" where
  "metadata data k =
     rbind (getitem (key_error ''execution_metadata'') data ''execution_metadata'') (\<lambda>j.
       (case j of JObj m \<Rightarrow> getitem (key_error k) m k | _ \<Rightarrow> Inl (py_exc TypeErrorClass k)))"

definition load_result_of :: "pyfloat \<Rightarrow> http_exception + jobj \<Rightarrow> exc + load_result" where
  "load_result_of e2e r =
     (case r of
        Inl err \<Rightarrow> Inr (Load_error e2e)
      | Inr data \<Rightarrow>
          rbind (metadata data ''decision_overhead_ms'') (\<lambda>decision.
          rbind (metadata data ''execution_time_ms'') (\<lambda>execution.
          rbind (metadata data ''executed_node'') (\<lambda>node.
            (case (decision, execution, node) of
               (JFloat x, JFloat y, JStr n) \<Rightarrow> Inr (Load_success e2e x y n)
             | _ \<Rightarrow> Inl (py_exc TypeErrorClass []))))))"

fun load_requests ::
    "platform \<Rightarrow> event_io \<Rightarrow> 'w network \<Rightarrow> load_inputs list \<Rightarrow> gateway \<times> etcd \<times> 'w \<Rightarrow>
     (exc + load_result list) \<times> gateway \<times> etcd \<times> 'w" where
  "load_requests pl io rpc [] st = (Inr [], st)"
| "load_requests pl io rpc (li # lis) st =
     (case submit_inference_task pl io rpc (li_submit li) ''test-gateway-token'' (load_task (ftext (pl_crypto pl)) li) st of
        (r, st1) \<Rightarrow>
          (case load_result_of (fmul (fsub (li_end li) (li_start li)) 1000) r of
             Inl ex \<Rightarrow> (Inl ex, st1)
           | Inr x \<Rightarrow> (case load_requests pl io rpc lis st1 of
               (rs, st2) \<Rightarrow> (rbind rs (\<lambda>xs. Inr (x # xs)), st2))))"

section \<open>The report\<close>

definition percentile :: "pyfloat list \<Rightarrow> nat \<Rightarrow> pyfloat" where
  "percentile data perc =
     (if data = [] then 0
      else (let sorted_data = sort data;
                idx = nat \<lfloor>fdiv (fl (of_nat (length data * perc))) 100\<rfloor>
            in sorted_data ! min idx (length sorted_data - 1)))"

definition placement_distribution :: "str list \<Rightarrow> (str, int) dict" where
  "placement_distribution nodes = fold (\<lambda>n d. dset n (dget_or d n 0 + 1) d) nodes []"

definition successes :: "load_result list \<Rightarrow> (pyfloat \<times> pyfloat \<times> str) list" where
  "successes results = concat (map (\<lambda>r. case r of Load_success e2e d x n \<Rightarrow> [(e2e, d, n)] | Load_error e2e \<Rightarrow> []) results)"

record load_summary =
  lo_throughput :: pyfloat
  lo_success_rate :: pyfloat
  lo_errors :: nat
  lo_decision :: "pyfloat list"
  lo_end_to_end :: "pyfloat list"
  lo_distribution :: "(str, int) dict"
  lo_target_met :: "bool option"

definition ratio :: "nat \<Rightarrow> pyfloat \<Rightarrow> exc + pyfloat" where
  "ratio n x = (if x = 0 then Inl (py_exc ZeroDivisionErrorClass ''division by zero'') else Inr (fdiv (fl (of_nat n)) x))"

definition load_report :: "load_result list \<Rightarrow> pyfloat \<Rightarrow> exc + load_summary" where
  "load_report results total_time =
     (let ok = successes results; lat = (\<lambda>xs. [percentile xs 50, percentile xs 95, percentile xs 99, Max (set xs)]);
          dec_lats = map (\<lambda>(e2e, d, n). d) ok; e2e_lats = map (\<lambda>(e2e, d, n). e2e) ok
      in rbind (ratio (length results) total_time) (\<lambda>throughput.
         rbind (ratio (length ok) (fl (of_nat (length results)))) (\<lambda>rate.
           Inr \<lparr>lo_throughput = throughput, lo_success_rate = fmul rate 100, lo_errors = length results - length ok,
             lo_decision = (if ok = [] then [] else lat dec_lats), lo_end_to_end = (if ok = [] then [] else lat e2e_lats),
             lo_distribution = placement_distribution (map (\<lambda>(e2e, d, n). n) ok),
             lo_target_met = (if ok = [] then None else Some (percentile dec_lats 99 < 10))\<rparr>)))"

definition run_load_test ::
    "platform \<Rightarrow> event_io \<Rightarrow> (str, InferenceWorker) dict network \<Rightarrow> cluster_inputs \<Rightarrow> (nat \<Rightarrow> load_inputs) \<Rightarrow> nat \<Rightarrow> nat \<Rightarrow>
     pyfloat \<Rightarrow> etcd \<Rightarrow> (exc + load_summary) \<times> etcd" where
  "run_load_test pl io rpc ci inputs concurrency total_requests total_time e =
     (case create_simulated_cluster pl ci e of
        (Inl ex, e1) \<Rightarrow> (Inl ex, e1)
      | (Inr cl, e1) \<Rightarrow>
          if concurrency = 0 then (Inl (py_exc ZeroDivisionErrorClass ''integer division or modulo by zero''), e1)
          else
            (let reqs_per_worker = total_requests div concurrency in
             case load_requests pl io rpc (map inputs [0..<concurrency * reqs_per_worker]) (cl_gateway cl, e1, cl_servers cl) of
               (rs, _, e2, _) \<Rightarrow> (rbind rs (\<lambda>results. load_report results total_time), e2)))"

section \<open>Lemmas\<close>

text \<open>An answer has the fields the report reads: a load test never stops at a response.\<close>

lemma load_result_defined:
  "\<exists>x. load_result_of e2e (Inr (response_envelope i k d res fb n)) = Inr x"
  by (simp add: load_result_of_def metadata_def response_envelope_def getitem_def)

lemma placement_counts: "dget_or (placement_distribution ns) n 0 = int (count_list ns n)"
proof -
  have "dget_or (fold (\<lambda>n d. dset n (dget_or d n 0 + 1) d) ns d) n 0 = dget_or d n 0 + int (count_list ns n)" for d
    by (induction ns arbitrary: d) (auto simp: dget_or_def)
  from this [of "[]"] show ?thesis by (simp add: placement_distribution_def dget_or_def)
qed

text \<open>
  The percentile is one of the values, and more than \<open>perc\<close> percent of the values are at most
  it (all of them when it is the largest): the index is one above the nearest rank when the
  rank is an integer, so the figure errs on the slow side.
\<close>

lemma sorted_at_most:
  fixes xs :: "'a :: linorder list"
  assumes "sorted xs" "i < length xs"
  shows "i + 1 \<le> length (filter (\<lambda>x. x \<le> xs ! i) xs)"
proof -
  have le: "xs ! j \<le> xs ! i" if "j \<le> i" for j
    using assms that by (intro sorted_nth_mono)
  have "\<forall>x\<in>set (take (i + 1) xs). x \<le> xs ! i" using le by (auto simp: in_set_conv_nth)
  then have "filter (\<lambda>x. x \<le> xs ! i) (take (i + 1) xs) = take (i + 1) xs" by (simp only: filter_id_conv)
  then have "length (filter (\<lambda>x. x \<le> xs ! i) (take (i + 1) xs)) = i + 1" using assms(2) by simp
  moreover have "length (filter (\<lambda>x. x \<le> xs ! i) xs) =
      length (filter (\<lambda>x. x \<le> xs ! i) (take (i + 1) xs)) + length (filter (\<lambda>x. x \<le> xs ! i) (drop (i + 1) xs))"
    by (metis append_take_drop_id filter_append length_append)
  ultimately show ?thesis by linarith
qed

lemma percentile_spec:
  assumes "data \<noteq> []" "length data * perc \<le> 2 ^ 53"
  shows "percentile data perc \<in> set data \<and>
    (length data * perc < 100 * length (filter (\<lambda>x. x \<le> percentile data perc) data) \<or>
     (\<forall>x\<in>set data. x \<le> percentile data perc))"
proof -
  let ?n = "length data" and ?s = "sort data" and ?x = "of_nat (length data * perc) / 100 :: rat"
  let ?idx = "nat \<lfloor>fdiv (fl (of_nat (?n * perc))) 100\<rfloor>"
  let ?i = "min ?idx (?n - 1)"
  have i: "?i < length ?s" using assms(1) by (cases data) auto
  have p: "percentile data perc = ?s ! ?i" using assms(1) by (simp add: percentile_def Let_def)
  have f: "length (filter P ?s) = length (filter P data)" for P :: "pyfloat \<Rightarrow> bool"
    by (metis mset_filter mset_sort size_mset)
  have "?s ! ?i \<in> set data" using nth_mem [OF i] by simp
  moreover have "?n * perc < 100 * length (filter (\<lambda>x. x \<le> ?s ! ?i) data) \<or> (\<forall>x\<in>set data. x \<le> ?s ! ?i)"
  proof (cases "?idx \<le> ?n - 1")
    case True
    let ?q = "(?n * perc) div 100"
    have e: "fl (of_nat (?n * perc)) = of_nat (?n * perc)"
      using fl_of_int [of "int (?n * perc)"] assms(2) by (simp del: of_nat_mult)
    have h: "?q * 100 \<le> ?n * perc" by (rule div_times_less_eq_dividend)
    have r: "?n * perc < 100 * (?q + 1)" using dividend_less_div_times [of 100 "?n * perc"] by simp
    have q: "?q \<le> 2 ^ 53" using div_le_dividend assms(2) by (rule le_trans)
    have "(of_nat (?q * 100) :: rat) \<le> of_nat (?n * perc)" using h by (rule of_nat_mono)
    then have x: "of_nat ?q \<le> ?x" by (simp only: of_nat_mult of_nat_numeral le_divide_eq_numeral)
    have "fl (of_nat ?q) = of_nat ?q" using fl_of_int [of "int ?q"] q by simp
    then have "of_nat ?q \<le> fl ?x" using fl_mono [OF x] by simp
    then have "int ?q \<le> \<lfloor>fl ?x\<rfloor>" by (simp add: le_floor_iff)
    then have "?q \<le> ?idx" unfolding fdiv_def e by linarith
    moreover have "?idx + 1 \<le> length (filter (\<lambda>x. x \<le> ?s ! ?i) data)"
      using sorted_at_most [OF _ i] True by (simp add: f min_def)
    ultimately show ?thesis using r by linarith
  next
    case False
    then have l: "?i = ?n - 1" by simp
    have "x \<le> ?s ! ?i" if x: "x \<in> set ?s" for x
    proof -
      obtain k where "k < length ?s" "x = ?s ! k" using in_set_conv_nth [THEN iffD1, OF x] by blast
      then show ?thesis using i by (simp only: l) (intro sorted_nth_mono, auto)
    qed
    then have "\<forall>x\<in>set data. x \<le> ?s ! ?i" by simp
    then show ?thesis by simp
  qed
  ultimately show ?thesis unfolding p by blast
qed

text \<open>Fewer requests than workers: no request is sent, and the report divides by zero.\<close>

lemma few_requests_fail:
  assumes "requests < concurrency" "create_simulated_cluster pl ci e = (Inr cl, e1)"
  shows "\<exists>ex. run_load_test pl io rpc ci inputs concurrency requests t e = (Inl ex, e1) \<and> exc_class ex = ZeroDivisionErrorClass"
  using assms by (auto simp: run_load_test_def load_report_def ratio_def successes_def Let_def)

end
