(* ===== verification/Interleavings.thy ===== *)
theory Interleavings
  imports TelemetryClient
begin

text \<open>
  What happens between the accesses of concurrent threads to shared objects that no lock joins.

  The execution service runs ten threads (\<open>node_agent/grpc_server.py\<close>, \<open>serve\<close>) on one
  \<open>InferenceWorker\<close> (\<open>node_agent/worker.py\<close>), whose \<open>execute\<close> looks a key up, works and stores the
  result: here each access is a step, a thread is a request with the point it has reached, and
  a schedule names the thread of each step. \<open>execute\<close> of \<open>NodeAgent\<close> is the run of one thread
  alone. The control plane's ten threads (\<open>gateway/grpc_server.py\<close>) check a message for replay
  under one lock and store its snapshot under another; the ageing of the Redis store reads all
  snapshots and writes them back.
\<close>

section \<open>Threads of the execution service\<close>

datatype worker_phase =
  Arrived
| Not_cached
| Node_up
| Computing ApprovedArtifactRecord pyfloat
| Computed ExecutionResult
| Returned ExecutionResult
| Refused_with exc

text \<open>One step, with the authoritative state and the clock at this moment.\<close>

fun worker_step :: "platform \<Rightarrow> ExecutionRequest \<Rightarrow> etcd \<Rightarrow> pyfloat \<Rightarrow>
    worker_phase \<Rightarrow> InferenceWorker \<Rightarrow> worker_phase \<times> InferenceWorker" where
  "worker_step pl request e t Arrived w =
     (case dget (w_processed w) (r_idempotency_key request) of
        Some cached_result \<Rightarrow> (Returned (cached_result\<lparr>x_cached := True\<rparr>), w)
      | None \<Rightarrow> (Not_cached, w))"
| "worker_step pl request e t Not_cached w =
     (let node = w_node w in
      if n_is_offline node \<or> n_fail_execution node then
        (Refused_with (NodeUnavailableError (''Node '' @ n_node_id node @ '' is offline or failed execution check'')
           (n_node_id node) []), w)
      else (Node_up, w))"
| "worker_step pl request e t Node_up w =
     (case verify_artifact_for_execution (pl_crypto pl) (pl_codecs pl) (r_model_id request) (r_model_digest request) e of
        Inl ex \<Rightarrow> (Refused_with ex, w)
      | Inr approved \<Rightarrow> (Computing approved t, w))"
| "worker_step pl request e t (Computing approved t0) w =
     (Computed (execution_result request approved (exec_duration_ms t0 t) (w_node w)), w)"
| "worker_step pl request e t (Computed res) w =
     (Returned res, w\<lparr>w_processed := dset (r_idempotency_key request) res (w_processed w)\<rparr>)"
| "worker_step pl request e t (Returned res) w = (Returned res, w)"
| "worker_step pl request e t (Refused_with ex) w = (Refused_with ex, w)"

text \<open>
  A schedule: for each step the thread, the node as others have left it, the authoritative state
  and the clock.
\<close>

type_synonym turn = "nat \<times> SimulatedNode \<times> etcd \<times> pyfloat"

fun worker_run :: "platform \<Rightarrow> turn list \<Rightarrow> (ExecutionRequest \<times> worker_phase) list \<times> InferenceWorker \<Rightarrow>
    (ExecutionRequest \<times> worker_phase) list \<times> InferenceWorker" where
  "worker_run pl [] s = s"
| "worker_run pl ((p, node, e, t) # turns) (ts, w) =
     (if p < length ts then
        (case worker_step pl (fst (ts ! p)) e t (snd (ts ! p)) (w\<lparr>w_node := node\<rparr>) of
           (ph, w1) \<Rightarrow> worker_run pl turns (ts[p := (fst (ts ! p), ph)], w1))
      else worker_run pl turns (ts, w\<lparr>w_node := node\<rparr>))"

text \<open>A thread alone is \<open>execute\<close>.\<close>

definition phase_of :: "exc + (ExecutionResult \<times> InferenceWorker) \<Rightarrow> worker_phase" where
  "phase_of r = (case r of Inl ex \<Rightarrow> Refused_with ex | Inr (res, w) \<Rightarrow> Returned res)"

lemma execute_is_thread_alone:
  "worker_run pl [(0, w_node w, e, t), (0, w_node w, e, t), (0, w_node w, e, t0), (0, w_node w, e, t1), (0, w_node w, e, t)]
     ([(request, Arrived)], w) =
   ([(request, phase_of (execute pl request e t0 t1 w))],
    (case execute pl request e t0 t1 w of Inl ex \<Rightarrow> w | Inr (res, w1) \<Rightarrow> w1))"
  by (auto simp: execute_def Let_def phase_of_def split: option.split sum.split)

section \<open>What every schedule keeps\<close>

text \<open>
  The artifact of a request was admitted at some step of a schedule; a result was computed for
  the request and such an artifact.
\<close>

definition admitted_in :: "platform \<Rightarrow> turn list \<Rightarrow> ExecutionRequest \<Rightarrow> ApprovedArtifactRecord \<Rightarrow> bool" where
  "admitted_in pl turns r rcd \<longleftrightarrow> (\<exists>(p, node, e, t)\<in>set turns.
     may_execute (pl_crypto pl) (pl_codecs pl) (r_model_id r) (r_model_digest r) e rcd)"

definition computed_in :: "platform \<Rightarrow> turn list \<Rightarrow> ExecutionRequest \<Rightarrow> ExecutionResult \<Rightarrow> bool" where
  "computed_in pl turns r res \<longleftrightarrow> (\<exists>rcd d node. admitted_in pl turns r rcd \<and> res = execution_result r rcd d node)"

lemma computed_inI [intro]: "admitted_in pl turns r rcd \<Longrightarrow> computed_in pl turns r (execution_result r rcd d node)"
  by (auto simp: computed_in_def)

lemma worker_run_append:
  "worker_run pl (xs @ ys) s = worker_run pl ys (worker_run pl xs s)"
  by (induction pl xs s rule: worker_run.induct) (auto split: prod.split)

lemma worker_run_requests: "map fst (fst (worker_run pl turns s)) = map fst (fst s)"
  by (induction pl turns s rule: worker_run.induct) (auto simp: map_update list_update_same_conv split: prod.split)

text \<open>
  The invariant, over the requests \<open>rs\<close> of the threads: what a thread holds was computed for its
  request or taken from the cache, and the cache holds results computed for their keys.
\<close>

fun phase_ok :: "platform \<Rightarrow> turn list \<Rightarrow> ExecutionRequest set \<Rightarrow> ExecutionRequest \<Rightarrow> worker_phase \<Rightarrow> bool" where
  "phase_ok pl turns rs r (Computing rcd t0) \<longleftrightarrow> admitted_in pl turns r rcd"
| "phase_ok pl turns rs r (Computed res) \<longleftrightarrow> computed_in pl turns r res"
| "phase_ok pl turns rs r (Returned res) \<longleftrightarrow> computed_in pl turns r res \<or>
     (\<exists>r'\<in>rs. \<exists>res0. r_idempotency_key r' = r_idempotency_key r \<and> computed_in pl turns r' res0 \<and> res = res0\<lparr>x_cached := True\<rparr>)"
| "phase_ok pl turns rs r _ \<longleftrightarrow> True"

definition cache_ok :: "platform \<Rightarrow> turn list \<Rightarrow> ExecutionRequest set \<Rightarrow> InferenceWorker \<Rightarrow> bool" where
  "cache_ok pl turns rs w \<longleftrightarrow> (\<forall>k res. dget (w_processed w) k = Some res \<longrightarrow>
     (\<exists>r\<in>rs. r_idempotency_key r = k \<and> computed_in pl turns r res))"

lemma worker_step_ok:
  assumes "worker_step pl r e t ph w = (ph', w')" "phase_ok pl turns rs r ph" "cache_ok pl turns rs w"
    and "r \<in> rs" "(p, node, e, t) \<in> set turns"
  shows "phase_ok pl turns rs r ph' \<and> cache_ok pl turns rs w'"
proof (cases ph)
  case Arrived
  then show ?thesis using assms(1,3) by (auto simp: cache_ok_def split: option.splits) blast
next
  case Node_up
  then show ?thesis using assms(1,3,5) by (auto simp: verify_iff admitted_in_def intro!: bexI [of _ "(p, node, e, t)"] split: sum.splits)
next
  case (Computing rcd t0)
  then show ?thesis using assms(1-3) by auto
next
  case (Computed res)
  then show ?thesis using assms(1-4) by (auto simp: cache_ok_def split: if_splits)
qed (use assms in \<open>auto simp: Let_def split: if_splits\<close>)

text \<open>A key that is stored stays stored.\<close>

lemma worker_step_keys:
  "worker_step pl r e t ph w = (ph', w') \<Longrightarrow> dom (dget (w_processed w)) \<subseteq> dom (dget (w_processed w'))"
  by (cases ph) (auto simp: Let_def split: option.splits sum.splits if_splits)

definition threads_ok :: "platform \<Rightarrow> turn list \<Rightarrow> ExecutionRequest set \<Rightarrow>
    (ExecutionRequest \<times> worker_phase) list \<times> InferenceWorker \<Rightarrow> bool" where
  "threads_ok pl turns rs s \<longleftrightarrow> (\<forall>(r, ph)\<in>set (fst s). r \<in> rs \<and> phase_ok pl turns rs r ph) \<and> cache_ok pl turns rs (snd s)"

lemma worker_run_ok:
  assumes "threads_ok pl all rs s" "set turns \<subseteq> set all"
  shows "threads_ok pl all rs (worker_run pl turns s)"
  using assms
proof (induction pl turns s rule: worker_run.induct)
  case (2 pl p node e t turns ts w)
  obtain ph w1 where st: "worker_step pl (fst (ts ! p)) e t (snd (ts ! p)) (w\<lparr>w_node := node\<rparr>) = (ph, w1)"
    by fastforce
  have c: "cache_ok pl all rs (w\<lparr>w_node := node\<rparr>)" using 2(3) by (simp add: threads_ok_def cache_ok_def)
  show ?case
  proof (cases "p < length ts")
    case True
    then have "fst (ts ! p) \<in> rs" "phase_ok pl all rs (fst (ts ! p)) (snd (ts ! p))"
      using 2(3) nth_mem [OF True] by (cases "ts ! p"; force simp: threads_ok_def)+
    with worker_step_ok [OF st _ c] have "phase_ok pl all rs (fst (ts ! p)) ph" "cache_ok pl all rs w1"
      "fst (ts ! p) \<in> rs" using 2(4) by auto
    then have "threads_ok pl all rs (ts[p := (fst (ts ! p), ph)], w1)"
      using 2(3) by (auto simp: threads_ok_def dest!: set_update_subset_insert [THEN subsetD])
    then show ?thesis using 2(1) [OF True st [symmetric]] 2(4) True by (simp add: st)
  next
    case False
    then show ?thesis using 2(2) 2(3,4) c by (simp add: threads_ok_def)
  qed
qed simp

text \<open>A request that arrives when its key is stored is answered from the cache.\<close>

definition served_from_cache :: "worker_phase \<Rightarrow> bool" where
  "served_from_cache ph \<longleftrightarrow> ph = Arrived \<or> (\<exists>res. ph = Returned res \<and> x_cached res)"

lemma worker_step_cached:
  assumes "worker_step pl r e t ph w = (ph', w')" "served_from_cache ph" "r_idempotency_key r \<in> dom (dget (w_processed w))"
  shows "served_from_cache ph'"
  using assms by (auto simp: served_from_cache_def)

lemma worker_run_cached:
  assumes "i < length (fst s)" "served_from_cache (snd (fst s ! i))"
    and "r_idempotency_key (fst (fst s ! i)) \<in> dom (dget (w_processed (snd s)))"
  shows "served_from_cache (snd (fst (worker_run pl turns s) ! i))"
  using assms
proof (induction pl turns s rule: worker_run.induct)
  case (2 pl p node e t turns ts w)
  obtain ph w1 where st: "worker_step pl (fst (ts ! p)) e t (snd (ts ! p)) (w\<lparr>w_node := node\<rparr>) = (ph, w1)"
    by fastforce
  show ?case
  proof (cases "p < length ts")
    case True
    have "r_idempotency_key (fst (ts ! i)) \<in> dom (dget (w_processed w1))"
      using worker_step_keys [OF st] 2(5) by auto
    then show ?thesis
      using 2(1) [OF True st [symmetric]] 2(3-5) True worker_step_cached [OF st]
      by (cases "i = p") (simp_all add: st)
  next
    case False
    then show ?thesis using 2(2) 2(3-5) by simp
  qed
qed simp

text \<open>
  No lock joins the look-up of a key and the storing of its result. Two requests with the same
  key that are both looked up before the first result is stored are both computed, and the
  later result replaces the earlier one in the cache.
\<close>

definition step_by_step :: "SimulatedNode \<Rightarrow> etcd \<Rightarrow> pyfloat \<Rightarrow> turn list" where
  "step_by_step node e t = map (\<lambda>p. (p, node, e, t)) [0, 1, 0, 1, 0, 1, 0, 1, 0, 1]"

lemma concurrent_executions_repeat:
  assumes "may_execute (pl_crypto pl) (pl_codecs pl) (r_model_id r1) (r_model_digest r1) e rcd1"
    and "may_execute (pl_crypto pl) (pl_codecs pl) (r_model_id r2) (r_model_digest r2) e rcd2"
    and "r_idempotency_key r2 = r_idempotency_key r1" "\<not> n_is_offline node" "\<not> n_fail_execution node"
  shows "worker_run pl (step_by_step node e t) ([(r1, Arrived), (r2, Arrived)], new_InferenceWorker node) =
    ([(r1, Returned (execution_result r1 rcd1 (exec_duration_ms t t) node)),
      (r2, Returned (execution_result r2 rcd2 (exec_duration_ms t t) node))],
     \<lparr>w_node = node, w_processed = [(r_idempotency_key r1, execution_result r2 rcd2 (exec_duration_ms t t) node)]\<rparr>)"
  using assms by (simp add: step_by_step_def new_InferenceWorker_def Let_def verify_iff [symmetric])

section \<open>Threads of the telemetry service\<close>

text \<open>What a thread does with a message that passed the replay check: \<open>Inr\<close> is a snapshot to store.\<close>

definition read_message :: "crypto \<Rightarrow> str \<Rightarrow> SignedTelemetryEnvelope \<Rightarrow> (exc + bool) + NodeTelemetrySnapshot" where
  "read_message cr pem env =
     (case ed_verify cr pem (ve_signature env) (ve_payload_json env) of
        Inl ex \<Rightarrow> Inl (if exc_class ex = InvalidSignatureClass then Inr False else Inl ex)
      | Inr _ \<Rightarrow>
          (case loads (ftext cr) (decode (ve_payload_json env)) of
             None \<Rightarrow> Inl (Inl (py_exc JSONDecodeErrorClass []))
           | Some (JObj payload) \<Rightarrow>
               (case telemetry_snapshot env payload of Inl ex \<Rightarrow> Inl (Inl ex) | Inr snapshot \<Rightarrow> Inr snapshot)
           | Some _ \<Rightarrow> Inl (Inl (py_exc AttributeErrorClass ''get''))))"

text \<open>
  A message up to the storing of its snapshot. The replay check is one step (it holds the lock
  of the replay state); the rest works on objects of the thread.
\<close>

definition check_message ::
    "crypto \<Rightarrow> pyfloat \<Rightarrow> etcd \<Rightarrow> SignedTelemetryEnvelope \<Rightarrow> telemetry_service \<Rightarrow>
     ((exc + bool) + NodeTelemetrySnapshot) \<times> telemetry_service" where
  "check_message cr now e env ts =
     (let node_id = ve_node_id env; pubkey_pem = etcd_get (key_member node_id) e in
      if \<not> truthy pubkey_pem then (Inl (Inr False), ts)
      else (case ed_load cr (the pubkey_pem) of
        Inl ex \<Rightarrow> (Inl (Inl ex), ts)
      | Inr _ \<Rightarrow>
          (case validate_and_record node_id (ve_sequence_number env) (ve_nonce env) (ve_timestamp env)
                  (ve_expires_at env) now (ts_replay ts) of
             (False, rs) \<Rightarrow> (Inl (Inr False), ts\<lparr>ts_replay := rs\<rparr>)
           | (True, rs) \<Rightarrow> (read_message cr (the pubkey_pem) env, ts\<lparr>ts_replay := rs\<rparr>))))"

definition store_message :: "NodeTelemetrySnapshot \<Rightarrow> telemetry_service \<Rightarrow> telemetry_service" where
  "store_message snapshot ts = ts\<lparr>ts_store := record_snapshot snapshot (ts_store ts)\<rparr>"

lemma stream_message_steps:
  "stream_message cr now e env ts =
     (case check_message cr now e env ts of
        (Inl r, ts1) \<Rightarrow> (r, ts1)
      | (Inr snapshot, ts1) \<Rightarrow> (Inr True, store_message snapshot ts1))"
  by (simp add: stream_message_def check_message_def read_message_def store_message_def Let_def
      split: sum.split option.split json.split prod.split bool.split)

lemma read_messageD: "read_message cr pem env = Inr snapshot \<Longrightarrow> s_node_id snapshot = ve_node_id env"
  by (auto simp: read_message_def dest: telemetry_snapshot_fixed split: sum.splits option.splits json.splits)

lemma check_messageD:
  assumes "check_message cr now e env ts = (Inr snapshot, ts1)"
  shows "s_node_id snapshot = ve_node_id env" "highest_seq (ts_replay ts) (ve_node_id env) < ve_sequence_number env"
    "highest_seq (ts_replay ts1) (ve_node_id env) = ve_sequence_number env" "ts_store ts1 = ts_store ts"
proof -
  obtain rs pem where v: "validate_and_record (ve_node_id env) (ve_sequence_number env) (ve_nonce env) (ve_timestamp env)
      (ve_expires_at env) now (ts_replay ts) = (True, rs)" "ts1 = ts\<lparr>ts_replay := rs\<rparr>"
    and p: "read_message cr pem env = Inr snapshot"
    using assms by (auto simp: check_message_def Let_def split: if_splits sum.splits prod.splits bool.splits)
  show "s_node_id snapshot = ve_node_id env" using read_messageD [OF p] .
  show "highest_seq (ts_replay ts) (ve_node_id env) < ve_sequence_number env" using validate_TrueD(3) [OF v(1)] .
  show "highest_seq (ts_replay ts1) (ve_node_id env) = ve_sequence_number env" using validate_TrueD(5) [OF v(1)] v(2) by simp
  show "ts_store ts1 = ts_store ts" using v(2) by simp
qed

text \<open>
  Two streams of one node (the old one of a broken connection and the new one) run in different
  threads. When the newer message is stored first, the older snapshot stays, although the replay
  check has seen the higher number.
\<close>

lemma older_snapshot_stays:
  assumes "check_message cr now1 e1 older ts = (Inr s1, ts1)" "check_message cr now2 e2 newer ts1 = (Inr s2, ts2)"
    and "ve_node_id older = n" "ve_node_id newer = n"
  shows "ve_sequence_number older < ve_sequence_number newer \<and>
    get_snapshot n (ts_store (store_message s1 (store_message s2 ts2))) = Some s1 \<and>
    highest_seq (ts_replay (store_message s1 (store_message s2 ts2))) n = ve_sequence_number newer"
  using check_messageD [OF assms(1)] check_messageD [OF assms(2)] assms(3,4)
  by (simp add: store_message_def record_snapshot_def get_snapshot_def)

section \<open>Ageing the Redis store\<close>

text \<open>The pipeline of \<open>update_heartbeat_age\<close>, executed after all snapshots have been read.\<close>

definition write_aged :: "redis_io \<Rightarrow> pyfloat \<Rightarrow> NodeTelemetrySnapshot list \<Rightarrow> RedisTelemetryStore \<Rightarrow> RedisTelemetryStore" where
  "write_aged io now snaps r = fold (\<lambda>snap. redis_record io (aged now snap)) snaps r"

lemma ageing_steps:
  "redis_update_heartbeat_age io now r = rbind (redis_get_all io r) (\<lambda>snaps. Inr (write_aged io now snaps r))"
  by (simp add: redis_update_heartbeat_age_def write_aged_def)

text \<open>A report that arrives in between (at another gateway) is overwritten by the older one.\<close>

lemma report_lost_while_ageing:
  assumes "redis_laws io" "refines io r st" "get_snapshot n st = Some old" "redis_get_all io r = Inr snaps"
    and "s_node_id new = n"
  shows "redis_get io n (write_aged io now snaps (redis_record io new r)) = Inr (Some (aged now old))"
proof -
  have ss: "mset snaps = mset (get_all_snapshots st)"
    using redis_get_all_refines [OF assms(1,2)] assms(4) by auto
  have ok: "store_ok st" "good_snapshots st" using assms(2) by (auto simp: refines_def)
  note f = find_snapshot [OF ok(1) ss]
  have o: "map_of (snapshots st) n = Some old" using assms(3) by (simp add: get_snapshot_def)
  have "rs_hash (write_aged io now snaps (redis_record io new r)) n = Some (rd_dump io (aged now old))"
    using fold_redis_record [OF f(1), of io "aged now" "redis_record io new r" n] f(2) [of n] o
    by (simp add: write_aged_def)
  moreover have "rd_dump io (aged now old) \<noteq> []" "rd_parse io (rd_dump io (aged now old)) = Some (aged now old)"
    using good_in [OF ok(2) o] aged_good [of old now] assms(1) by (auto simp: redis_laws_def)
  ultimately show ?thesis by (simp add: redis_get_def parse_snapshot_def)
qed

section \<open>Properties\<close>

text \<open>
  C26: what ten threads keep of idempotency. Whatever the schedule of the threads, the changes of
  the node and of the registry between their steps, a result that is returned was computed
  for the request itself, or is the cached result of a request with the same key, and was
  computed for an artifact the registry admitted at a step of the schedule. And once a result
  is stored, every request with its key that arrives later is answered from the cache: a key
  is computed again only by requests that were looked up before.
\<close>

theorem concurrent_executions_sound:
  assumes "worker_run pl turns1 (map (\<lambda>r. (r, Arrived)) rs, new_InferenceWorker node) = (ts1, w1)"
    and "worker_run pl turns2 (ts1, w1) = (ts2, w2)"
  shows "(\<forall>(r, ph)\<in>set ts2. \<forall>res. ph = Returned res \<longrightarrow> computed_in pl (turns1 @ turns2) r res \<or>
      (\<exists>r'\<in>set rs. \<exists>res0. r_idempotency_key r' = r_idempotency_key r \<and>
         computed_in pl (turns1 @ turns2) r' res0 \<and> res = res0\<lparr>x_cached := True\<rparr>)) \<and>
    (\<forall>i<length rs. snd (ts1 ! i) = Arrived \<and> dget (w_processed w1) (r_idempotency_key (rs ! i)) \<noteq> None \<longrightarrow>
      snd (ts2 ! i) = Arrived \<or> (\<exists>res. snd (ts2 ! i) = Returned res \<and> x_cached res))"
proof -
  let ?s = "(map (\<lambda>r. (r, Arrived)) rs, new_InferenceWorker node)"
  have "threads_ok pl (turns1 @ turns2) (set rs) ?s"
    by (auto simp: threads_ok_def cache_ok_def new_InferenceWorker_def)
  then have ok: "threads_ok pl (turns1 @ turns2) (set rs) (ts2, w2)"
    using worker_run_ok [of pl "turns1 @ turns2" "set rs" ?s "turns1 @ turns2"] assms by (simp add: worker_run_append)
  have rs: "map fst ts1 = rs"
    using worker_run_requests [of pl turns1 ?s] assms(1) by (simp add: comp_def)
  have "served_from_cache (snd (ts2 ! i))"
    if "i < length rs" "snd (ts1 ! i) = Arrived" "dget (w_processed w1) (r_idempotency_key (rs ! i)) \<noteq> None" for i
  proof -
    have i: "i < length ts1" using that(1) rs by (metis length_map)
    then have "fst (ts1 ! i) = rs ! i" using rs by (metis nth_map)
    then show ?thesis
      using worker_run_cached [of i "(ts1, w1)" pl turns2] that i assms(2) by (auto simp: served_from_cache_def)
  qed
  moreover have "\<forall>(r, ph)\<in>set ts2. phase_ok pl (turns1 @ turns2) (set rs) r ph"
    using ok by (auto simp: threads_ok_def)
  then have "\<forall>(r, ph)\<in>set ts2. \<forall>res. ph = Returned res \<longrightarrow> phase_ok pl (turns1 @ turns2) (set rs) r (Returned res)"
    by blast
  ultimately show ?thesis by (simp add: served_from_cache_def)
qed

theorem concurrent_executions_sound_witness:
  "\<exists>ts w res. worker_run sample_platform (replicate 5 (0, sample_worker_node, sample_etcd, 0) @ [(1, sample_worker_node, new_etcd, 0)])
       (map (\<lambda>r. (r, Arrived)) [sample_request ''k'', sample_request ''k''], new_InferenceWorker sample_worker_node) = (ts, w) \<and>
     snd (ts ! 1) = Returned res \<and> x_cached res"
proof -
  let ?r = "sample_request ''k''" and ?t = "(0 :: nat, sample_worker_node, sample_etcd, 0 :: pyfloat)"
  let ?res = "execution_result ?r sample_record (exec_duration_ms 0 0) sample_worker_node"
  let ?w = "\<lparr>w_node = sample_worker_node, w_processed = [(''k'', ?res)]\<rparr>"
  have up: "\<not> n_is_offline sample_worker_node" "\<not> n_fail_execution sample_worker_node"
    by (simp_all add: sample_worker_node_def new_SimulatedNode_def)
  have f: "replicate 5 ?t = [?t, ?t, ?t, ?t, ?t]" by (simp add: numeral_eq_Suc)
  have k: "r_idempotency_key ?r = ''k''" "r_model_id ?r = ''resnet50''" "r_model_digest ?r = Some sample_digest"
    by (simp_all add: sample_request_def)
  have a: "worker_run sample_platform (replicate 5 ?t) (map (\<lambda>r. (r, Arrived)) [?r, ?r], new_InferenceWorker sample_worker_node) =
      ([(?r, Returned ?res), (?r, Arrived)], ?w)"
    using sample_runs up by (simp add: f k new_InferenceWorker_def Let_def sample_platform_def)
  obtain ts2 w2 where b: "worker_run sample_platform [(1, sample_worker_node, new_etcd, 0)] ([(?r, Returned ?res), (?r, Arrived)], ?w) = (ts2, w2)"
    by fastforce
  have "snd (ts2 ! 1) \<noteq> Arrived" using b k(1) by auto
  moreover have "snd (ts2 ! 1) = Arrived \<or> (\<exists>res. snd (ts2 ! 1) = Returned res \<and> x_cached res)"
    using concurrent_executions_sound [OF a b] k(1) by (auto dest: spec [of _ 1])
  ultimately show ?thesis using a b by (auto simp: worker_run_append simp del: worker_run.simps)
qed

end
