(* ===== verification/Configuration.thy ===== *)
theory Configuration
  imports DecisionEngine
begin

text \<open>
  The configuration files (\<open>common/config.py\<close>): \<open>load_yaml_config\<close> and the two loaders that read
  the weight profiles and the static routing policy from a document.

  The parser of the \<open>yaml\<close> package is the argument \<open>safe_load\<close>, from the text of a file to its
  document or an exception; a file that is not there is \<open>None\<close>. A document is a JSON value, and a
  mapping with keys that are not strings is outside the model. The lemmas show that the file the
  repository ships gives the built-in profiles, that a file that is missing or empty gives the
  defaults, and that whatever the file holds no unvalidated profile is loaded.
\<close>

section \<open>Documents\<close>

definition load_yaml_config :: "(str \<Rightarrow> exc + json) \<Rightarrow> str option \<Rightarrow> exc + json" where
  "load_yaml_config safe_load file =
     (case file of
        None \<Rightarrow> Inr (JObj [])
      | Some f \<Rightarrow> rbind (safe_load f) (\<lambda>data. Inr (if json_truthy data then data else JObj [])))"

section \<open>The weight profiles\<close>

fun weight_value :: "json \<Rightarrow> pyfloat option" where
  "weight_value (JFloat x) = Some x"
| "weight_value (JInt i) = Some (fl (of_int i))"
| "weight_value _ = None"

definition weight_field :: "jobj \<Rightarrow> str \<Rightarrow> pyfloat option" where
  "weight_field d k = (case dget d k of None \<Rightarrow> None | Some j \<Rightarrow> weight_value j)"

text \<open>
  The keyword arguments of \<open>SLAWeights(**weights_dict)\<close>: all five are required and numbers,
  others are ignored; anything else is an exception the loader catches.
\<close>

definition weights_arguments :: "json \<Rightarrow> weights5 option" where
  "weights_arguments j = (case j of
     JObj d \<Rightarrow>
       (case (weight_field d ''w_lat'', weight_field d ''w_bw'', weight_field d ''w_cmp'',
              weight_field d ''w_queue'', weight_field d ''w_cost'') of
          (Some lat, Some bw, Some cmp, Some queue, Some cost) \<Rightarrow> Some (lat, bw, cmp, queue, cost)
        | _ \<Rightarrow> None)
   | _ \<Rightarrow> None)"

definition load_sla_weights_from_file ::
    "(str \<Rightarrow> exc + json) \<Rightarrow> str option \<Rightarrow> exc + (SLAClass, SLAWeights) dict" where
  "load_sla_weights_from_file safe_load file =
     rbind (load_yaml_config safe_load file) (\<lambda>data.
     rbind (mapping_of ''get'' data) (\<lambda>d.
     rbind (mapping_of ''items'' (get_or d ''profiles'' (JObj []))) (\<lambda>profiles_data.
       Inr (load_sla_weights (map (\<lambda>(k, j). (k, weights_arguments j)) profiles_data) []))))"

section \<open>The static routing policy\<close>

text \<open>
  The loader returns the two entries as they are. The typed view of a document, \<open>None\<close> for
  entries that are not lists of names, on which the engine would fail later.
\<close>

fun name_list :: "json \<Rightarrow> str list option" where
  "name_list (JArr []) = Some []"
| "name_list (JArr (JStr s # js)) = map_option (Cons s) (name_list (JArr js))"
| "name_list _ = None"

fun override_entries :: "jobj \<Rightarrow> (str, str list) dict option" where
  "override_entries [] = Some []"
| "override_entries ((k, j) # rest) =
     (case (name_list j, override_entries rest) of
        (Some names, Some d) \<Rightarrow> Some ((k, names) # d)
      | _ \<Rightarrow> None)"

definition policy_of_document :: "jobj \<Rightarrow> StaticPolicy option" where
  "policy_of_document d =
     (case (case dget d ''default_fallback_chain'' of None \<Rightarrow> Some None | Some j \<Rightarrow> map_option Some (name_list j),
            case dget d ''residency_overrides'' of
              None \<Rightarrow> Some None | Some (JObj os) \<Rightarrow> map_option Some (override_entries os) | Some _ \<Rightarrow> None) of
        (Some chain, Some overrides) \<Rightarrow> Some (load_static_routing_policy chain overrides)
      | _ \<Rightarrow> None)"

section \<open>What the files give\<close>

text \<open>A missing file, an empty one and one without profiles: every class keeps its default weights.\<close>

lemma no_profiles_defaults:
  assumes "file = None \<or> (\<exists>f data. file = Some f \<and> safe_load f = Inr data \<and> \<not> json_truthy data)"
  shows "load_sla_weights_from_file safe_load file = Inr [] \<and> get_sla_weights c (Some []) = the (map_of DEFAULT_SLA_PROFILES c)"
  using assms by (cases c) (auto simp: load_sla_weights_from_file_def load_yaml_config_def mapping_of_def
      get_or_def get_sla_weights_def DEFAULT_SLA_PROFILES_def)

text \<open>The numbers of an entry are floats.\<close>

definition document_floats :: "json \<Rightarrow> bool" where
  "document_floats j \<longleftrightarrow> (\<forall>d k x. j = JObj d \<longrightarrow> (k, JFloat x) \<in> set d \<longrightarrow> is_float x)"

lemma weight_field_float:
  assumes "document_floats (JObj d)" "weight_field d k = Some x"
  shows "is_float x"
  using assms by (auto simp: weight_field_def document_floats_def split: option.splits
      elim!: weight_value.elims dest!: map_of_SomeD)

lemma weights_arguments_float:
  assumes "document_floats j" "weights_arguments j = Some (a, b, c, d, e)"
  shows "is_float a \<and> is_float b \<and> is_float c \<and> is_float d \<and> is_float e"
  using assms by (cases j) (auto simp: weights_arguments_def intro: weight_field_float split: option.splits)

lemma load_yaml_configD:
  assumes "load_yaml_config safe_load file = Inr (JObj d)" "d \<noteq> []"
  obtains f where "file = Some f" "safe_load f = Inr (JObj d)"
  using assms by (auto simp: load_yaml_config_def rbind_Inr_iff split: option.splits if_splits)

lemma load_sla_weights_from_fileD:
  assumes "load_sla_weights_from_file safe_load file = Inr profiles"
  obtains ps where "profiles = load_sla_weights (map (\<lambda>(k, j). (k, weights_arguments j)) ps) []"
    and "ps = [] \<or> (\<exists>f d. file = Some f \<and> safe_load f = Inr (JObj d) \<and> dget d ''profiles'' = Some (JObj ps))"
proof -
  obtain data d ps where d: "load_yaml_config safe_load file = Inr data" "mapping_of ''get'' data = Inr d"
      "mapping_of ''items'' (get_or d ''profiles'' (JObj [])) = Inr ps"
    and p: "profiles = load_sla_weights (map (\<lambda>(k, j). (k, weights_arguments j)) ps) []"
    using assms by (auto simp: load_sla_weights_from_file_def rbind_Inr_iff)
  have data: "data = JObj d" using d(2) by (simp add: mapping_of_def split: json.splits)
  have j: "get_or d ''profiles'' (JObj []) = JObj ps" using d(3) by (simp add: mapping_of_def split: json.splits)
  show ?thesis
  proof (cases "dget d ''profiles''")
    case None
    then show ?thesis using that [OF p] j by (simp add: get_or_def)
  next
    case (Some v)
    then have "v = JObj ps" "d \<noteq> []" using j by (auto simp: get_or_def)
    then show ?thesis using that [OF p] Some load_yaml_configD [OF d(1) [unfolded data]] by metis
  qed
qed

text \<open>Whatever the file holds, the profiles that are loaded are validated.\<close>

lemma loaded_from_file_valid:
  assumes "load_sla_weights_from_file safe_load file = Inr profiles"
    and "\<And>f d ps k j. file = Some f \<Longrightarrow> safe_load f = Inr (JObj d) \<Longrightarrow> dget d ''profiles'' = Some (JObj ps) \<Longrightarrow>
      (k, j) \<in> set ps \<Longrightarrow> document_floats j"
  shows "profiles_ok profiles"
proof -
  obtain ps where l: "profiles = load_sla_weights (map (\<lambda>(k, j). (k, weights_arguments j)) ps) []"
    and ps: "ps = [] \<or> (\<exists>f d. file = Some f \<and> safe_load f = Inr (JObj d) \<and> dget d ''profiles'' = Some (JObj ps))"
    using load_sla_weights_from_fileD [OF assms(1)] by blast
  have "\<forall>(k, ws)\<in>set (map (\<lambda>(k, j). (k, weights_arguments j)) ps). \<forall>(a, b, c, d, e)\<in>set_option ws.
      is_float a \<and> is_float b \<and> is_float c \<and> is_float d \<and> is_float e"
    using ps assms(2) by (force dest: weights_arguments_float [OF _ sym])
  then show ?thesis using loaded_profiles_valid by (simp add: l)
qed

text \<open>The documents of the files in \<open>config/\<close>.\<close>

definition shipped_weights :: jobj where
  "shipped_weights = [(''profiles'', JObj
     [(''real_time'', JObj [(''w_lat'', JFloat (pct 50)), (''w_bw'', JFloat (pct 15)), (''w_cmp'', JFloat (pct 15)),
         (''w_queue'', JFloat (pct 15)), (''w_cost'', JFloat (pct 5))]),
      (''interactive'', JObj [(''w_lat'', JFloat (pct 35)), (''w_bw'', JFloat (pct 15)), (''w_cmp'', JFloat (pct 20)),
         (''w_queue'', JFloat (pct 15)), (''w_cost'', JFloat (pct 15))]),
      (''batch'', JObj [(''w_lat'', JFloat (pct 10)), (''w_bw'', JFloat (pct 10)), (''w_cmp'', JFloat (pct 20)),
         (''w_queue'', JFloat (pct 20)), (''w_cost'', JFloat (pct 40))])])]"

definition shipped_routing :: jobj where
  "shipped_routing =
     [(''default_fallback_chain'', JArr [JStr ''edge-frankfurt-1'', JStr ''edge-london-1'', JStr ''cloud-aws-eu-central'']),
      (''residency_overrides'', JObj
         [(''eu-only'', JArr [JStr ''edge-frankfurt-1'', JStr ''cloud-aws-eu-central'']),
          (''us-only'', JArr [JStr ''cloud-aws-us-east''])])]"

lemma mk_SLAWeights_accepts:
  assumes "weights_ok w"
  shows "mk_SLAWeights (w_lat w) (w_bw w) (w_cmp w) (w_queue w) (w_cost w) = Inr w"
  using assms by (cases w) (simp add: mk_SLAWeights_def weights_ok_def validate_sum_def not_less)

text \<open>The shipped weights are the built-in defaults, and the loader accepts all three profiles.\<close>

lemma shipped_weights_loaded:
  "safe_load f = Inr (JObj shipped_weights) \<Longrightarrow> load_sla_weights_from_file safe_load (Some f) = Inr DEFAULT_SLA_PROFILES"
  using real_time_ok [THEN mk_SLAWeights_accepts] interactive_ok [THEN mk_SLAWeights_accepts]
    batch_ok [THEN mk_SLAWeights_accepts]
  by (simp add: load_sla_weights_from_file_def load_yaml_config_def mapping_of_def get_or_def shipped_weights_def
      weights_arguments_def weight_field_def DEFAULT_SLA_PROFILES_def sla_of_def)

text \<open>The shipped policy adds one node to the chain the loader assumes without a file.\<close>

lemma shipped_policy_read:
  "policy_of_document shipped_routing =
     Some \<lparr>default_fallback_chain = [''edge-frankfurt-1'', ''edge-london-1'', ''cloud-aws-eu-central''],
       residency_overrides = [(''eu-only'', [''edge-frankfurt-1'', ''cloud-aws-eu-central'']), (''us-only'', [''cloud-aws-us-east''])]\<rparr>"
  by (simp add: policy_of_document_def shipped_routing_def load_static_routing_policy_def)

end
