(* ===== verification/Availability.thy ===== *)
theory Availability
  imports EndToEnd
begin

text \<open>
  What a cluster with dead nodes still does: a submission to the gateway whose chain starts
  with nodes that cannot execute and goes on with one that can. The lemmas follow it the way
  \<open>EndToEnd\<close> follows a task that is refused: node, attempt, chain, gateway.
\<close>

section \<open>Where a call goes\<close>

definition address :: "TaskScheduler \<Rightarrow> str \<Rightarrow> str option" where
  "address s c = (case get_stub c s of Inl ex \<Rightarrow> None | Inr (target, s1) \<Rightarrow> Some target)"

lemma get_stub_frame:
  assumes "get_stub c s = Inr (target, s1)"
  shows "address s1 n = address s n" "sc_scheduler_id s1 = sc_scheduler_id s" "sc_signing_key s1 = sc_signing_key s"
    "sc_lease_id s1 = sc_lease_id s" "sc_dual_required s1 = sc_dual_required s" "sc_is_leader s1 = sc_is_leader s"
  using assms by (auto simp: get_stub_def address_def Let_def split: option.splits if_splits elim!: truthyE)

lemma address_get_stub: "address s c = Some target \<Longrightarrow> \<exists>s1. get_stub c s = Inr (target, s1)"
  by (auto simp: address_def split: sum.splits)

section \<open>Dead and ready nodes\<close>

text \<open>
  A node that cannot execute: it is not registered, has no server at its address, or its
  worker is offline or fails (and has no result for the task from before).
\<close>

definition node_down :: "TaskScheduler \<Rightarrow> (str, InferenceWorker) dict \<Rightarrow> TaskRequest \<Rightarrow> str \<Rightarrow> bool" where
  "node_down s servers t c \<longleftrightarrow>
     (case address s c of None \<Rightarrow> True
      | Some target \<Rightarrow> (case dget servers target of None \<Rightarrow> True
         | Some w \<Rightarrow> fresh_for t w \<and> (n_is_offline (w_node w) \<or> n_fail_execution (w_node w))))"

definition node_ready :: "TaskScheduler \<Rightarrow> (str, InferenceWorker) dict \<Rightarrow> TaskRequest \<Rightarrow> str \<Rightarrow> str \<Rightarrow> InferenceWorker \<Rightarrow> bool" where
  "node_ready s servers t c target w \<longleftrightarrow> address s c = Some target \<and> dget servers target = Some w \<and>
     fresh_for t w \<and> \<not> n_is_offline (w_node w) \<and> \<not> n_fail_execution (w_node w)"

text \<open>The leader's lease is valid whenever a node checks it, and its calls arrive in time.\<close>

definition lease_holds :: "(str \<Rightarrow> SignedTaskEnvelope \<Rightarrow> node_inputs) \<Rightarrow> TaskScheduler \<Rightarrow> etcd \<Rightarrow> bool" where
  "lease_holds nis s e \<longleftrightarrow> (\<forall>target req. fst (is_lease_valid (sc_lease_id s) (ni_now_lease (nis target req)) e))"

definition in_time :: "(str \<Rightarrow> SignedTaskEnvelope \<Rightarrow> node_inputs) \<Rightarrow> dispatch_inputs \<Rightarrow> TaskRequest \<Rightarrow> bool" where
  "in_time nis di t \<longleftrightarrow> (\<forall>target req n. ni_now_expiry (nis target req) \<le>
     fadd (fadd (di_now di n) (fdiv (t_max_latency_ms t) 1000)) 10)"

definition scheduler_known :: "platform \<Rightarrow> TaskScheduler \<Rightarrow> etcd \<Rightarrow> bool" where
  "scheduler_known pl s e \<longleftrightarrow> \<not> pl_dual pl \<and> \<not> sc_dual_required s \<and> ed_pem (pl_crypto pl) (sc_signing_key s) \<noteq> [] \<and>
     etcd_get (key_scheduler (sc_scheduler_id s)) e = Some (ed_pem (pl_crypto pl) (sc_signing_key s))"

lemma lease_kept: "fst (is_lease_valid l now e) \<Longrightarrow> is_lease_valid l now e = (True, e)"
  by (auto simp: is_lease_valid_def split: option.splits if_splits)

text \<open>Two schedulers that differ in their open channels only.\<close>

definition same_scheduler :: "TaskScheduler \<Rightarrow> TaskScheduler \<Rightarrow> bool" where
  "same_scheduler s s1 \<longleftrightarrow> address s1 = address s \<and> sc_scheduler_id s1 = sc_scheduler_id s \<and>
     sc_signing_key s1 = sc_signing_key s \<and> sc_lease_id s1 = sc_lease_id s \<and>
     sc_dual_required s1 = sc_dual_required s"

lemma same_scheduler_refl [simp]: "same_scheduler s s"
  by (simp add: same_scheduler_def)

lemma same_scheduler_trans: "same_scheduler a b \<Longrightarrow> same_scheduler b c \<Longrightarrow> same_scheduler a c"
  by (simp add: same_scheduler_def)

lemma same_scheduler_stub: "get_stub c s = Inr (target, s1) \<Longrightarrow> same_scheduler s s1"
  using get_stub_frame by (auto simp: same_scheduler_def)

lemma same_scheduler_facts:
  assumes "same_scheduler s s1"
  shows "node_down s1 servers t c = node_down s servers t c"
    "node_ready s1 servers t c target w = node_ready s servers t c target w"
    "lease_holds nis s1 e = lease_holds nis s e" "scheduler_known pl s1 e = scheduler_known pl s e"
  using assms by (simp_all add: same_scheduler_def node_down_def node_ready_def lease_holds_def scheduler_known_def)

section \<open>One attempt\<close>

lemma attempt_down:
  assumes c: "channel_ok pl di nis" and t: "is_float (t_max_latency_ms t)"
    and d: "resolve_digest (ftext (pl_crypto pl)) t e = JStr digest" and l: "lease_holds nis s e"
    and n: "node_down s servers t c"
  shows "\<exists>ex s1. attempt pl (cluster_network pl ctx nis) di t n c (s, e, servers) = (Inl ex, s1, e, servers) \<and>
    same_scheduler s s1"
proof (cases "get_stub c s")
  case (Inl err)
  then show ?thesis by (simp add: attempt_def)
next
  case (Inr p)
  obtain target s1 where p: "get_stub c s = Inr (target, s1)" using Inr by (cases p) auto
  have a: "address s c = Some target" by (simp add: address_def p)
  let ?req = "sign_envelope pl s1 t c (JStr digest) (di_now di n) (di_random di n)"
  let ?ni = "nis target ?req"
  show ?thesis
  proof (cases "dget servers target")
    case None
    then show ?thesis using same_scheduler_stub [OF p]
      by (auto simp: attempt_def p d Let_def cluster_network_def)
  next
    case (Some w)
    then have w: "fresh_for t w" "n_is_offline (w_node w) \<or> n_fail_execution (w_node w)"
      using n by (auto simp: node_down_def a)
    obtain x w1 e1 where x: "ExecuteTask pl ctx ?req ?ni w e = (x, w1, e1)" by (metis surj_pair)
    have lease: "is_lease_valid (te_leader_lease_id ?req) (ni_now_lease ?ni) e = (True, e)"
      using l get_stub_frame(4) [OF p]
      by (intro lease_kept) (simp add: lease_holds_def sign_envelope_def Let_def case_prod_beta)
    obtain ex where ex: "execute pl (request_of t c digest) e (ni_perf0 ?ni) (ni_perf1 ?ni) w = Inl ex"
      using w by (auto simp: execute_def request_of_def fresh_for_def Let_def)
    have laws: "signing_ok (pl_crypto pl)" "aead_ok (pl_crypto pl)" "float_text_ok (ftext (pl_crypto pl))"
      "rnd_ok (di_random di n)" "rnd_ok (ni_random ?ni)" "worker_ok w"
      using c w(1) by (simp_all add: channel_ok_def fresh_for_def)
    have k: "w1 = w" "e1 = e" "\<And>resp. x = Inr resp \<Longrightarrow> \<exists>ex. process_response pl s1 c (JStr digest) resp = Inl ex"
      using task_failed [OF laws(1-5) t laws(6) refl _ ex x] by (auto simp: lease)
    show ?thesis
      using k Some same_scheduler_stub [OF p]
      by (cases x) (auto simp: attempt_def p d Let_def cluster_network_def x)
  qed
qed


text \<open>The result a ready node computes, and the worker that remembers it.\<close>

definition fresh_result ::
    "TaskRequest \<Rightarrow> str \<Rightarrow> str \<Rightarrow> ApprovedArtifactRecord \<Rightarrow> pyfloat \<Rightarrow> InferenceWorker \<Rightarrow> ExecutionResult" where
  "fresh_result t c digest rcd dur w = execution_result (request_of t c digest) rcd dur (w_node w)"

definition remembers :: "TaskRequest \<Rightarrow> ExecutionResult \<Rightarrow> InferenceWorker \<Rightarrow> InferenceWorker" where
  "remembers t res w = w\<lparr>w_processed := dset (t_idempotency_key t) res (w_processed w)\<rparr>"

lemma output_payload_ok: "json_ok (JObj (output_payload r rcd (exec_duration_ms t0 t1) node))"
  by (simp add: output_payload_def list_all_iff)

lemma attempt_ready:
  assumes c: "channel_ok pl di nis" and t: "is_float (t_max_latency_ms t)" and i: "in_time nis di t"
    and d: "resolve_digest (ftext (pl_crypto pl)) t e = JStr digest" and l: "lease_holds nis s e"
    and k: "scheduler_known pl s e" "authorize_scheduler (extract_spiffe_id ctx)"
    and n: "node_ready s servers t c target w"
    and m: "may_execute (pl_crypto pl) (pl_codecs pl) (t_model_id t) (Some digest) e rcd" "ar_digest rcd \<noteq> []"
  shows "\<exists>dur s1. attempt pl (cluster_network pl ctx nis) di t k c (s, e, servers) =
     (Inr ((fresh_result t c digest rcd dur w)\<lparr>x_task_id := t_task_id t, x_node_id := c, x_error := Some []\<rparr>),
      s1, e, dset target (remembers t (fresh_result t c digest rcd dur w) w) servers)"
proof -
  obtain s1 where g: "get_stub c s = Inr (target, s1)" using n by (auto simp: node_ready_def dest: address_get_stub)
  let ?req = "sign_envelope pl s1 t c (JStr digest) (di_now di k) (di_random di k)"
  let ?ni = "nis target ?req"
  let ?dur = "exec_duration_ms (ni_perf0 ?ni) (ni_perf1 ?ni)"
  let ?res = "fresh_result t c digest rcd ?dur w"
  have w: "worker_ok w" "dget (w_processed w) (t_idempotency_key t) = None" "\<not> n_is_offline (w_node w)"
    "\<not> n_fail_execution (w_node w)" "dget servers target = Some w"
    using n by (auto simp: node_ready_def fresh_for_def)
  have x: "execute pl (request_of t c digest) e (ni_perf0 ?ni) (ni_perf1 ?ni) w = Inr (?res, remembers t ?res w)"
    using w m(1) by (simp add: execute_def Let_def verify_iff [symmetric] request_of_def fresh_result_def remembers_def)
  have out: "x_output ?res = Some (output_payload (request_of t c digest) rcd ?dur (w_node w))"
    "output_payload (request_of t c digest) rcd ?dur (w_node w) \<noteq> []" "x_model_digest ?res = Some (ar_digest rcd)"
    "x_error ?res = None"
    by (simp_all add: fresh_result_def execution_result_def output_payload_def)
  have laws: "signing_ok (pl_crypto pl)" "aead_ok (pl_crypto pl)" "float_text_ok (ftext (pl_crypto pl))"
    "rnd_ok (di_random di k)" "rnd_ok (ni_random ?ni)"
    using c by (simp_all add: channel_ok_def)
  have kn: "\<not> pl_dual pl" "\<not> sc_dual_required s" "ed_pem (pl_crypto pl) (sc_signing_key s) \<noteq> []"
    "etcd_get (key_scheduler (sc_scheduler_id s)) e = Some (ed_pem (pl_crypto pl) (sc_signing_key s))"
    using k(1) by (simp_all add: scheduler_known_def)
  have "attempt pl (node_network pl ctx ?ni) di t k c (s, e, w) =
      (Inr (?res\<lparr>x_task_id := t_task_id t, x_node_id := c, x_error := Some (or_empty (x_error ?res))\<rparr>),
       s1, e, remembers t ?res w)"
    by (rule attempt_served [OF laws w(1) kn(1,2) g k(2) kn(4,3) _ _ t d x out(1) output_payload_ok out(2,3) m(2)])
      (use i l in \<open>simp_all add: in_time_def lease_holds_def lease_kept\<close>)
  then have "attempt pl (cluster_network pl ctx nis) di t k c (s, e, servers) =
      (Inr (?res\<lparr>x_task_id := t_task_id t, x_node_id := c, x_error := Some (or_empty (x_error ?res))\<rparr>),
       s1, e, dset target (remembers t ?res w) servers)"
    by (auto simp: attempt_def g d Let_def node_network_def cluster_network_def w(5) split: prod.splits sum.splits)
  then show ?thesis unfolding out(4) by (auto simp: or_empty_def)
qed

section \<open>The chain and the gateway\<close>

lemma try_candidates_masks:
  assumes c: "channel_ok pl di nis" and t: "is_float (t_max_latency_ms t)" and i: "in_time nis di t"
    and d: "resolve_digest (ftext (pl_crypto pl)) t e = JStr digest"
    and a: "authorize_scheduler (extract_spiffe_id ctx)"
    and m: "may_execute (pl_crypto pl) (pl_codecs pl) (t_model_id t) (Some digest) e rcd" "ar_digest rcd \<noteq> []"
  shows "lease_holds nis s e \<Longrightarrow> scheduler_known pl s e \<Longrightarrow> \<forall>x\<in>set dead. node_down s servers t x \<Longrightarrow>
    node_ready s servers t c target w \<Longrightarrow>
    \<exists>dur s1. try_candidates pl (cluster_network pl ctx nis) di t chain (dead @ c # cs) k (s, e, servers) =
     (Inr ((fresh_result t c digest rcd dur w)\<lparr>x_task_id := t_task_id t, x_node_id := c, x_error := Some []\<rparr>,
        1 < k + length dead + 1, k + length dead + 1),
      s1, e, dset target (remembers t (fresh_result t c digest rcd dur w) w) servers)"
proof (induction dead arbitrary: k s)
  case Nil
  then show ?case using attempt_ready [OF c t i d Nil(1,2) a Nil(4) m, of "k + 1"] by (auto simp: Let_def)
next
  case (Cons x dead)
  obtain ex s1 where x: "attempt pl (cluster_network pl ctx nis) di t (k + 1) x (s, e, servers) = (Inl ex, s1, e, servers)"
    and same: "same_scheduler s s1"
    using attempt_down [OF c t d Cons.prems(1), of servers x] Cons.prems(3) by fastforce
  note f = same_scheduler_facts [OF same]
  have "\<exists>dur s2. try_candidates pl (cluster_network pl ctx nis) di t chain (dead @ c # cs) (k + 1) (s1, e, servers) =
     (Inr ((fresh_result t c digest rcd dur w)\<lparr>x_task_id := t_task_id t, x_node_id := c, x_error := Some []\<rparr>,
        1 < k + 1 + length dead + 1, k + 1 + length dead + 1),
      s2, e, dset target (remembers t (fresh_result t c digest rcd dur w) w) servers)"
    using Cons.prems by (intro Cons.IH) (simp_all add: f)
  then show ?case using x by (auto simp: Let_def)
qed

lemma dispatch_masks:
  assumes c: "channel_ok pl di nis" and t: "is_float (t_max_latency_ms t)" and i: "in_time nis di t"
    and d: "resolve_digest (ftext (pl_crypto pl)) t e = JStr digest"
    and a: "authorize_scheduler (extract_spiffe_id ctx)"
    and m: "may_execute (pl_crypto pl) (pl_codecs pl) (t_model_id t) (Some digest) e rcd" "ar_digest rcd \<noteq> []"
    and s: "sc_is_leader s" "fst (is_lease_valid (sc_lease_id s) now e)" "lease_holds nis s e" "scheduler_known pl s e"
    and ch: "dispatch_chain decision = dead @ c # cs" "\<forall>x\<in>set dead. node_down s servers t x"
      "node_ready s servers t c target w"
  shows "\<exists>dur s1. dispatch pl (cluster_network pl ctx nis) di now t decision (s, e, servers) =
     (Inr ((fresh_result t c digest rcd dur w)\<lparr>x_task_id := t_task_id t, x_node_id := c, x_error := Some []\<rparr>,
        dead \<noteq> [], length dead + 1),
      s1, e, dset target (remembers t (fresh_result t c digest rcd dur w) w) servers)"
  using try_candidates_masks [OF c t i d a m s(3,4) ch(2,3), of "dead @ c # cs" cs 0] s(1,2)
  by (simp add: dispatch_def check_leadership_def lease_kept Let_def ch(1))

section \<open>Properties\<close>

text \<open>
  C15: a cluster with dead nodes still answers. An authorised task is submitted to a gateway
  whose scheduler leads. The first nodes of the chain are dead (not registered, without a
  server, offline or failing); the next one is up; the registry admits the artifact; the
  leader's lease holds, the calls arrive in time, and the policy does not demand dual signatures.
  Then the submission is answered by that
  node, with status success and the registered digest, marked as a fallback exactly when there
  were dead nodes before it, with their number plus one as the attempts; the node remembers
  the result under the task's idempotency key, and no other worker changes.
\<close>

theorem dead_nodes_masked:
  assumes "channel_ok pl (si_dispatch si) nis" "in_time nis (si_dispatch si) task" "is_float (t_max_latency_ms task)"
    and "authorize_scheduler (extract_spiffe_id ctx)" "verify_gateway_token (pl_environ pl) token = Inr u"
    and "audit_shadow (pl_crypto pl) io si task g (fst (shadow_scoring si task g)) (gw_ledger g, e) = (lg1, e1)"
    and "sc_is_leader (gw_scheduler g)" "scheduler_known pl (gw_scheduler g) e1"
    and "fst (is_lease_valid (sc_lease_id (gw_scheduler g)) (si_dispatch_time si) e1)" "lease_holds nis (gw_scheduler g) e1"
    and "dispatch_chain (decision_of si task g) = dead @ c # cs" "\<forall>x\<in>set dead. node_down (gw_scheduler g) servers task x"
    and "node_ready (gw_scheduler g) servers task c target w"
    and "resolve_digest (ftext (pl_crypto pl)) task e1 = JStr digest"
    and "may_execute (pl_crypto pl) (pl_codecs pl) (t_model_id task) (Some digest) e1 rcd" "ar_digest rcd \<noteq> []"
  shows "\<exists>dur g' e'. submit_inference_task pl io (cluster_network pl ctx nis) si token task (g, e, servers) =
     (Inr (response_envelope (si_event_id si) (t_task_id task) (decision_of si task g)
        ((fresh_result task c digest rcd dur w)\<lparr>x_task_id := t_task_id task, x_node_id := c, x_error := Some []\<rparr>)
        (dead \<noteq> []) (int (length dead + 1))),
      g', e', dset target (remembers task (fresh_result task c digest rcd dur w) w) servers)"
proof -
  obtain dur s1 where d: "dispatch pl (cluster_network pl ctx nis) (si_dispatch si) (si_dispatch_time si) task
      (decision_of si task g) (gw_scheduler g, e1, servers) =
     (Inr ((fresh_result task c digest rcd dur w)\<lparr>x_task_id := t_task_id task, x_node_id := c, x_error := Some []\<rparr>,
        dead \<noteq> [], length dead + 1),
      s1, e1, dset target (remembers task (fresh_result task c digest rcd dur w) w) servers)"
    using dispatch_masks [OF assms(1,3,2,14,4,15,16,7,9,10,8,11,12,13)] by blast
  obtain resp g' e' w' where sub: "submit_inference_task pl io (cluster_network pl ctx nis) si token task (g, e, servers)
      = (resp, g', e', w')" by (metis prod_cases4)
  from submit_authorized [OF assms(5,6) d sub] show ?thesis using sub by auto
qed


text \<open>
  An outage: the decision engine is disabled, so the static policy decides; the first node of
  its chain is not registered, the second one runs the sample worker.
\<close>

definition outage_gateway :: gateway where
  "outage_gateway = sample_gateway\<lparr>gw_scheduler := sample_known_scheduler
       \<lparr>sc_node_targets := [(''cloud-aws-eu-central'', ''host:1'')]\<rparr>, gw_decision_engine_enabled := False\<rparr>"

abbreviation outage_task :: TaskRequest where
  "outage_task \<equiv> sample_eu_task\<lparr>t_model_digest := Some sample_digest\<rparr>"

lemma shadow_scoring_policy: "static_policy (snd (shadow_scoring si task g)) = static_policy (gw_engine g)"
  by (auto simp: shadow_scoring_def evaluate_placement_def Let_def rbind_Inr_iff split: sum.splits if_splits prod.splits)

lemma outage_chain:
  "dispatch_chain (decision_of sample_submit outage_task outage_gateway) = [''edge-frankfurt-1''] @ ''cloud-aws-eu-central'' # []"
proof -
  have low: "lower ''eu-ONLY'' = ''eu-only''" by code_simp
  have ch: "fallback_chain_for en outage_task = [''edge-frankfurt-1'', ''cloud-aws-eu-central'']"
    if "static_policy en = static_policy sample_engine" for en
    by (simp add: fallback_chain_for_def that) (simp add: that low dget_or_def sample_task_def sample_engine_def load_static_routing_policy_def)
  have "static_policy (snd (shadow_scoring sample_submit outage_task outage_gateway)) = static_policy sample_engine"
    by (simp add: shadow_scoring_policy) (simp add: outage_gateway_def sample_gateway_def)
  note f = ch [OF this]
  have "\<not> gw_shadow_mode_enabled outage_gateway" "\<not> gw_decision_engine_enabled outage_gateway"
    by (simp_all add: outage_gateway_def sample_gateway_def)
  then show ?thesis
    by (simp add: decision_of_def routing_decision_def case_prod_beta get_static_fallback_decision_def Let_def f dispatch_chain_def)
qed

theorem dead_nodes_masked_witness:
  "\<exists>resp g' e' w'. submit_inference_task gateway_platform toy_io
       (cluster_network gateway_platform sample_context (\<lambda>target req. sample_inputs)) sample_submit ''secret'' outage_task
       (outage_gateway, sample_cluster, [(''host:1'', new_InferenceWorker sample_worker_node)]) =
     (Inr resp, g', e', [(''host:1'', w')]) \<and> dget (w_processed w') ''k1'' \<noteq> None"
proof -
  let ?w = "new_InferenceWorker sample_worker_node"
  let ?nis = "\<lambda>(target::str) (req::SignedTaskEnvelope). sample_inputs"
  have c: "channel_ok gateway_platform (si_dispatch sample_submit) ?nis"
    using toy_ok by (simp add: channel_ok_def gateway_platform_def sample_platform_def sample_submit_def
        sample_dispatch_def sample_inputs_def rnd_ok_def sample_random_def)
  have t: "in_time ?nis (si_dispatch sample_submit) outage_task"
  proof -
    have "1 \<le> fadd (fadd 0 (fdiv 100 1000)) 10" by code_simp
    then show ?thesis by (simp add: in_time_def sample_inputs_def sample_dispatch_def sample_submit_def sample_task_def)
  qed
  have f: "is_float (t_max_latency_ms outage_task)" using fl_of_int [of 100] by (simp add: sample_task_def is_float_def)
  have a: "authorize_scheduler (extract_spiffe_id sample_context)"
    by (simp add: sample_context_def extract_spiffe_id_def startswith_def authorize_scheduler_def)
  have s: "gw_scheduler outage_gateway = sample_known_scheduler\<lparr>sc_node_targets := [(''cloud-aws-eu-central'', ''host:1'')]\<rparr>"
    "\<not> gw_shadow_mode_enabled outage_gateway"
    by (simp_all add: outage_gateway_def sample_gateway_def)
  have sh: "audit_shadow (pl_crypto gateway_platform) toy_io sample_submit outage_task outage_gateway
      (fst (shadow_scoring sample_submit outage_task outage_gateway)) (gw_ledger outage_gateway, sample_cluster) =
     (gw_ledger outage_gateway, sample_cluster)"
    by (simp add: audit_shadow_def s)
  have lead: "sc_is_leader (gw_scheduler outage_gateway)" by (simp add: s sample_known_scheduler_def)
  have known: "scheduler_known gateway_platform (gw_scheduler outage_gateway) sample_cluster"
    by (simp add: scheduler_known_def s sample_known_scheduler_def sample_cluster_def pl_dual_def dual_required_def
        load_PqcConfig_def getenv_def gateway_platform_def sample_platform_def) (simp add: toy_crypto_def)
  have lease: "fst (is_lease_valid 1 0 sample_cluster)" "fst (is_lease_valid 1 1 sample_cluster)"
    using sample_lease by (auto simp: is_lease_valid_def split: option.splits if_splits)
  have l1: "fst (is_lease_valid (sc_lease_id (gw_scheduler outage_gateway)) (si_dispatch_time sample_submit) sample_cluster)"
    using lease by (simp add: s sample_known_scheduler_def sample_submit_def)
  have l2: "lease_holds ?nis (gw_scheduler outage_gateway) sample_cluster"
    using lease by (simp add: lease_holds_def s sample_known_scheduler_def sample_inputs_def)
  have dead: "\<forall>x\<in>set [''edge-frankfurt-1'']. node_down (gw_scheduler outage_gateway) [(''host:1'', ?w)] outage_task x"
    by (simp add: node_down_def address_def get_stub_def s sample_known_scheduler_def Let_def)
  have ready: "node_ready (gw_scheduler outage_gateway) [(''host:1'', ?w)] outage_task ''cloud-aws-eu-central'' ''host:1'' ?w"
    by (simp add: node_ready_def address_def get_stub_def s sample_known_scheduler_def Let_def fresh_for_def)
      (simp add: new_InferenceWorker_def sample_worker_node_def new_SimulatedNode_def)
  have dig: "resolve_digest (ftext (pl_crypto gateway_platform)) outage_task sample_cluster = JStr sample_digest"
    "ar_digest sample_record = sample_digest" "sample_digest \<noteq> []"
    using sample_fields(4) by (simp_all add: resolve_digest_def json_of_opt_def sample_record_def sample_provenance_def)
  have "verify_artifact_for_execution toy_crypto (one_record_codecs sample_record) ''resnet50'' (Some sample_digest) sample_cluster =
      Inr sample_record"
    unfolding sample_runs [symmetric]
    by (rule verify_frame) (simp_all add: sample_cluster_def etcd_kv.get_put_other)
  then have m: "may_execute (pl_crypto gateway_platform) (pl_codecs gateway_platform) (t_model_id outage_task)
      (Some sample_digest) sample_cluster sample_record"
    by (simp add: verify_iff [symmetric] gateway_platform_def sample_platform_def sample_task_def)
  have ne: "ar_digest sample_record \<noteq> []" using dig by simp
  from dead_nodes_masked [OF c t f a gateway_platform_facts(3) sh lead known l1 l2 outage_chain dead ready dig(1) m ne]
  show ?thesis by (fastforce simp: remembers_def sample_task_def)
qed

end
