(* ===== verification/Logging.thy ===== *)
theory Logging
  imports Json
begin

text \<open>
  The structured logger (\<open>common/logger.py\<close>): \<open>JSONFormatter.format\<close> and \<open>get_logger\<close>.

  A record of Python's \<open>logging\<close> is a record: the text of its UTC time, its milliseconds, its
  attributes (what callers pass as \<open>extra\<close>) as JSON values and the text of its exception. The
  loggers of the process are a map from names to the settings the code touches.
\<close>

section \<open>The formatter\<close>

record log_record =
  lr_gmtime :: str
  lr_msecs :: int
  lr_levelname :: str
  lr_name :: str
  lr_message :: str
  lr_extra :: jobj
  lr_exception :: "str option"

text \<open>The format \<open>03d\<close>.\<close>

definition pad3 :: "int \<Rightarrow> str" where
  "pad3 n = (let s = show_int n in replicate (3 - length s) (CHR ''0'') @ s)"

definition context_attributes :: "str list" where
  "context_attributes =
     [''task_id'', ''node_id'', ''sla_class'', ''decision_latency_ms'', ''event_id'', ''error_code'']"

definition log_entry :: "log_record \<Rightarrow> jobj" where
  "log_entry r =
     [(''timestamp'', JStr (lr_gmtime r @ ''.'' @ pad3 (lr_msecs r) @ ''Z'')),
      (''level'', JStr (lr_levelname r)),
      (''component'', dget_or (lr_extra r) ''component'' (JStr (lr_name r))),
      (''message'', JStr (lr_message r))] @
     List.map_filter (\<lambda>attr. map_option (Pair attr) (dget (lr_extra r) attr)) context_attributes @
     (case lr_exception r of None \<Rightarrow> [] | Some tx \<Rightarrow> [(''exception'', JStr tx)])"

definition format_record :: "float_text \<Rightarrow> log_record \<Rightarrow> str" where
  "format_record ft r = default_dumps ft (JObj (log_entry r))"

section \<open>Loggers\<close>

record logger =
  lo_handlers :: nat
  lo_info_level :: bool
  lo_propagate :: bool

definition fresh_logger :: logger where
  "fresh_logger = \<lparr>lo_handlers = 0, lo_info_level = False, lo_propagate = True\<rparr>"

text \<open>The argument \<open>component\<close> is not used by the code.\<close>

definition get_logger :: "str \<Rightarrow> str option \<Rightarrow> (str \<rightharpoonup> logger) \<Rightarrow> logger \<times> (str \<rightharpoonup> logger)" where
  "get_logger name component loggers =
     (let lo = (case loggers name of None \<Rightarrow> fresh_logger | Some lo \<Rightarrow> lo);
          lo1 = (if lo_handlers lo = 0
                 then lo\<lparr>lo_handlers := 1, lo_info_level := True, lo_propagate := False\<rparr> else lo)
      in (lo1, loggers(name \<mapsto> lo1)))"

section \<open>One record, one line\<close>

definition printable :: "str \<Rightarrow> bool" where
  "printable s \<longleftrightarrow> list_all (\<lambda>c. 32 \<le> (of_char c :: nat) \<and> (of_char c :: nat) \<le> 126) s"

lemma printable_simps [simp]:
  "printable []" "printable (a @ b) \<longleftrightarrow> printable a \<and> printable b"
  "printable (c # s) \<longleftrightarrow> 32 \<le> (of_char c :: nat) \<and> (of_char c :: nat) \<le> 126 \<and> printable s"
  by (auto simp: printable_def)

lemma printable_concat: "(\<And>x. x \<in> set xs \<Longrightarrow> printable x) \<Longrightarrow> printable (concat xs)"
  by (induction xs) auto

lemma printable_hex_digit: "printable [hex_digit n]"
proof -
  have "\<forall>c\<in>set hex_digits. 32 \<le> (of_char c :: nat) \<and> (of_char c :: nat) \<le> 126" by code_simp
  then show ?thesis using hex_digit_cases [of n] by simp
qed

lemma printable_esc: "printable (esc_char c)"
  using printable_hex_digit by (simp add: esc_char_def Let_def)

lemma printable_json_str: "printable (json_str s)"
  by (auto simp: json_str_def quote_def intro!: printable_concat printable_esc)

lemma printable_show_int: "printable (show_int i)"
proof -
  have "is_num_char c \<Longrightarrow> 32 \<le> (of_char c :: nat) \<and> (of_char c :: nat) \<le> 126" for c
    by (auto simp: is_num_char_def is_digit_def)
  then show ?thesis using show_int_chars(1) [of i] by (auto simp: printable_def list_all_iff)
qed

lemma printable_join: "printable sep \<Longrightarrow> (\<And>x. x \<in> set xs \<Longrightarrow> printable x) \<Longrightarrow> printable (join sep xs)"
  by (cases xs) (auto simp: join_def intro!: printable_concat)

lemma printable_dumps:
  assumes "\<And>x. printable (frepr ft x)" "printable sep" "printable colon"
  shows "printable (dumps ft sep colon j)"
proof (induction j)
  case (JArr js)
  then show ?case using assms by (auto intro!: printable_join)
next
  case (JObj kvs)
  have "printable (json_str (fst kv) @ colon @ dumps ft sep colon (snd kv))" if "kv \<in> set kvs" for kv
    using JObj that assms(3) printable_json_str by (cases kv) auto
  then show ?case using assms by (auto intro!: printable_join)
qed (use assms printable_json_str printable_show_int in auto)

lemma log_entry_ok:
  assumes "is_dict (lr_extra r)" "list_all (json_ok \<circ> snd) (lr_extra r)"
  shows "json_ok (JObj (log_entry r))"
proof -
  have v: "dget (lr_extra r) k = Some j \<Longrightarrow> json_ok j" for k j
    using assms(2) map_of_SomeD by (fastforce simp: list_all_iff)
  have "dget_or (lr_extra r) ''component'' (JStr (lr_name r)) = j \<Longrightarrow> json_ok j" for j
    using v by (auto simp: dget_or_def split: option.splits)
  then show ?thesis
    using v by (auto simp: log_entry_def context_attributes_def map_filter_simps split: option.splits)
qed


text \<open>Reading a log: the lines that end with a newline.\<close>

fun lines_of :: "str \<Rightarrow> str \<Rightarrow> str list" where
  "lines_of acc [] = (if acc = [] then [] else [acc])"
| "lines_of acc (c # cs) = (if c = CHR 0x0A then acc # lines_of [] cs else lines_of (acc @ [c]) cs)"

lemma lines_of_line: "CHR 0x0A \<notin> set x \<Longrightarrow> lines_of acc (x @ CHR 0x0A # rest) = (acc @ x) # lines_of [] rest"
  by (induction x arbitrary: acc) auto

lemma lines_of_concat:
  "\<forall>x\<in>set xs. CHR 0x0A \<notin> set x \<Longrightarrow> lines_of [] (concat (map (\<lambda>x. x @ [CHR 0x0A]) xs)) = xs"
  by (induction xs) (simp_all add: lines_of_line)

lemma printable_no_newline: "printable s \<Longrightarrow> CHR 0x0A \<notin> set s"
  by (auto simp: printable_def list_all_iff)

definition record_ok :: "log_record \<Rightarrow> bool" where
  "record_ok r \<longleftrightarrow> is_dict (lr_extra r) \<and> list_all (json_ok \<circ> snd) (lr_extra r)"

text \<open>However often a logger is asked for, it has one handler: each record is written once.\<close>

lemma get_logger_once:
  assumes "get_logger name component loggers = (lo, loggers1)" "get_logger name component1 loggers1 = (lo2, loggers2)"
  shows "lo2 = lo \<and> loggers2 = loggers1 \<and> (loggers name = None \<longrightarrow> lo_handlers lo = 1 \<and> lo_info_level lo \<and> \<not> lo_propagate lo)"
  using assms by (auto simp: get_logger_def Let_def fresh_logger_def split: option.splits)

section \<open>The request log of the gateway\<close>

text \<open>
  The middleware \<open>log_requests\<close> (\<open>gateway/app.py\<close>): one record per request, after its answer.
  \<open>fixed2\<close> is the format \<open>.2f\<close>, the clock \<open>perf_counter\<close> is read twice.
\<close>

definition log_requests ::
    "(pyfloat \<Rightarrow> str) \<Rightarrow> pyfloat \<Rightarrow> pyfloat \<Rightarrow> str \<Rightarrow> int \<Rightarrow> str \<Rightarrow> str \<Rightarrow> int \<Rightarrow> log_record" where
  "log_requests fixed2 start_time end_time gmtime msecs http_method path status_code =
     (let duration_ms = fmul (fsub end_time start_time) 1000 in
      \<lparr>lr_gmtime = gmtime, lr_msecs = msecs, lr_levelname = ''INFO'', lr_name = ''gateway'',
       lr_message = http_method @ '' '' @ path @ '' completed with status '' @ show_int status_code @ '' in '' @
         fixed2 duration_ms @ ''ms'',
       lr_extra = [(''duration_ms'', JFloat duration_ms), (''status_code'', JInt status_code)],
       lr_exception = None\<rparr>)"

text \<open>
  Duration and status are given to the logger as attributes, but the formatter prints neither:
  they are in the text of the message only.
\<close>

lemma request_attributes_dropped:
  "map fst (log_entry (log_requests fixed2 t0 t1 gmtime msecs http_method path status_code)) =
     [''timestamp'', ''level'', ''component'', ''message'']"
  by (simp add: log_entry_def log_requests_def Let_def context_attributes_def map_filter_simps)

section \<open>Properties\<close>

text \<open>
  C33: log entries cannot be forged. Whatever text the messages, the task and node identifiers
  and the exceptions of the records contain (newlines, quotes, JSON), the log they are written
  to splits into exactly one line per record, and each line parses to the entry of its record.
\<close>

theorem log_not_forgeable:
  assumes "float_text_ok ft" "\<And>x. printable (frepr ft x)" "\<forall>r\<in>set rs. record_ok r"
  shows "map (loads ft) (lines_of [] (concat (map (\<lambda>r. format_record ft r @ [CHR 0x0A]) rs))) =
    map (\<lambda>r. Some (JObj (log_entry r))) rs"
proof -
  have "printable (format_record ft r)" for r
    unfolding format_record_def default_dumps_def by (rule printable_dumps [OF assms(2)]) simp_all
  then have "lines_of [] (concat (map (\<lambda>x. x @ [CHR 0x0A]) (map (format_record ft) rs))) = map (format_record ft) rs"
    by (intro lines_of_concat) (auto dest: printable_no_newline)
  then have l: "lines_of [] (concat (map (\<lambda>r. format_record ft r @ [CHR 0x0A]) rs)) = map (format_record ft) rs"
    by (simp add: comp_def)
  have "loads ft (format_record ft r) = Some (JObj (log_entry r))" if "r \<in> set rs" for r
    unfolding format_record_def
    using assms(3) that by (intro loads_default [OF assms(1)] log_entry_ok) (auto simp: record_ok_def)
  then show ?thesis by (simp add: l)
qed

lemma printable_fraction: "printable (frepr fraction_text x)"
  using printable_show_int by (simp add: fraction_text_def fraction_repr_def case_prod_beta)

theorem log_not_forgeable_witness:
  "map (loads fraction_text) (lines_of [] (format_record fraction_text
       \<lparr>lr_gmtime = ''2026-01-01T00:00:00'', lr_msecs = 7, lr_levelname = ''INFO'', lr_name = ''gateway'',
        lr_message = ''done'' @ [CHR 0x0A, CHR 0x22], lr_extra = [(''task_id'', JStr [CHR 0x0A]), (''duration_ms'', JInt 3)],
        lr_exception = None\<rparr> @ [CHR 0x0A])) =
   [Some (JObj [(''timestamp'', JStr ''2026-01-01T00:00:00.007Z''), (''level'', JStr ''INFO''),
      (''component'', JStr ''gateway''), (''message'', JStr (''done'' @ [CHR 0x0A, CHR 0x22])), (''task_id'', JStr [CHR 0x0A])])]"
proof -
  let ?r = "\<lparr>lr_gmtime = ''2026-01-01T00:00:00'', lr_msecs = 7, lr_levelname = ''INFO'', lr_name = ''gateway'',
        lr_message = ''done'' @ [CHR 0x0A, CHR 0x22], lr_extra = [(''task_id'', JStr [CHR 0x0A]), (''duration_ms'', JInt 3)],
        lr_exception = None\<rparr>"
  have ok: "\<forall>r\<in>set [?r]. record_ok r" by (simp add: record_ok_def)
  have p: "pad3 7 = ''007''" by code_simp
  have e: "log_entry ?r = [(''timestamp'', JStr ''2026-01-01T00:00:00.007Z''), (''level'', JStr ''INFO''),
      (''component'', JStr ''gateway''), (''message'', JStr (''done'' @ [CHR 0x0A, CHR 0x22])), (''task_id'', JStr [CHR 0x0A])]"
    by (simp add: log_entry_def context_attributes_def map_filter_simps p dget_or_def)
  show ?thesis
    using log_not_forgeable [OF float_text_ok_fraction printable_fraction ok] e by simp
qed

end
