(* ===== verification/Tools.thy ===== *)
theory Tools
  imports Availability Logging
begin

text \<open>
  The command line tools: \<open>tools/generate_sbom.py\<close> (its \<open>main\<close>), \<open>tools/verify_audit.py\<close> and
  \<open>tools/verify_supply_chain.py\<close> (their exit statuses) and \<open>inspector.py\<close>.

  The parsed arguments are arguments; a tool returns what it writes, its exit status and the
  values of the lines it prints. The number formats of the inspector's report are not written
  out: a report is the record of the values it shows. The answer of the gateway is a JSON
  value or a failure.
\<close>

section \<open>json.dumps with indent=2\<close>

definition newline_indent :: "nat \<Rightarrow> str" where
  "newline_indent level = CHR 0x0A # replicate (2 * level) (CHR '' '')"

fun indent_dumps :: "float_text \<Rightarrow> nat \<Rightarrow> json \<Rightarrow> str" where
  "indent_dumps ft level (JArr js) =
     (if js = [] then ''[]''
      else ''['' @ newline_indent (level + 1) @
        join ('','' @ newline_indent (level + 1)) (map (indent_dumps ft (level + 1)) js) @
        newline_indent level @ '']'')"
| "indent_dumps ft level (JObj kvs) =
     (if kvs = [] then ''{}''
      else ''{'' @ newline_indent (level + 1) @
        join ('','' @ newline_indent (level + 1))
          (map (\<lambda>kv. json_str (fst kv) @ '': '' @ indent_dumps ft (level + 1) (snd kv)) kvs) @
        newline_indent level @ ''}'')"
| "indent_dumps ft level j = dumps ft [] [] j"

section \<open>The bill of materials\<close>

datatype sbom_format = Cyclonedx | Spdx

text \<open>The two readings of the clock as text and seconds, and the MD5 text of the serial number.\<close>

record sbom_inputs =
  sb_serial :: str
  sb_timestamp :: str
  sb_seconds :: int

record sbom_output =
  so_file :: str
  so_digest :: str
  so_total :: int

definition sbom_data ::
    "crypto \<Rightarrow> (str \<Rightarrow> bytes option) \<Rightarrow> sbom_inputs \<Rightarrow> sbom_format \<Rightarrow> (str \<times> str) list \<Rightarrow> jobj" where
  "sbom_data cr files i fmt deps =
     (case fmt of
        Cyclonedx \<Rightarrow> generate_cyclonedx_sbom cr files (sb_serial i) (sb_timestamp i) deps ''distributed-ai-networking'' ''1.0.0''
      | Spdx \<Rightarrow> generate_spdx_sbom (sb_seconds i) (sb_timestamp i) deps ''distributed-ai-networking'' ''1.0.0'')"

text \<open>\<open>len(sbom_data.get("components", sbom_data.get("packages", [])))\<close>\<close>

definition total_parts :: "jobj \<Rightarrow> int" where
  "total_parts data =
     (case get_or data ''components'' (get_or data ''packages'' (JArr [])) of
        JArr js \<Rightarrow> int (length js) | _ \<Rightarrow> 0)"

definition generate_sbom_main ::
    "crypto \<Rightarrow> (str \<Rightarrow> bytes option) \<Rightarrow> sbom_inputs \<Rightarrow> sbom_format \<Rightarrow> str list option \<Rightarrow> sbom_output" where
  "generate_sbom_main cr files i fmt requirements =
     (let data = sbom_data cr files i fmt (parse_requirements requirements);
          content = indent_dumps (ftext cr) 0 (JObj data)
      in \<lparr>so_file = content @ [CHR 0x0A], so_digest = ''sha256:'' @ hex (sha256 cr (encode content)),
          so_total = total_parts data\<rparr>)"

section \<open>Exit statuses\<close>

text \<open>\<open>verify_audit.py\<close> ignores the verdict; only an uncaught exception changes the status.\<close>

definition verify_audit_main :: "crypto \<Rightarrow> str list option \<Rightarrow> int" where
  "verify_audit_main cr file = (case verify_ledger cr file of Inl ex \<Rightarrow> 1 | Inr verdict \<Rightarrow> 0)"

text \<open>The signing key and the two clock readings of the bootstrap are arguments.\<close>

definition verify_supply_chain_main ::
    "crypto \<Rightarrow> codecs \<Rightarrow> bytes \<Rightarrow> pyfloat \<Rightarrow> pyfloat \<Rightarrow> str \<Rightarrow> str option \<Rightarrow> int" where
  "verify_supply_chain_main cr co sk t1 t2 model_id digest =
     (case bootstrap_supply_chain cr co sk t1 t2 new_etcd of
        (Inl ex, e) \<Rightarrow> 1
      | (Inr _, e) \<Rightarrow> (if inspect_and_verify_model cr co model_id digest e = Inr True then 0 else 1))"

section \<open>The placement inspector\<close>

record inspection_report =
  ir_task :: json
  ir_timestamp :: json
  ir_sla_class :: json
  ir_selected :: json
  ir_latency :: json
  ir_weights :: jobj
  ir_winner :: "json \<times> json"
  ir_runner_up :: "(json \<times> json) option"
  ir_fallback_chain :: "str list"
  ir_status :: json
  ir_attempts :: "json option"
  ir_excluded :: jobj

datatype inspection =
  Exit_status int
| Printed inspection_report
| Raised exc

abbreviation as_mapping :: "json \<Rightarrow> exc + jobj" where
  "as_mapping \<equiv> mapping_of ''get''"

text \<open>A number format and a width format: what they accept.\<close>

definition number :: "json \<Rightarrow> exc + json" where
  "number j = (case j of
     JInt i \<Rightarrow> Inr j | JFloat x \<Rightarrow> Inr j | JBool b \<Rightarrow> Inr j
   | JStr s \<Rightarrow> Inl (py_exc ValueErrorClass [])
   | _ \<Rightarrow> Inl (py_exc TypeErrorClass []))"

definition padded :: "json \<Rightarrow> exc + json" where
  "padded j = (case j of
     JNull \<Rightarrow> Inl (py_exc TypeErrorClass []) | JArr js \<Rightarrow> Inl (py_exc TypeErrorClass [])
   | JObj d \<Rightarrow> Inl (py_exc TypeErrorClass []) | _ \<Rightarrow> Inr j)"

definition str_item :: "json \<Rightarrow> exc + str" where
  "str_item j = (case j of JStr s \<Rightarrow> Inr s | _ \<Rightarrow> Inl (py_exc TypeErrorClass []))"

definition joined :: "json \<Rightarrow> exc + str list" where
  "joined j = (case j of
     JArr js \<Rightarrow> rmap str_item js
   | JStr s \<Rightarrow> Inr (map (\<lambda>c. [c]) s)
   | JObj d \<Rightarrow> Inr (map fst d)
   | _ \<Rightarrow> Inl (py_exc TypeErrorClass []))"

definition need_key :: "jobj \<Rightarrow> str \<Rightarrow> exc + json" where
  "need_key d k = (case dget d k of None \<Rightarrow> Inl (py_exc KeyErrorClass k) | Some j \<Rightarrow> Inr j)"

definition inspection_of :: "json \<Rightarrow> exc + inspection_report" where
  "inspection_of event =
     rbind (as_mapping event) (\<lambda>ev.
     rbind (need_key ev ''task_id'') (\<lambda>task_id.
     rbind (need_key ev ''timestamp'') (\<lambda>timestamp.
     rbind (as_mapping (get_or ev ''decision'' (JObj []))) (\<lambda>decision.
     rbind (as_mapping (get_or decision ''weights_used'' (JObj []))) (\<lambda>weights.
     rbind (number (get_or decision ''decision_latency_ms'' (JInt 0))) (\<lambda>latency.
     rbind (rmap (\<lambda>kv. rbind (number (snd kv)) (\<lambda>v. Inr (fst kv, v))) (filter (\<lambda>kv. fst kv \<noteq> ''name'') weights)) (\<lambda>shown.
     rbind (padded (get_or decision ''chosen_node'' JNull)) (\<lambda>chosen.
     rbind (number (get_or decision ''chosen_score'' (JFloat 0))) (\<lambda>score.
     rbind (if json_truthy (get_or decision ''runner_up_node'' JNull)
            then rbind (padded (get_or decision ''runner_up_node'' JNull)) (\<lambda>n.
                 rbind (number (get_or decision ''runner_up_score'' (JFloat 0))) (\<lambda>x. Inr (Some (n, x))))
            else Inr None) (\<lambda>runner_up.
     rbind (joined (get_or decision ''fallback_chain'' (JArr []))) (\<lambda>chain.
     rbind (as_mapping (get_or ev ''execution'' (JObj []))) (\<lambda>execution.
     rbind (if json_truthy (get_or decision ''filtered_out_nodes'' JNull)
            then as_mapping (get_or decision ''filtered_out_nodes'' JNull) else Inr []) (\<lambda>excluded.
       Inr \<lparr>ir_task = task_id, ir_timestamp = timestamp,
            ir_sla_class = get_or weights ''name'' (JStr ''N/A''), ir_selected = chosen,
            ir_latency = latency, ir_weights = shown, ir_winner = (chosen, score), ir_runner_up = runner_up,
            ir_fallback_chain = chain, ir_status = get_or execution ''status'' JNull,
            ir_attempts = (if json_truthy (get_or ev ''fallback_activated'' JNull)
                           then Some (get_or ev ''attempts'' JNull) else None),
            ir_excluded = excluded\<rparr>)))))))))))))"

text \<open>\<open>events[-1]\<close> of a list; what is no list has no such element.\<close>

definition last_event :: "json \<Rightarrow> exc + json" where
  "last_event events = (case events of
     JArr js \<Rightarrow> Inr (last js)
   | JStr s \<Rightarrow> Inr (JStr [last s])
   | JObj d \<Rightarrow> Inl (py_exc KeyErrorClass [])
   | _ \<Rightarrow> Inl (py_exc TypeErrorClass []))"

definition inspect_task :: "http_exception + json \<Rightarrow> inspection" where
  "inspect_task response =
     (case response of
        Inl err \<Rightarrow> Exit_status 1
      | Inr events \<Rightarrow>
          if \<not> json_truthy events then Exit_status 1
          else (case rbind (last_event events) inspection_of of
            Inl ex \<Rightarrow> Raised ex
          | Inr report \<Rightarrow> Printed report))"


section \<open>The bill of materials lists everything once\<close>

definition is_library :: "json \<Rightarrow> bool" where
  "is_library j = (case j of JObj d \<Rightarrow> dget d ''type'' = Some (JStr ''library'') | _ \<Rightarrow> False)"

lemma spdx_ids_distinct:
  "distinct (map (\<lambda>p. case p of JObj d \<Rightarrow> dget d ''SPDXID'' | _ \<Rightarrow> None) (root_package n v # map spdx_package (enumerate 1 deps)))"
proof -
  have p: "(case spdx_package x of JObj d \<Rightarrow> dget d ''SPDXID'' | _ \<Rightarrow> None) =
      Some (JStr (''SPDXRef-Package-'' @ show_int (int (fst x))))" for x
    by (cases x) (simp add: spdx_package_def)
  have "inj_on (\<lambda>x. Some (JStr (''SPDXRef-Package-'' @ show_int (int (fst x))))) (set (enumerate 1 deps))"
    by (auto simp: inj_on_def in_set_enumerate_eq dest: show_int_inj)
  then have "distinct (map (\<lambda>x. Some (JStr (''SPDXRef-Package-'' @ show_int (int (fst x))))) (enumerate 1 deps))"
    by (simp add: distinct_map)
  moreover have "(case root_package n v of JObj d \<Rightarrow> dget d ''SPDXID'' | _ \<Rightarrow> None) = Some (JStr ''SPDXRef-RootPackage'')"
    by (simp add: root_package_def)
  ultimately show ?thesis by (auto simp: p comp_def)
qed

lemma filter_modules: "filter is_library (map (module_component cr files n v) core_modules) = []"
  by (auto simp: filter_empty_conv module_component_def is_library_def)

lemma filter_libraries: "filter is_library (map library_component deps) = map library_component deps"
  by (simp add: is_library_def library_component_def)

lemma components_of: "get_or (generate_cyclonedx_sbom cr files s t deps n v) ''components'' j =
    JArr (cyclonedx_components cr files n v deps)"
  by (simp add: get_or_def generate_cyclonedx_sbom_def)

lemma packages_of:
  "get_or (generate_spdx_sbom sec t deps n v) ''packages'' j = JArr (root_package n v # map spdx_package (enumerate 1 deps))"
  "get_or (generate_spdx_sbom sec t deps n v) ''components'' j = j"
  by (simp_all add: get_or_def generate_spdx_sbom_def)

text \<open>
  The digest that is printed is that of the content without its last newline: the file's own
  digest is another one, unless the hash function collides.
\<close>

lemma printed_digest_not_of_file:
  assumes "out = generate_sbom_main cr files i fmt requirements"
    and "so_digest out = ''sha256:'' @ hex (sha256 cr (encode (so_file out)))"
  shows "\<exists>a b. a \<noteq> b \<and> sha256 cr a = sha256 cr b"
proof -
  obtain content where "so_file out = content @ [CHR 0x0A]" "so_digest out = ''sha256:'' @ hex (sha256 cr (encode content))"
    by (simp add: assms(1) generate_sbom_main_def Let_def)
  then have "encode content \<noteq> encode (so_file out)" "sha256 cr (encode content) = sha256 cr (encode (so_file out))"
    using assms(2) by (auto simp: hex_inj)
  then show ?thesis by blast
qed

section \<open>The tools and the parts they check\<close>

text \<open>A ledger that does not verify is reported with exit status 0.\<close>

lemma verify_audit_never_fails: "verify_ledger cr file = Inr verdict \<Longrightarrow> verify_audit_main cr file = 0"
  by (simp add: verify_audit_main_def)

text \<open>Without a token the gateway answers the inspector with an error, and the inspector exits with status 1.\<close>

lemma inspector_unauthorised:
  "verify_gateway_token env credentials = Inl err \<Longrightarrow>
    inspect_task (map_sum id (\<lambda>evs. JArr (map (\<lambda>ev. JObj (event_members io ev)) evs))
      (get_audit_events env io credentials q g)) = Exit_status 1"
  by (simp add: get_audit_events_def inspect_task_def)

lemma may_execute_digest:
  assumes "is_immutable_digest d" "is_immutable_digest d'" "lower d = lower d'"
  shows "may_execute cr co m (Some d) e r \<longleftrightarrow> may_execute cr co m (Some d') e r"
proof -
  have "d \<noteq> []" "d' \<noteq> []" using assms(1,2) by (simp_all add: is_immutable_digest_def)
  then show ?thesis using assms by (simp add: may_execute_def Let_def)
qed

lemma rmap_str_items: "rmap str_item (map JStr xs) = Inr xs"
  by (induction xs) (simp_all add: str_item_def)

lemma rmap_numbers:
  "rmap (\<lambda>kv. rbind (number (snd kv)) (\<lambda>v. Inr (fst kv, v))) (map (\<lambda>(k, v). (k, JFloat v)) xs) =
    Inr (map (\<lambda>(k, v). (k, JFloat v)) xs)"
  by (induction xs) (auto simp: number_def)

lemma filter_names:
  "''name'' \<notin> fst ` set d \<Longrightarrow> filter (\<lambda>kv. fst kv \<noteq> ''name'') (map (\<lambda>(k, v). (k, JFloat v)) d) = map (\<lambda>(k, v). (k, JFloat v)) d"
  by (induction d) auto

lemma get_name: "''name'' \<notin> fst ` set d \<Longrightarrow> get_or (map (\<lambda>(k, v). (k, JFloat v)) d) ''name'' j = j"
  by (induction d) (auto simp: get_or_def)

text \<open>The report of an event of the audit trail.\<close>

lemma inspection_of_event:
  assumes "''name'' \<notin> fst ` set (d_weights_used (a_decision ev))"
    and "truthy (d_runner_up_node (a_decision ev)) \<Longrightarrow> d_runner_up_score (a_decision ev) \<noteq> None"
  shows "\<exists>r. inspection_of (JObj (event_members io ev)) = Inr r \<and> ir_task r = JStr (a_task_id ev) \<and>
    ir_timestamp r = JFloat (a_timestamp ev) \<and> ir_sla_class r = JStr ''N/A'' \<and>
    ir_selected r = JStr (d_chosen_node (a_decision ev)) \<and>
    ir_winner r = (JStr (d_chosen_node (a_decision ev)), JFloat (d_chosen_score (a_decision ev))) \<and>
    ir_weights r = map (\<lambda>(k, v). (k, JFloat v)) (d_weights_used (a_decision ev)) \<and>
    ir_fallback_chain r = d_fallback_chain (a_decision ev) \<and> ir_status r = JStr (status_value (x_status (a_execution ev))) \<and>
    ir_attempts r = (if a_fallback_activated ev then Some (JInt (a_attempts ev)) else None)"
proof -
  let ?d = "a_decision ev"
  have e: "get_or (event_members io ev) ''decision'' j = decision_json (reason_text io) ?d"
    "get_or (event_members io ev) ''execution'' j = execution_json (a_execution ev)"
    "get_or (event_members io ev) ''fallback_activated'' j = JBool (a_fallback_activated ev)"
    "get_or (event_members io ev) ''attempts'' j = JInt (a_attempts ev)"
    "need_key (event_members io ev) ''task_id'' = Inr (JStr (a_task_id ev))"
    "need_key (event_members io ev) ''timestamp'' = Inr (JFloat (a_timestamp ev))" for j
    by (simp_all add: get_or_def need_key_def event_members_def)
  obtain d where d: "decision_json (reason_text io) ?d = JObj d"
    and f: "\<And>j. get_or d ''weights_used'' j = JObj (map (\<lambda>(k, v). (k, JFloat v)) (d_weights_used ?d))"
      "\<And>j. get_or d ''decision_latency_ms'' j = JFloat (d_decision_latency_ms ?d)"
      "\<And>j. get_or d ''chosen_node'' j = JStr (d_chosen_node ?d)"
      "\<And>j. get_or d ''chosen_score'' j = JFloat (d_chosen_score ?d)"
      "\<And>j. get_or d ''runner_up_node'' j = json_of_opt (d_runner_up_node ?d)"
      "\<And>j. get_or d ''runner_up_score'' j = json_of_float_opt (d_runner_up_score ?d)"
      "\<And>j. get_or d ''fallback_chain'' j = JArr (map JStr (d_fallback_chain ?d))"
      "\<And>j. get_or d ''filtered_out_nodes'' j = JObj (map (\<lambda>(k, r). (k, JStr (reason_text io r))) (d_filtered_out_nodes ?d))"
    by (simp add: decision_json_def get_or_def)
  obtain x where x: "execution_json (a_execution ev) = JObj x"
    "\<And>j. get_or x ''status'' j = JStr (status_value (x_status (a_execution ev)))"
    by (simp add: execution_json_def get_or_def)
  have r: "\<exists>ru. (if json_truthy (json_of_opt (d_runner_up_node ?d))
      then rbind (padded (json_of_opt (d_runner_up_node ?d)))
        (\<lambda>n. rbind (number (json_of_float_opt (d_runner_up_score ?d))) (\<lambda>x. Inr (Some (n, x)))) else Inr None) = Inr ru"
    using assms(2)
    by (cases "d_runner_up_node ?d"; cases "d_runner_up_score ?d")
      (auto simp: json_of_opt_def json_of_float_opt_def padded_def number_def)
  then obtain ru where ru: "(if json_truthy (json_of_opt (d_runner_up_node ?d))
      then rbind (padded (json_of_opt (d_runner_up_node ?d)))
        (\<lambda>n. rbind (number (json_of_float_opt (d_runner_up_score ?d))) (\<lambda>x. Inr (Some (n, x)))) else Inr None) = Inr ru" by blast
  have xs: "\<exists>xs. (if json_truthy (JObj ys) then as_mapping (JObj ys) else Inr []) = Inr xs" for ys
    by (auto simp: mapping_of_def)
  then obtain xs where xs: "(if json_truthy (JObj (map (\<lambda>(k, r). (k, JStr (reason_text io r))) (d_filtered_out_nodes ?d)))
      then as_mapping (JObj (map (\<lambda>(k, r). (k, JStr (reason_text io r))) (d_filtered_out_nodes ?d))) else Inr []) = Inr xs"
    by blast
  have v: "as_mapping (JObj m) = Inr m" "number (JFloat y) = Inr (JFloat y)" "padded (JStr w) = Inr (JStr w)" for m y w
    by (simp_all add: mapping_of_def number_def padded_def)
  have j: "joined (JArr (map JStr (d_fallback_chain ?d))) = Inr (d_fallback_chain ?d)"
    by (simp add: joined_def rmap_str_items)
  show ?thesis
    unfolding inspection_of_def
    by (simp only: v e d f x rbind.simps filter_names [OF assms(1)] rmap_numbers ru j xs get_name [OF assms(1)])
      (simp add: json_of_opt_def)
qed


section \<open>Properties\<close>

text \<open>
  The bill of materials is complete. For a requirements file of pinned lines the CycloneDX
  document lists the seven modules and then exactly one library per requirement, in order, the
  SPDX document the root package and then one package per requirement, all with different
  identifiers, and the printed total is the number of parts.
\<close>

lemma sbom_complete:
  assumes "\<forall>dep\<in>set deps. pinnable dep"
  shows "\<exists>components packages.
    dget (sbom_data cr files i Cyclonedx (parse_requirements (Some (map pinned_line deps)))) ''components'' = Some (JArr components) \<and>
    length components = 7 + length deps \<and> filter is_library components = map library_component deps \<and>
    so_total (generate_sbom_main cr files i Cyclonedx (Some (map pinned_line deps))) = 7 + int (length deps) \<and>
    dget (sbom_data cr files i Spdx (parse_requirements (Some (map pinned_line deps)))) ''packages'' = Some (JArr packages) \<and>
    tl packages = map spdx_package (enumerate 1 deps) \<and> map fst (enumerate 1 deps) = [1..<Suc (length deps)] \<and>
    distinct (map (\<lambda>p. case p of JObj d \<Rightarrow> dget d ''SPDXID'' | _ \<Rightarrow> None) packages) \<and>
    so_total (generate_sbom_main cr files i Spdx (Some (map pinned_line deps))) = 1 + int (length deps)"
proof -
  let ?cs = "cyclonedx_components cr files ''distributed-ai-networking'' ''1.0.0'' deps"
  let ?ps = "root_package ''distributed-ai-networking'' ''1.0.0'' # map spdx_package (enumerate 1 deps)"
  note p = requirements_roundtrip [OF assms]
  have c: "length ?cs = 7 + length deps" "filter is_library ?cs = map library_component deps"
    by (simp add: cyclonedx_components_def core_modules_def)
      (simp add: cyclonedx_components_def filter_modules filter_libraries)
  have d: "dget (sbom_data cr files i Cyclonedx deps) ''components'' = Some (JArr ?cs)"
    "dget (sbom_data cr files i Spdx deps) ''packages'' = Some (JArr ?ps)"
    by (simp_all add: sbom_data_def generate_cyclonedx_sbom_def generate_spdx_sbom_def)
  have t: "so_total (generate_sbom_main cr files i Cyclonedx (Some (map pinned_line deps))) = 7 + int (length deps)"
    "so_total (generate_sbom_main cr files i Spdx (Some (map pinned_line deps))) = 1 + int (length deps)"
    using c(1) by (simp_all add: generate_sbom_main_def Let_def p sbom_data_def total_parts_def components_of packages_of)
  show ?thesis
    using c d t spdx_ids_distinct [of "''distributed-ai-networking''" "''1.0.0''" deps]
    by (intro exI [of _ ?cs] exI [of _ ?ps]) (simp add: p map_fst_enumerate)
qed

text \<open>
  The supply-chain tool checks a registry of its own. Whatever the cluster has registered
  or revoked, the exit status for a model and a digest is 0 exactly when the model is one of
  the two the tool has just seeded itself and the digest is that of the seed.
\<close>

lemma verify_tool_checks_own_seed:
  assumes "signing_ok cr" "ed_pem cr sk \<noteq> []" "codecs_seed co cr sk (seed_models t1 t2)" "digest \<noteq> []"
  shows "verify_supply_chain_main cr co sk t1 t2 model_id (Some digest) = 0 \<longleftrightarrow>
    model_id \<in> {''vision-classifier-v3'', ''v3''} \<and> is_immutable_digest digest \<and> lower digest = vision_digest"
proof -
  obtain r e where b: "bootstrap_supply_chain cr co sk t1 t2 new_etcd = (r, e)" by fastforce
  have r: "r = Inr ()" using bootstrap_get(1) [OF b] .
  have "verify_supply_chain_main cr co sk t1 t2 model_id (Some digest) = 0 \<longleftrightarrow>
      is_immutable_digest digest \<and> (\<exists>rcd. may_execute cr co model_id (Some digest) e rcd)"
    using assms(4) inspect_exact by (cases digest) (simp_all add: verify_supply_chain_main_def b r)
  moreover have "(\<exists>rcd. may_execute cr co model_id (Some digest) e rcd) \<longleftrightarrow>
      model_id \<in> {''vision-classifier-v3'', ''v3''} \<and> lower digest = vision_digest" if i: "is_immutable_digest digest"
  proof (cases "model_id \<in> {''vision-classifier-v3'', ''v3''}")
    case True
    then obtain t where m: "(model_id, t) \<in> set (seed_models t1 t2)" by (auto simp: seed_models_def)
    have rec: "stored_record co model_id e rcd \<Longrightarrow> ar_digest rcd = vision_digest" for rcd
    proof -
      have "parse_record co (dump_record co (vision_record cr sk model_id t)) = Some (vision_record cr sk model_id t)"
        using assms(3) m by (auto simp: codecs_seed_def)
      then have "rcd = vision_record cr sk model_id t" if "stored_record co model_id e rcd"
        using that bootstrap_get(3) [OF b m] by (auto simp: stored_record_def)
      then show "stored_record co model_id e rcd \<Longrightarrow> ar_digest rcd = vision_digest"
        by (auto simp: vision_record_def)
    qed
    have v: "(\<exists>rcd. may_execute cr co model_id (Some vision_digest) e rcd)"
    proof -
      have "\<not> is_digest_revoked vision_digest new_etcd" by (simp add: is_digest_revoked_def new_etcd_def etcd_get_def)
      then show ?thesis using seeded_admitted [OF b assms(1-3) m refl] by (auto simp: verify_iff)
    qed
    show ?thesis
    proof (cases "lower digest = vision_digest")
      case True2: True
      then show ?thesis using True v may_execute_digest [OF i vision_digest_ok(1)] vision_digest_ok(2) by auto
    next
      case False
      then show ?thesis using assms(4) rec vision_digest_ok(2) by (fastforce simp: may_execute_def Let_def)
    qed
  next
    case False
    then have "etcd_get (key_model model_id) e = None"
      using b by (auto simp: bootstrap_eq etcd_kv.get_put)
    then show ?thesis using False by (auto simp: may_execute_def Let_def stored_record_def)
  qed
  ultimately show ?thesis by blast
qed

text \<open>
  The inspector reports the last event of the task. Given the audit trail of a task from
  the gateway, the inspector prints the report of the task's last event: its node, score,
  weights, fallback chain and status, and the attempts of a fallback; with an empty trail it
  exits with status 1. The SLA class it prints is always \<open>N/A\<close>, since the weights of a
  decision have no name.
\<close>

lemma inspector_reports_last_event:
  assumes "get_audit_events env io token (Some task_id) g = Inr evs"
    and "\<forall>ev\<in>set evs. ''name'' \<notin> fst ` set (d_weights_used (a_decision ev)) \<and>
      (truthy (d_runner_up_node (a_decision ev)) \<longrightarrow> d_runner_up_score (a_decision ev) \<noteq> None)"
  shows "case inspect_task (Inr (JArr (map (\<lambda>ev. JObj (event_members io ev)) evs))) of
      Printed r \<Rightarrow> evs \<noteq> [] \<and> ir_task r = JStr task_id \<and> ir_timestamp r = JFloat (a_timestamp (last evs)) \<and>
        ir_selected r = JStr (d_chosen_node (a_decision (last evs))) \<and>
        ir_fallback_chain r = d_fallback_chain (a_decision (last evs)) \<and>
        ir_status r = JStr (status_value (x_status (a_execution (last evs)))) \<and>
        ir_attempts r = (if a_fallback_activated (last evs) then Some (JInt (a_attempts (last evs))) else None) \<and>
        ir_sla_class r = JStr ''N/A''
    | Exit_status n \<Rightarrow> evs = [] \<and> n = 1
    | Raised ex \<Rightarrow> False"
proof (cases "evs = []")
  case True
  then show ?thesis by (simp add: inspect_task_def)
next
  case False
  have "ev \<in> set evs \<Longrightarrow> a_task_id ev = task_id" for ev
    using assms(1)
    by (auto simp: get_audit_events_def get_all_def rbind_Inr_iff split: sum.splits option.splits)
  then have task: "a_task_id (last evs) = task_id" using last_in_set [OF False] by blast
  obtain r where r: "inspection_of (JObj (event_members io (last evs))) = Inr r"
    "ir_task r = JStr (a_task_id (last evs))" "ir_timestamp r = JFloat (a_timestamp (last evs))"
    "ir_sla_class r = JStr ''N/A''" "ir_selected r = JStr (d_chosen_node (a_decision (last evs)))"
    "ir_fallback_chain r = d_fallback_chain (a_decision (last evs))"
    "ir_status r = JStr (status_value (x_status (a_execution (last evs))))"
    "ir_attempts r = (if a_fallback_activated (last evs) then Some (JInt (a_attempts (last evs))) else None)"
    using inspection_of_event [of "last evs" io] assms(2) last_in_set [OF False] by blast
  have "inspect_task (Inr (JArr (map (\<lambda>ev. JObj (event_members io ev)) evs))) = Printed r"
    using False r(1) by (simp add: inspect_task_def last_event_def last_map)
  then show ?thesis using False r(2-8) task by simp
qed


text \<open>A gateway whose audit file has one event of the task, and a reader that returns it.\<close>

definition reading_io :: event_io where
  "reading_io = toy_io\<lparr>parse_event := (\<lambda>s. Some sample_event)\<rparr>"

definition audited_gateway :: gateway where
  "audited_gateway = sample_gateway\<lparr>gw_ledger := (gw_ledger sample_gateway)\<lparr>lg_file := Some [''e'']\<rparr>\<rparr>"

end
