(* ===== verification/Spec2Isabelle.thy ===== *)
theory Spec2Isabelle
  imports System SnapshotStore PostQuantum LoadTest Interleavings Configuration Tools
begin

text \<open>
  Verification of the orchestration platform (a gateway that places AI inference tasks on edge
  and cloud nodes, with a scheduler, node agents, supply-chain control and an audit ledger).

  The program. A client's \<open>TaskRequest\<close> reaches the gateway (\<open>gateway/app.py\<close>), which reads the
  telemetry snapshots of the nodes (\<open>telemetry/\<close>), asks the decision engine for a placement
  (\<open>decision_engine/\<close>), lets the scheduler dispatch the task along the decision's chain
  (\<open>scheduler/dispatcher.py\<close>) as a signed and encrypted envelope to a node's execution service
  (\<open>node_agent/\<close>), which checks the artifact against the registry (\<open>common/supply_chain.py\<close>) and
  runs it, and records the outcome in a hash-chained ledger (\<open>results_aggregator/\<close>). Nodes
  register and stream signed telemetry to the control plane (\<open>gateway/grpc_server.py\<close>). Registry,
  leases, keys, revocations and checkpoints live in one authoritative state (\<open>common/state.py\<close>).

  Theories, in import order, with the code each models:

  \<^item> \<open>Prelude\<close>: Python strings and dictionaries, the collections \<open>py_simps\<close> and \<open>frame\<close>.
    \<open>PyFloat\<close>: double-precision arithmetic as rationals with rounding to nearest even, and the
    monotonicity laws of rounding. \<open>Bytes\<close>, \<open>Json\<close>: bytes, hexadecimal, \<open>json.dumps\<close> and
    \<open>json.loads\<close>, with the round trip of printing and parsing. \<open>JsonText\<close>: canonical texts read
    from either end, so that a line of the ledger splits into its link and its content in one way.
  \<^item> \<open>Errors\<close> (\<open>common/errors.py\<close>), \<open>Contracts\<close> (\<open>contracts/models.py\<close>,
    \<open>contracts/sla_profiles.py\<close>): exceptions and the pydantic models with their validation.
  \<^item> \<open>EtcdState\<close> (\<open>common/state.py\<close>): each method an operation on the record \<open>etcd\<close>; a history is
    a list of atomic operations. The locale \<open>kv_store\<close> is what the clients rely on.
  \<^item> \<open>Telemetry\<close> (\<open>telemetry/store.py\<close>, \<open>validator.py\<close>, \<open>replay_state.py\<close>): the memory store, behind
    the locale \<open>snapshot_store\<close>, the staleness and RTT checks, and replay protection.
  \<^item> \<open>DecisionEngine\<close> (\<open>decision_engine/\<close> and the loaders of \<open>common/config.py\<close>): filter,
    normaliser, scorer, hysteresis, moving averages and the static fallback.
  \<^item> \<open>Security\<close> (\<open>common/crypto.py\<close>, \<open>authorization.py\<close>, \<open>extract_spiffe_id\<close>), \<open>SupplyChain\<close>
    (\<open>common/supply_chain.py\<close>), \<open>NodeAgent\<close> (\<open>node_agent/node.py\<close>, \<open>worker.py\<close>,
    \<open>grpc_server.py\<close>), \<open>Scheduler\<close> (\<open>scheduler/dispatcher.py\<close>), \<open>Ledger\<close>
    (\<open>results_aggregator/\<close>, \<open>tools/verify_audit.py\<close>), \<open>ControlPlane\<close>
    (\<open>gateway/grpc_server.py\<close>, \<open>node_agent/grpc_client.py\<close>, \<open>telemetry/redis_store.py\<close>), \<open>Gateway\<close>
    (\<open>gateway/app.py\<close>), \<open>Sbom\<close> (\<open>tools/generate_sbom.py\<close>) and \<open>Bootstrap\<close>
    (\<open>common/cluster.py\<close>, \<open>tools/verify_supply_chain.py\<close>). \<open>EndToEnd\<close>: gateway, scheduler and
    nodes composed over the network of the cluster; \<open>Availability\<close>: what that network does when
    nodes are down; \<open>SnapshotStore\<close>: every way into the telemetry store.
  \<^item> \<open>TelemetryClient\<close> (\<open>node_agent/grpc_client.py\<close>): the streamer thread, a step relation over the
    places where it waits. \<open>Identity\<close> (\<open>common/identity.py\<close>, \<open>common/tls.py\<close>): the simulated CA, its
    certificates and the TLS credentials, with the accesses of concurrent processes to the
    shared directory. \<open>Interleavings\<close>: the threads of the execution service and of the telemetry
    service step by step, with any schedule. \<open>Configuration\<close> (\<open>common/config.py\<close>): the loaders on files.
  \<^item> \<open>Logging\<close> (\<open>common/logger.py\<close>, the request log of \<open>gateway/app.py\<close>) and \<open>Tools\<close>
    (\<open>inspector.py\<close> and the command lines of \<open>tools/\<close>). \<open>PostQuantum\<close>: the signature provider of
    \<open>common/crypto.py\<close> and what the dual policy makes of its signatures. \<open>LoadTest\<close>
    (\<open>load_test.py\<close>): the requests of the load test and its report.
  \<^item> \<open>Servers\<close> (\<open>serve\<close>, \<open>serve_control_plane\<close> and the channels of scheduler and nodes): who can call
    whom over TLS, and the scheduler's network with these handshakes. \<open>EntryPoints\<close> (\<open>server.py\<close>,
    \<open>node_agent/main.py\<close>): the start of the two processes. \<open>System\<close>: the gateway process over any
    history of requests, streams, restarts and changes elsewhere.

  Correspondence. A class is a record with a field prefix, a method a definition of the same
  name that takes the state and returns it updated; a handler is the whole handler, its early
  returns and \<open>raise\<close>s being branches of \<open>exc + 'a\<close> (\<open>Inl\<close> the exception, with its class, code,
  message and details). Loops are structural recursions; the only fuel is that of the JSON
  parser, the length of the text plus one, which \<open>Json\<close> proves enough for every printed text.
  Everything the program reads from outside is an argument: clocks, random bytes, generated keys
  and identifiers, files as lists of lines, environment variables, the network as a function from
  a target and an envelope to an answer.

  Code that is not part of the repository is a parameter: the record \<open>crypto\<close> (Ed25519, AES-GCM,
  SHA-256, liboqs, the text of floats), \<open>codecs\<close>, \<open>event_io\<close> and \<open>redis_io\<close> (pydantic's JSON and
  the Redis client), \<open>x509_lib\<close> (certificates), \<open>tls_lib\<close> (handshakes), \<open>oqs_lib\<close> (liboqs) and the YAML parser. Their documented laws are hypotheses of the properties that need them
  (\<open>signing_ok\<close>: a signature verifies under its key; \<open>aead_ok\<close>: decryption inverts encryption;
  \<open>float_text_ok\<close>: printing a float, in the characters of a number, and reading it back; \<open>floats_read\<close>: what is read is a float; \<open>event_io_ok\<close>, \<open>redis_laws\<close>,
  \<open>codecs_seed\<close>: reading back what was written; \<open>x509_ok\<close>: parsing, signing and verifying
  certificates; \<open>tls_ok\<close>: what a handshake checks; \<open>oqs_ok\<close>). No law says that a forgery or a
  collision is impossible: \<open>tampering_evident\<close> has the collision as the alternative, and
  \<open>ca_race_breaks_trust\<close> a signature that verifies under a foreign key (\<open>crossed\<close>). Each
  property with hypotheses is followed by a witness at concrete values of these parameters.

  What the groups of lemmas show. Placement: the filter is exactly the hard constraints and names
  the first that fails, in a stated order; every
  scored decision names admissible nodes only, the choice is the least score subject to the
  challenger margin, scores respect domination through all rounding, the order of candidates is
  irrelevant, the engine always decides; without it, or with no node that fits, a request goes
  along the static policy (\<open>gateway_fails_open\<close>). State: leases never revive, at most one scheduler
  leads, none dispatches without a valid lease. Supply chain: \<open>verify_artifact_for_execution\<close> equals
  the specification \<open>may_execute\<close>, revocations persist, the signed bytes bind every field, what is
  registered runs. Execution: the guards of the node in order, each with its status
  (\<open>task_guards_complete\<close>), one computation per idempotency key as long as
  requests do not overlap and what remains true when they do (\<open>concurrent_executions_sound\<close>),
  results only for admitted artifacts, the composition of scheduler and node
  (\<open>attempt_served\<close>), and nodes that are down masked by the next ones of the chain
  (\<open>dead_nodes_masked\<close>). Audit: the ledger always verifies, the verifier accepts one history
  of whatever length per last hash, and over any history of the gateway process, restarts included and whatever
  the nodes answer, the ledger holds exactly the answered requests (\<open>every_answer_audited\<close>) while
  store, weights and replay memory keep their invariants (\<open>gateway_stays_sound\<close>). Telemetry: streams store
  signed snapshots only, whatever enters the store is valid (\<open>stored_snapshots_typed\<close>), what a running streamer sends is accepted and stored message by message
  (\<open>honest_stream_accepted\<close>), the Redis store refines the memory store. Identities: the
  credentials that processes make from one directory, one after the other, trust each other, and a node's credentials register that
  node and no other; over mutual TLS the scheduler's calls are those of the plain network as
  long as the certificates are in force (\<open>scheduler_calls_over_tls\<close>). Tools and logs: the documents list every dependency, the log has one
  parseable line per record.
  Several properties state defects of the code as it is: the lease that is never renewed
  (\<open>leadership_is_lost_for_ever\<close>), replay state recorded before the signature check
  (\<open>forged_telemetry_silences_node\<close>), two processes that each make a CA (\<open>ca_race_breaks_trust\<close>),
  node identifiers too long for a certificate (\<open>node_id_length_bounded\<close>), nodes whose
  certificates do not name their hosts (\<open>registered_nodes_unreachable\<close>), processes without TLS
  (\<open>insecure_mode_serves_nobody\<close>), post-quantum signatures nobody verifies
  (\<open>dual_signature_never_verified\<close>); and some lemmas: processes with CAs of their own
  (\<open>separate_cas_never_connect\<close>), a load test of too few requests (\<open>few_requests_fail\<close>),
  snapshots that never age (\<open>streamed_snapshots_never_stale\<close>), truncation of the ledger
  (\<open>truncation_accepted\<close>), the static fallback against hard constraints
  (\<open>fallback_breaks_residency\<close>), the digest of a record outside its signature
  (\<open>record_digest_unbound\<close>), padded digests (\<open>padded_digest_escapes_revocation\<close>), a restarted node
  that is not heard (\<open>restarted_node_not_heard\<close>), a CA that is never renewed
  (\<open>expired_ca_never_replaced\<close>), a tool that checks its own seed (\<open>verify_tool_checks_own_seed\<close>), and
  what threads can do to each other (\<open>concurrent_executions_repeat\<close>, \<open>older_snapshot_stays\<close>,
  \<open>report_lost_while_ageing\<close>).

  Not modelled: metrics and tracing (set-up of library objects, no state of the program); which
  records each component logs; sockets (a port in use, a host that is down); the failing import
  of \<open>server.py\<close> and \<open>node_agent/main.py\<close> (their bodies are modelled as if it succeeded); the scripts
  \<open>run_demo.py\<close> and \<open>test_controls.py\<close>, which send fixed requests to the modelled endpoints and print
  the answers; code generated by protoc; YAML parsing; infinities and NaN among the floats; Unicode beyond ASCII; pydantic's lax conversions (numeric strings and
  booleans to numbers); the texts of library exceptions. Requests to the gateway run one at a time:
  its handlers are coroutines without a suspension point, and the stores lock each method. The
  threads of the gRPC services are sequences of whole handlers except in \<open>Interleavings\<close>; the
  streamer makes each envelope in one step, though two generators that overlap after a broken
  stream could interleave their updates of the sequence number and the previous hash; the
  constructor of the scheduler takes grant, comparison and publication of its key as one step;
  the network of the cluster answers within the deadline of the call, whatever the node does;
  the handshake of gRPC (\<open>connects\<close>, \<open>tls_lib\<close>) stands for code outside the repository; the
  credentials of servers and channels are made once, and \<open>Servers\<close> takes the time of each
  handshake as an argument.

  This theory holds the properties that span all components: the cluster the code starts with,
  and what no submission through gateway, scheduler and node can get past.
\<close>

section \<open>The whole cluster\<close>

text \<open>
  C31: a fresh cluster is ready. With a clock that does not run backwards and a lease that is
  alive when it is checked, \<open>create_simulated_cluster\<close> succeeds; its scheduler leads exactly when
  no scheduler led before (a second cluster on the same state never dispatches); every one of
  the four nodes is served by a fresh worker at the target the scheduler knows, with its
  snapshot in the gateway's store; and both seeded models pass every node's check unless their
  digest is revoked.
\<close>

theorem fresh_cluster_ready:
  assumes "signing_ok (pl_crypto pl)" "ed_pem (pl_crypto pl) (ci_signer_key ci) \<noteq> []"
    and "codecs_seed (pl_codecs pl) (pl_crypto pl) (ci_signer_key ci) (seed_models (ci_clock1 ci) (ci_clock2 ci))"
    and "\<And>n. nb_created (ci_births ci n) \<le> nb_emitted (ci_births ci n)"
    and "ci_check_time ci \<le> fadd (ci_grant_time ci) 30"
  shows "\<exists>cl e'. create_simulated_cluster pl ci e = (Inr cl, e') \<and>
    (sc_is_leader (gw_scheduler (cl_gateway cl)) \<longleftrightarrow> etcd_get key_leader e = None) \<and>
    map fst (cl_nodes cl) = [''edge-frankfurt-1'', ''edge-london-1'', ''cloud-aws-eu-central'', ''cloud-aws-us-east''] \<and>
    (\<forall>(n, node)\<in>set (cl_nodes cl). \<exists>target snapshot.
       dget (sc_node_targets (gw_scheduler (cl_gateway cl))) n = Some target \<and>
       dget (cl_servers cl) target = Some (new_InferenceWorker node) \<and>
       get_snapshot n (gw_store (cl_gateway cl)) = Some snapshot \<and>
       emit_snapshot None (nb_emitted (ci_births ci n)) node = Inr snapshot) \<and>
    (\<forall>(m, t)\<in>set (seed_models (ci_clock1 ci) (ci_clock2 ci)).
       (\<exists>rcd. verify_artifact_for_execution (pl_crypto pl) (pl_codecs pl) m (Some vision_digest) e' = Inr rcd) \<longleftrightarrow>
         \<not> is_digest_revoked vision_digest e)"
proof -
  let ?cr = "pl_crypto pl" and ?nodes = "simulated_nodes pl (ci_births ci)"
  obtain r e1 where b: "bootstrap_supply_chain ?cr (pl_codecs pl) (ci_signer_key ci) (ci_clock1 ci) (ci_clock2 ci) e = (r, e1)"
    by fastforce
  obtain w where w: "start_nodes (ci_births ci) 50051 ?nodes
      \<lparr>wi_targets = [], wi_servers = [], wi_store = new_TelemetryStore 3000\<rparr> = Inr w"
    and wired: "\<forall>(k, x)\<in>set ?nodes. \<exists>q. wired (ci_births ci) w q k x"
    using start_nodes_wired [of ?nodes "\<lparr>wi_targets = [], wi_servers = [], wi_store = new_TelemetryStore 3000\<rparr>"
        "ci_births ci" 50051] simulated_nodes_ids [of pl "ci_births ci"]
      simulated_nodes_emit [of "ci_births ci" pl, OF assms(4)] by auto
  let ?ts = "\<lambda>e2. new_TaskScheduler pl (wi_targets w) ''scheduler-1'' (ci_scheduler_key ci)
      (ci_scheduler_pq_key ci) (ci_grant_time ci) (ci_check_time ci) e2"
  obtain cl e2 where cl: "create_simulated_cluster pl ci e = (Inr cl, snd (?ts e2))"
    and e2: "e2 = etcd_put key_audit_identity (ed_pem ?cr (ci_audit_key ci)) e1"
    and f: "cl_nodes cl = ?nodes" "cl_servers cl = wi_servers w" "gw_store (cl_gateway cl) = wi_store w"
      "gw_scheduler (cl_gateway cl) = fst (?ts e2)"
    using create_simulated_cluster_spec [OF b w] by blast
  have leader: "sc_is_leader (fst (?ts e2)) \<longleftrightarrow> etcd_get key_leader e = None"
    using new_scheduler_elected [OF assms(5)] bootstrap_get(6) [OF b, of key_leader]
    by (simp add: e2 etcd_kv.get_put_other)
  have targets: "sc_node_targets (fst (?ts e2)) = wi_targets w"
    using new_scheduler_leaderD(9) [OF prod.collapse [symmetric]] by blast
  have same: "etcd_get k (snd (?ts e2)) = etcd_get k e1"
    if "k = key_policy \<or> (\<exists>x. k \<in> {key_model x, key_signer x, key_revocation x})" for k
    using that by (auto simp: new_scheduler_get_other e2 etcd_kv.get_put_other)
  have models: "(\<exists>rcd. verify_artifact_for_execution ?cr (pl_codecs pl) m (Some vision_digest) (snd (?ts e2)) = Inr rcd)
      \<longleftrightarrow> \<not> is_digest_revoked vision_digest e"
    if "(m, t) \<in> set (seed_models (ci_clock1 ci) (ci_clock2 ci))" for m t
    using seeded_admitted [OF b assms(1-3) that same] by blast
  show ?thesis
    using cl leader targets wired models simulated_nodes_ids(1) [of pl "ci_births ci"]
    by (intro exI [of _ cl] exI [of _ "snd (?ts e2)"]) (fastforce simp: f wired_def)
qed

theorem fresh_cluster_ready_witness:
  "\<exists>cl e'. create_simulated_cluster seed_platform seed_inputs new_etcd = (Inr cl, e') \<and>
     sc_is_leader (gw_scheduler (cl_gateway cl))"
proof -
  have f: "fadd 0 30 = 30" using fl_of_int [of 30] by (simp add: fadd_def)
  have k: "ed_pem (pl_crypto seed_platform) (ci_signer_key seed_inputs) \<noteq> []"
    and o: "signing_ok (pl_crypto seed_platform)"
    and c: "codecs_seed (pl_codecs seed_platform) (pl_crypto seed_platform) (ci_signer_key seed_inputs)
        (seed_models (ci_clock1 seed_inputs) (ci_clock2 seed_inputs))"
    and n: "\<And>n. nb_created (ci_births seed_inputs n) \<le> nb_emitted (ci_births seed_inputs n)"
    and t: "ci_check_time seed_inputs \<le> fadd (ci_grant_time seed_inputs) 30"
    using toy_ok(2) seed_codecs_ok f by (simp_all add: seed_platform_def seed_inputs_def toy_crypto_def)
  have "etcd_get key_leader new_etcd = None" by (simp add: etcd_get_def new_etcd_def)
  then show ?thesis using fresh_cluster_ready [OF o k c n t, of new_etcd] by blast
qed

text \<open>
  C5: nothing runs that the registry does not admit. A task, with the digest it names or else the
  one the registry has for its model, is submitted to the gateway and dispatched over the
  network of the cluster. If the registry did not admit that digest for the model when the task
  was submitted (registered, signed, within policy and not revoked), no worker executes anything
  or remembers anything new, whatever the placement, the leases and the answers of the nodes; and
  when no node holds an earlier result for the idempotency key of the task the submission ends in
  an HTTP error. So an answered task was admitted, or some node holds such a result: nodes
  answer a repeated key without a new check.
\<close>

theorem unadmitted_artifacts_never_run:
  assumes "channel_ok pl (si_dispatch si) nis" "asks_for pl task digest e"
    and "\<And>target w. dget servers target = Some w \<Longrightarrow> worker_ok w"
    and "submit_inference_task pl io (cluster_network pl ctx nis) si token task (g, e, servers) = (resp, g', e', servers')"
  shows "((\<nexists>rcd. may_execute (pl_crypto pl) (pl_codecs pl) (t_model_id task) (Some digest) e rcd) \<longrightarrow> servers' = servers) \<and>
    ((\<exists>rcd. may_execute (pl_crypto pl) (pl_codecs pl) (t_model_id task) (Some digest) e rcd) \<or>
     (\<exists>err. resp = Inl err \<and> he_status err \<in> {401, 500, 503}) \<or>
     (\<exists>target w. dget servers target = Some w \<and> dget (w_processed w) (t_idempotency_key task) \<noteq> None))"
proof -
  have "servers_fresh task servers"
    if "\<nexists>target w. dget servers target = Some w \<and> dget (w_processed w) (t_idempotency_key task) \<noteq> None"
    using that assms(3) by (auto simp: servers_fresh_def fresh_for_def)
  then show ?thesis using submit_refused [OF assms(1,2) _ assms(4)] unfolding refused_def by blast
qed

theorem unadmitted_artifacts_never_run_witness:
  "\<exists>err g' e'. submit_inference_task gateway_platform toy_io
       (cluster_network gateway_platform sample_context (\<lambda>target req. sample_inputs)) sample_submit ''secret''
       (sample_eu_task\<lparr>t_model_digest := Some sample_digest\<rparr>)
       (sample_gateway, revoke_artifact_digest fraction_text sample_digest ''leak'' 1 sample_scheduler_etcd,
        [(''host:1'', new_InferenceWorker sample_worker_node)]) =
     (Inl err, g', e', [(''host:1'', new_InferenceWorker sample_worker_node)])"
proof -
  let ?t = "sample_eu_task\<lparr>t_model_digest := Some sample_digest\<rparr>"
  let ?e = "revoke_artifact_digest fraction_text sample_digest ''leak'' 1 sample_scheduler_etcd"
  let ?ws = "[(''host:1'', new_InferenceWorker sample_worker_node)]"
  let ?net = "cluster_network gateway_platform sample_context (\<lambda>target req. sample_inputs)"
  have c: "channel_ok gateway_platform (si_dispatch sample_submit) (\<lambda>target req. sample_inputs)"
    using toy_ok by (simp add: channel_ok_def gateway_platform_def sample_platform_def sample_submit_def
        sample_dispatch_def sample_inputs_def rnd_ok_def sample_random_def)
  have d: "asks_for gateway_platform ?t sample_digest ?e"
    using fl_of_int [of 100] sample_fields(4) by (simp add: asks_for_def resolve_digest_def json_of_opt_def sample_task_def is_float_def)
  have f: "worker_ok w \<and> dget (w_processed w) k = None" if "dget ?ws target = Some w" for target w k
    using that by (auto split: if_splits) (simp add: new_InferenceWorker_def)
  have r: "refused gateway_platform ?t sample_digest ?e"
    using revoked_refused [OF sample_fields(4)] revoked_present by (simp add: is_digest_revoked_def)
  obtain resp g' e' ws' where s: "submit_inference_task gateway_platform toy_io ?net sample_submit ''secret'' ?t
      (sample_gateway, ?e, ?ws) = (resp, g', e', ws')"
    by (metis surj_pair)
  show ?thesis
    using unadmitted_artifacts_never_run [OF c d conjunct1 [OF f] s] f r s unfolding refused_def by fastforce
qed

end
